theory Spec2Isabelle
  imports Complex_Main "HOL-Library.AList"
begin

section \<open>JavaScript values and the browser environment\<close>

text \<open>
  The development embeds the two pages of \<^verbatim>\<open>src/app/tennis/player-analysis/page.tsx\<close>:
  the player-analysis page (\<^verbatim>\<open>handleBoxesSelected\<close>, \<^verbatim>\<open>startTennisAnalysis\<close>) and the
  results page (\<^verbatim>\<open>fetchAnalysis\<close>).

  JavaScript numbers are modelled as rationals (\<^typ>\<open>rat\<close>) and integral loop counters as
  \<^typ>\<open>int\<close>: the arithmetic of the page is a floor, a division by two, a comparison with
  three and six tenths of an integer and a percentage. The duration of a video whose
  metadata has loaded is taken to be a finite number. A thrown value is an
  \<^verbatim>\<open>Error\<close> object, of which the page reads the \<^verbatim>\<open>message\<close> only.
\<close>

datatype js_error = JsError (message: string)

text \<open>The outcome of awaiting a promise: it resolves, rejects, or never settles.\<close>

datatype 'a promise = Resolved 'a | Rejected js_error | Pending

text \<open>
  \<^verbatim>\<open>BoundingBox\<close> is declared in the tracker module; the page reads its \<^verbatim>\<open>label\<close> only.
\<close>

record BoundingBox =
  label :: string

text \<open>The state \<^verbatim>\<open>videoMetadata\<close>, and the metadata object handed to the tracker.\<close>

record VideoMetadata =
  width :: rat
  height :: rat
  duration :: rat

record TrackerMetadata = VideoMetadata +
  fps :: rat

text \<open>
  Every effect of the page that is visible outside the running function is recorded, in
  order, in a trace: the state setters of React, the calls into the tracker module, the
  seeks of the video element, the console, local storage and the router. The trace also
  records that \<^verbatim>\<open>startTennisAnalysis\<close> was entered, so that a caller can be seen to call it.
  \<open>'f\<close> is the tracker's frame type and \<open>'p\<close> the type of \<^verbatim>\<open>pixelsToMeters\<close>.
\<close>

text \<open>The five arguments of one call of \<^verbatim>\<open>trackFrame\<close> (lines 143 to 149).\<close>

datatype ('f, 'p) track_call =
  TrackCall (argFrameBase64: string) (argFrameIndex: int) (argTimestamp: rat)
    (argPreviousFrame: 'f) (argPixelsToMeters: 'p)

datatype ('f, 'p) event =
    Call_startTennisAnalysis "BoundingBox list"
  | Set_selectedBoxes "BoundingBox list"
  | Set_showBoundingBoxSelector bool
  | Set_isAnalyzing bool
  | Set_error "string option"
  | Set_progress rat
  | Set_processingMessage string
  | Set_analysisId string
  | Call_initializeTennisTracker "BoundingBox list" rat rat
  | Video_load string
  | Video_seek rat
  | Call_trackFrame "('f, 'p) track_call"
  | Call_generateAnalysisResult "'f list" TrackerMetadata 'p
  | Console_error_frame rat js_error
  | Console_error_analysis js_error
  | LocalStorage_setItem string string
  | Router_push string

text \<open>
  The component state of \<^verbatim>\<open>PlayerAnalysis\<close> (one field per \<^verbatim>\<open>useState\<close>), the browser's
  local storage, the current route and the trace.
\<close>

record ('f, 'p) World =
  videoUrl :: "string option"
  fileName :: "string option"
  isAnalyzing :: bool
  progress :: rat
  error :: "string option"
  analysisId :: "string option"
  processingMessage :: "string option"
  showBoundingBoxSelector :: bool
  selectedBoxes :: "BoundingBox list option"
  videoMetadata :: "VideoMetadata option"
  showUploader :: bool
  localStorage :: "string \<Rightarrow> string option"
  route :: string
  trace :: "('f, 'p) event list"

text \<open>
  What the page calls and awaits. The tracker module (\<^verbatim>\<open>initializeTennisTracker\<close>,
  \<^verbatim>\<open>trackFrame\<close>, \<^verbatim>\<open>generateAnalysisResult\<close>) is not part of the page: its functions are
  parameters, and each may throw or reject. The video element answers a load with its
  duration, with an error event, or not at all; a seek is answered by a \<^verbatim>\<open>seeked\<close> event or
  not at all; the canvas may have no 2d context and drawing or encoding may throw.
  After the loop, \<^verbatim>\<open>JSON.stringify\<close>, \<^verbatim>\<open>localStorage.setItem\<close>, \<^verbatim>\<open>encodeURIComponent\<close> and
  \<^verbatim>\<open>router.push\<close> may throw as well: a result that cannot be serialised, a storage that is
  full or disabled, a malformed URL, a router that refuses. \<^verbatim>\<open>uuidv4\<close> is a library
  function taken as it is.
\<close>

datatype video_load = Loadedmetadata rat | Load_error | Load_pending

record ('f, 'p, 'r) Env =
  uuidv4 :: string
  initializeTennisTracker :: "BoundingBox list \<Rightarrow> rat \<Rightarrow> rat \<Rightarrow> js_error + 'f \<times> 'p"
  video_load :: "string \<Rightarrow> video_load"
  seeked :: "rat \<Rightarrow> bool"
  getContext2d :: "rat \<Rightarrow> bool"
  toDataURL :: "rat \<Rightarrow> js_error + string"
  trackFrame :: "string \<Rightarrow> int \<Rightarrow> rat \<Rightarrow> 'f \<Rightarrow> 'p \<Rightarrow> 'f promise"
  generateAnalysisResult :: "'f list \<Rightarrow> TrackerMetadata \<Rightarrow> 'p \<Rightarrow> js_error + 'r"
  JSON_stringify :: "'r \<Rightarrow> js_error + string"
  setItem_error :: "string \<Rightarrow> string \<Rightarrow> js_error option"
  encodeURIComponent :: "string \<Rightarrow> js_error + string"
  push_error :: "string \<Rightarrow> js_error option"

section \<open>Effects\<close>

definition emit :: "('f, 'p) event \<Rightarrow> ('f, 'p) World \<Rightarrow> ('f, 'p) World" where
  "emit e w = w\<lparr>trace := trace w @ [e]\<rparr>"

definition setSelectedBoxes :: "BoundingBox list \<Rightarrow> ('f, 'p) World \<Rightarrow> ('f, 'p) World" where
  "setSelectedBoxes v w = emit (Set_selectedBoxes v) (w\<lparr>selectedBoxes := Some v\<rparr>)"

definition setShowBoundingBoxSelector :: "bool \<Rightarrow> ('f, 'p) World \<Rightarrow> ('f, 'p) World" where
  "setShowBoundingBoxSelector v w =
     emit (Set_showBoundingBoxSelector v) (w\<lparr>showBoundingBoxSelector := v\<rparr>)"

definition setIsAnalyzing :: "bool \<Rightarrow> ('f, 'p) World \<Rightarrow> ('f, 'p) World" where
  "setIsAnalyzing v w = emit (Set_isAnalyzing v) (w\<lparr>isAnalyzing := v\<rparr>)"

definition setError :: "string option \<Rightarrow> ('f, 'p) World \<Rightarrow> ('f, 'p) World" where
  "setError v w = emit (Set_error v) (w\<lparr>error := v\<rparr>)"

definition setProgress :: "rat \<Rightarrow> ('f, 'p) World \<Rightarrow> ('f, 'p) World" where
  "setProgress v w = emit (Set_progress v) (w\<lparr>progress := v\<rparr>)"

definition setProcessingMessage :: "string \<Rightarrow> ('f, 'p) World \<Rightarrow> ('f, 'p) World" where
  "setProcessingMessage v w =
     emit (Set_processingMessage v) (w\<lparr>processingMessage := Some v\<rparr>)"

definition setAnalysisId :: "string \<Rightarrow> ('f, 'p) World \<Rightarrow> ('f, 'p) World" where
  "setAnalysisId v w = emit (Set_analysisId v) (w\<lparr>analysisId := Some v\<rparr>)"

text \<open>
  \<^verbatim>\<open>localStorage.setItem\<close> and \<^verbatim>\<open>router.push\<close>: the call throws and changes nothing, or it
  writes the entry (sets the route) and is recorded in the trace.
\<close>

definition localStorage_setItem ::
    "('f, 'p, 'r) Env \<Rightarrow> string \<Rightarrow> string \<Rightarrow> ('f, 'p) World \<Rightarrow> js_error + ('f, 'p) World" where
  "localStorage_setItem env k v w =
     (case setItem_error env k v of
        Some e \<Rightarrow> Inl e
      | None \<Rightarrow>
          Inr (emit (LocalStorage_setItem k v) (w\<lparr>localStorage := (localStorage w)(k \<mapsto> v)\<rparr>)))"

definition router_push ::
    "('f, 'p, 'r) Env \<Rightarrow> string \<Rightarrow> ('f, 'p) World \<Rightarrow> js_error + ('f, 'p) World" where
  "router_push env url w =
     (case push_error env url of
        Some e \<Rightarrow> Inl e
      | None \<Rightarrow> Inr (emit (Router_push url) (w\<lparr>route := url\<rparr>)))"

section \<open>The frame loop of \<^verbatim>\<open>startTennisAnalysis\<close>\<close>

text \<open>
  The progress message of one iteration (lines 104 to 111): the literals \<^verbatim>\<open>0.3\<close> and
  \<^verbatim>\<open>0.6\<close> are three and six tenths.
\<close>

definition progressMessage :: "int \<Rightarrow> int \<Rightarrow> string" where
  "progressMessage totalFrames frameIndex =
     (if of_int frameIndex < (of_int totalFrames :: rat) * (3 / 10)
        then ''Extracting video frames...''
      else if of_int frameIndex < (of_int totalFrames :: rat) * (6 / 10)
        then ''Tracking player and ball...''
      else ''Analyzing player performance...'')"

text \<open>
  The \<^verbatim>\<open>catch\<close> of the inner \<^verbatim>\<open>try\<close> (lines 156 to 159): the error goes to the console
  and the loop goes on with the next frame.
\<close>

definition frameCatch ::
    "rat \<Rightarrow> js_error \<Rightarrow> 'f list \<times> ('f, 'p) World \<Rightarrow> ('f list \<times> ('f, 'p) World) option" where
  "frameCatch timestamp e st = Some (fst st, emit (Console_error_frame timestamp e) (snd st))"

text \<open>
  One iteration of the loop (lines 101 to 159), with \<^verbatim>\<open>frameRate\<close> at its value \<open>2\<close>.
  \<open>None\<close> is an \<^verbatim>\<open>await\<close> that never returns: the \<^verbatim>\<open>seeked\<close> event that does not come,
  or a call of \<^verbatim>\<open>trackFrame\<close> that never settles. The collection \<open>frames\<close> starts with
  the initial frame and only grows, so \<^verbatim>\<open>frames[frames.length - 1]\<close> is its last element.
\<close>

definition processFrame ::
    "('f, 'p, 'r) Env \<Rightarrow> int \<Rightarrow> 'p \<Rightarrow> int \<Rightarrow> 'f list \<times> ('f, 'p) World
       \<Rightarrow> ('f list \<times> ('f, 'p) World) option" where
  "processFrame env totalFrames pixelsToMeters frameIndex st =
     (let frames = fst st;
          timestamp = of_int frameIndex / 2;
          w1 = setProcessingMessage (progressMessage totalFrames frameIndex) (snd st);
          w2 = emit (Video_seek timestamp) w1
      in if \<not> seeked env timestamp then None
         else if \<not> getContext2d env timestamp
           then frameCatch timestamp (JsError ''Could not get canvas context'') (frames, w2)
         else
           (case toDataURL env timestamp of
              Inl e \<Rightarrow> frameCatch timestamp e (frames, w2)
            | Inr frameBase64 \<Rightarrow>
                (let w3 = emit (Call_trackFrame (TrackCall frameBase64 frameIndex timestamp
                                 (last frames) pixelsToMeters)) w2
                 in case trackFrame env frameBase64 frameIndex timestamp
                           (last frames) pixelsToMeters of
                      Pending \<Rightarrow> None
                    | Rejected e \<Rightarrow> frameCatch timestamp e (frames, w3)
                    | Resolved frame \<Rightarrow>
                        Some (frames @ [frame],
                              setProgress (of_int frameIndex / of_int totalFrames * 100) w3))))"

text \<open>
  The \<^verbatim>\<open>for\<close> loop (line 100), from \<open>frameIndex\<close> on.
\<close>

function frameLoop ::
    "('f, 'p, 'r) Env \<Rightarrow> int \<Rightarrow> 'p \<Rightarrow> int \<Rightarrow> 'f list \<times> ('f, 'p) World
       \<Rightarrow> ('f list \<times> ('f, 'p) World) option" where
  "frameLoop env totalFrames pixelsToMeters frameIndex st =
     (if frameIndex < totalFrames then
        (case processFrame env totalFrames pixelsToMeters frameIndex st of
           None \<Rightarrow> None
         | Some st' \<Rightarrow> frameLoop env totalFrames pixelsToMeters (frameIndex + 1) st')
      else Some st)"
  by pat_completeness auto
termination
  by (relation "measure (\<lambda>(env, totalFrames, p, frameIndex, st). nat (totalFrames - frameIndex))")
     auto

declare frameLoop.simps [simp del]

section \<open>\<^verbatim>\<open>startTennisAnalysis\<close> and \<^verbatim>\<open>handleBoxesSelected\<close>\<close>

text \<open>
  Lines 174 to 178, the end of the outer \<^verbatim>\<open>try\<close>: serialise the result, write it to local
  storage, encode the video URL and navigate. Each of the four calls may throw; \<open>Inl (e, w)\<close>
  is the exception \<open>e\<close> leaving the block in the world \<open>w\<close>.
\<close>

definition storeAndNavigate ::
    "('f, 'p, 'r) Env \<Rightarrow> string \<Rightarrow> string \<Rightarrow> 'r \<Rightarrow> ('f, 'p) World
       \<Rightarrow> js_error \<times> ('f, 'p) World + ('f, 'p) World" where
  "storeAndNavigate env url newAnalysisId analysisResult w =
     (case JSON_stringify env analysisResult of
        Inl e \<Rightarrow> Inl (e, w)
      | Inr s \<Rightarrow>
          (case localStorage_setItem env (''analysis-'' @ newAnalysisId) s w of
             Inl e \<Rightarrow> Inl (e, w)
           | Inr w1 \<Rightarrow>
               (case encodeURIComponent env url of
                  Inl e \<Rightarrow> Inl (e, w1)
                | Inr u \<Rightarrow>
                    (case router_push env
                            (''/tennis/results/'' @ newAnalysisId @ ''?videoUrl='' @ u) w1 of
                       Inl e \<Rightarrow> Inl (e, w1)
                     | Inr w2 \<Rightarrow> Inr w2))))"

text \<open>
  The body of the outer \<^verbatim>\<open>try\<close> (lines 70 to 178). \<open>Inl (e, w)\<close> is the exception \<open>e\<close>
  leaving the block in the world \<open>w\<close>; \<open>None\<close> is an \<^verbatim>\<open>await\<close> that never returns.
\<close>

definition analysisBody ::
    "('f, 'p, 'r) Env \<Rightarrow> BoundingBox list \<Rightarrow> string \<Rightarrow> VideoMetadata \<Rightarrow> string
       \<Rightarrow> ('f, 'p) World \<Rightarrow> (js_error \<times> ('f, 'p) World + ('f, 'p) World) option" where
  "analysisBody env boxes url md newAnalysisId w =
     (let w1 = emit (Call_initializeTennisTracker boxes (width md) (height md)) w
      in case initializeTennisTracker env boxes (width md) (height md) of
           Inl e \<Rightarrow> Some (Inl (e, w1))
         | Inr (initialFrame, pixelsToMeters) \<Rightarrow>
             (let w2 = emit (Video_load url) w1
              in case video_load env url of
                   Load_pending \<Rightarrow> None
                 | Load_error \<Rightarrow> Some (Inl (JsError ''Failed to load video'', w2))
                 | Loadedmetadata duration' \<Rightarrow>
                     (let frameRate = 2;
                          totalFrames = \<lfloor>duration' * frameRate\<rfloor>
                      in case frameLoop env totalFrames pixelsToMeters 1 ([initialFrame], w2) of
                           None \<Rightarrow> None
                         | Some (frames, w3) \<Rightarrow>
                             (let meta = \<lparr>width = width md, height = height md,
                                           duration = duration', fps = 30\<rparr>;
                                  w4 = emit (Call_generateAnalysisResult frames meta
                                              pixelsToMeters) w3
                              in case generateAnalysisResult env frames meta pixelsToMeters of
                                   Inl e \<Rightarrow> Some (Inl (e, w4))
                                 | Inr analysisResult \<Rightarrow>
                                     Some (storeAndNavigate env url newAnalysisId
                                             analysisResult w4)))))"

text \<open>The \<^verbatim>\<open>catch\<close> of the outer \<^verbatim>\<open>try\<close> (lines 179 to 183).\<close>

definition analysisCatch :: "js_error \<Rightarrow> ('f, 'p) World \<Rightarrow> ('f, 'p) World" where
  "analysisCatch e w =
     setIsAnalyzing False
       (setError (Some (if message e \<noteq> [] then message e else ''Error analyzing video''))
          (emit (Console_error_analysis e) w))"

text \<open>
  \<^verbatim>\<open>startTennisAnalysis\<close> (lines 54 to 184). The test \<^verbatim>\<open>!videoUrl\<close> holds of \<^verbatim>\<open>null\<close> and
  of the empty string.
\<close>

definition startTennisAnalysis ::
    "('f, 'p, 'r) Env \<Rightarrow> ('f, 'p) World \<Rightarrow> BoundingBox list \<Rightarrow> ('f, 'p) World option" where
  "startTennisAnalysis env w0 boxes =
     (let w = emit (Call_startTennisAnalysis boxes) w0
      in case (videoUrl w, videoMetadata w) of
           (Some url, Some md) \<Rightarrow>
             (if url = [] then
                Some (setError (Some ''Video not properly loaded. Please try again.'') w)
              else
                (let newAnalysisId = ''tennis-'' @ uuidv4 env;
                     w1 = setAnalysisId newAnalysisId
                            (setProcessingMessage ''Initializing tennis analysis...''
                              (setProgress 0 (setError None (setIsAnalyzing True w))))
                 in case analysisBody env boxes url md newAnalysisId w1 of
                      None \<Rightarrow> None
                    | Some (Inr w') \<Rightarrow> Some w'
                    | Some (Inl (e, w')) \<Rightarrow> Some (analysisCatch e w')))
         | _ \<Rightarrow> Some (setError (Some ''Video not properly loaded. Please try again.'') w))"

text \<open>\<^verbatim>\<open>handleBoxesSelected\<close> (lines 36 to 47).\<close>

definition handleBoxesSelected ::
    "('f, 'p, 'r) Env \<Rightarrow> ('f, 'p) World \<Rightarrow> BoundingBox list \<Rightarrow> ('f, 'p) World option" where
  "handleBoxesSelected env w boxes =
     (if \<not> list_ex (\<lambda>box. label box = ''player'') boxes
         \<or> \<not> list_ex (\<lambda>box. label box = ''ball'') boxes
      then Some (setError (Some ''Please draw bounding boxes for both the player and the ball.'') w)
      else startTennisAnalysis env
             (setShowBoundingBoxSelector False (setSelectedBoxes boxes w)) boxes)"

section \<open>Reading the trace\<close>

fun the_message :: "('f, 'p) event \<Rightarrow> string option" where
  "the_message (Set_processingMessage m) = Some m"
| "the_message _ = None"

fun the_seek :: "('f, 'p) event \<Rightarrow> rat option" where
  "the_seek (Video_seek t) = Some t"
| "the_seek _ = None"

fun the_progress :: "('f, 'p) event \<Rightarrow> rat option" where
  "the_progress (Set_progress v) = Some v"
| "the_progress _ = None"

fun the_track_call :: "('f, 'p) event \<Rightarrow> ('f, 'p) track_call option" where
  "the_track_call (Call_trackFrame c) = Some c"
| "the_track_call _ = None"

fun the_generate_call :: "('f, 'p) event \<Rightarrow> ('f list \<times> TrackerMetadata \<times> 'p) option" where
  "the_generate_call (Call_generateAnalysisResult frames meta p) = Some (frames, meta, p)"
| "the_generate_call _ = None"

fun the_frame_error :: "('f, 'p) event \<Rightarrow> (rat \<times> js_error) option" where
  "the_frame_error (Console_error_frame t e) = Some (t, e)"
| "the_frame_error _ = None"

fun the_analysis_error :: "('f, 'p) event \<Rightarrow> js_error option" where
  "the_analysis_error (Console_error_analysis e) = Some e"
| "the_analysis_error _ = None"

text \<open>Writes to local storage and navigations.\<close>

fun the_persistent :: "('f, 'p) event \<Rightarrow> ('f, 'p) event option" where
  "the_persistent (LocalStorage_setItem k v) = Some (LocalStorage_setItem k v)"
| "the_persistent (Router_push url) = Some (Router_push url)"
| "the_persistent _ = None"

definition messages_of :: "('f, 'p) event list \<Rightarrow> string list" where
  "messages_of es = List.map_filter the_message es"

definition seeks_of :: "('f, 'p) event list \<Rightarrow> rat list" where
  "seeks_of es = List.map_filter the_seek es"

definition progress_of :: "('f, 'p) event list \<Rightarrow> rat list" where
  "progress_of es = List.map_filter the_progress es"

definition track_calls_of :: "('f, 'p) event list \<Rightarrow> ('f, 'p) track_call list" where
  "track_calls_of es = List.map_filter the_track_call es"

definition generate_calls_of ::
    "('f, 'p) event list \<Rightarrow> ('f list \<times> TrackerMetadata \<times> 'p) list" where
  "generate_calls_of es = List.map_filter the_generate_call es"

definition frame_errors_of :: "('f, 'p) event list \<Rightarrow> (rat \<times> js_error) list" where
  "frame_errors_of es = List.map_filter the_frame_error es"

definition analysis_errors_of :: "('f, 'p) event list \<Rightarrow> js_error list" where
  "analysis_errors_of es = List.map_filter the_analysis_error es"

definition persistent_of :: "('f, 'p) event list \<Rightarrow> ('f, 'p) event list" where
  "persistent_of es = List.map_filter the_persistent es"

text \<open>The events added to the trace between two worlds.\<close>

definition events_since :: "('f, 'p) World \<Rightarrow> ('f, 'p) World \<Rightarrow> ('f, 'p) event list" where
  "events_since w w' = drop (length (trace w)) (trace w')"

text \<open>
  What a call of \<^verbatim>\<open>trackFrame\<close> answers, and the frames a list of answers resolved with.
\<close>

definition answer :: "('f, 'p, 'r) Env \<Rightarrow> ('f, 'p) track_call \<Rightarrow> 'f promise" where
  "answer env c =
     trackFrame env (argFrameBase64 c) (argFrameIndex c) (argTimestamp c)
       (argPreviousFrame c) (argPixelsToMeters c)"

fun the_resolved :: "'f promise \<Rightarrow> 'f option" where
  "the_resolved (Resolved f) = Some f"
| "the_resolved _ = None"

definition returned_frames :: "('f, 'p, 'r) Env \<Rightarrow> ('f, 'p) track_call list \<Rightarrow> 'f list" where
  "returned_frames env cs = List.map_filter (\<lambda>c. the_resolved (answer env c)) cs"

text \<open>
  The frame at index \<open>k\<close> can be captured: the canvas has a 2d context and drawing and
  encoding do not throw (lines 127 to 140).
\<close>

definition captures :: "('f, 'p, 'r) Env \<Rightarrow> int \<Rightarrow> bool" where
  "captures env k =
     (getContext2d env (of_int k / 2)
      \<and> (case toDataURL env (of_int k / 2) of Inr b \<Rightarrow> True | Inl e \<Rightarrow> False))"

section \<open>The results page: \<^verbatim>\<open>fetchAnalysis\<close>\<close>

text \<open>
  The values \<^verbatim>\<open>JSON.parse\<close> and \<^verbatim>\<open>response.json()\<close> return, with \<^verbatim>\<open>undefined\<close> for the
  property that is not there. An object is the list of its properties, in order.
\<close>

datatype json =
    JUndefined
  | JNull
  | JBool bool
  | JNum rat
  | JStr string
  | JArr "json list"
  | JObj "(string \<times> json) list"

text \<open>What \<^verbatim>\<open>if (v)\<close>, \<^verbatim>\<open>v && ...\<close> and \<^verbatim>\<open>v || ...\<close> test.\<close>

fun truthy :: "json \<Rightarrow> bool" where
  "truthy JUndefined = False"
| "truthy JNull = False"
| "truthy (JBool b) = b"
| "truthy (JNum x) = (x \<noteq> 0)"
| "truthy (JStr s) = (s \<noteq> [])"
| "truthy (JArr xs) = True"
| "truthy (JObj kvs) = True"

text \<open>
  Reading \<^verbatim>\<open>v.k\<close> throws a \<^verbatim>\<open>TypeError\<close> on \<^verbatim>\<open>null\<close> and \<^verbatim>\<open>undefined\<close>; none of the
  property names of the page is a property of an array, a string, a number or a boolean.
  Writing \<^verbatim>\<open>v.k = x\<close> in a module (strict mode) throws on a primitive value; on an array
  it adds a property that is no element, which this model of a value does not show.
\<close>

fun getField :: "js_error \<Rightarrow> json \<Rightarrow> string \<Rightarrow> js_error + json" where
  "getField te JUndefined k = Inl te"
| "getField te JNull k = Inl te"
| "getField te (JObj kvs) k = Inr (case map_of kvs k of Some v \<Rightarrow> v | None \<Rightarrow> JUndefined)"
| "getField te v k = Inr JUndefined"

fun setField :: "js_error \<Rightarrow> json \<Rightarrow> string \<Rightarrow> json \<Rightarrow> js_error + json" where
  "setField te (JObj kvs) k x = Inr (JObj (AList.update k x kvs))"
| "setField te (JArr xs) k x = Inr (JArr xs)"
| "setField te v k x = Inl te"

text \<open>What \<^verbatim>\<open>fetch\<close> followed by \<^verbatim>\<open>response.json()\<close> comes to.\<close>

datatype fetch_outcome =
    Fetch_pending
  | Fetch_rejected js_error
  | Response (ok: bool) (body: "js_error + json")

record ResultsEnv =
  JSON_parse :: "string \<Rightarrow> js_error + json"
  fetch :: "string \<Rightarrow> fetch_outcome"
  toISOString_now :: string
  typeError :: js_error
  String_of :: "json \<Rightarrow> string"

text \<open>
  The state of \<^verbatim>\<open>TennisResultsPage\<close>, the URLs it has fetched and its console. The field
  \<open>error_r\<close> is the state \<^verbatim>\<open>error\<close> of this page.
\<close>

record ResultsPage =
  analysis :: json
  tennisAnalysis :: json
  loading :: bool
  error_r :: "string option"
  requests :: "string list"
  console_r :: "js_error list"

text \<open>\<^verbatim>\<open>searchParams?.get('videoUrl') || null\<close> (line 369).\<close>

definition videoUrlFromQuery :: "string option \<Rightarrow> string option" where
  "videoUrlFromQuery q = (case q of None \<Rightarrow> None | Some u \<Rightarrow> if u = [] then None else Some u)"

text \<open>The \<^verbatim>\<open>catch\<close> and the \<^verbatim>\<open>finally\<close> of \<^verbatim>\<open>fetchAnalysis\<close> (lines 425 to 430).\<close>

definition fetchCatch :: "js_error \<Rightarrow> ResultsPage \<Rightarrow> ResultsPage option" where
  "fetchCatch e st =
     Some (st\<lparr>console_r := console_r st @ [e],
              error_r := Some (if message e \<noteq> [] then message e else ''Error fetching analysis''),
              loading := False\<rparr>)"

text \<open>
  The test of lines 420 to 422: \<^verbatim>\<open>r && r.frames && r.playerStats\<close>, for the value \<open>r\<close> of
  \<^verbatim>\<open>data.analysis.analysis_result\<close>. A falsy \<open>r\<close> ends the test before a property is read.
\<close>

definition isTennisResult :: "js_error \<Rightarrow> json \<Rightarrow> bool" where
  "isTennisResult te r =
     (truthy r
      \<and> (case getField te r ''frames'' of Inr x \<Rightarrow> truthy x | Inl e \<Rightarrow> False)
      \<and> (case getField te r ''playerStats'' of Inr x \<Rightarrow> truthy x | Inl e \<Rightarrow> False))"

text \<open>
  \<^verbatim>\<open>fetchAnalysis\<close> (lines 377 to 431), for the route parameter \<open>id\<close>, the raw query
  parameter \<open>q\<close> and the local storage \<open>ls\<close>. \<open>None\<close> is a request that never settles.
\<close>

definition fetchAnalysis ::
    "ResultsEnv \<Rightarrow> (string \<Rightarrow> string option) \<Rightarrow> string option \<Rightarrow> string \<Rightarrow> ResultsPage
       \<Rightarrow> ResultsPage option" where
  "fetchAnalysis env ls q id' st =
     (let localStorageKey = ''analysis-'' @ id';
          storedAnalysis = ls localStorageKey
      in if storedAnalysis \<noteq> None \<and> storedAnalysis \<noteq> Some []
         then
           (case JSON_parse env (the storedAnalysis) of
              Inl e \<Rightarrow> fetchCatch e st
            | Inr parsedAnalysis \<Rightarrow>
                Some (st\<lparr>analysis :=
                          JObj [(''id'', JStr id'),
                                (''user_id'', JStr ''client-user''),
                                (''video_url'',
                                   JStr (case videoUrlFromQuery q of Some u \<Rightarrow> u | None \<Rightarrow> [])),
                                (''sport_type'', JStr ''tennis''),
                                (''analysis_status'', JStr ''completed''),
                                (''analysis_result'', parsedAnalysis),
                                (''created_at'', JStr (toISOString_now env))],
                        tennisAnalysis := parsedAnalysis,
                        loading := False\<rparr>))
         else
           (let st1 = st\<lparr>requests := requests st @ [''/api/analysis/'' @ id']\<rparr>
            in case fetch env (''/api/analysis/'' @ id') of
                 Fetch_pending \<Rightarrow> None
               | Fetch_rejected e \<Rightarrow> fetchCatch e st1
               | Response ok' (Inl e) \<Rightarrow> fetchCatch e st1
               | Response ok' (Inr data) \<Rightarrow>
                   if \<not> ok' then
                     (case getField (typeError env) data ''error'' of
                        Inl e \<Rightarrow> fetchCatch e st1
                      | Inr err \<Rightarrow>
                          fetchCatch
                            (JsError (if truthy err then String_of env err
                                      else ''Failed to fetch analysis'')) st1)
                   else
                     (case getField (typeError env) data ''analysis'' of
                        Inl e \<Rightarrow> fetchCatch e st1
                      | Inr a \<Rightarrow>
                          (case (if videoUrlFromQuery q \<noteq> None \<and> truthy a
                                 then setField (typeError env) a ''video_url''
                                        (JStr (the (videoUrlFromQuery q)))
                                 else Inr a) of
                             Inl e \<Rightarrow> fetchCatch e st1
                           | Inr a' \<Rightarrow>
                               (let st2 = st1\<lparr>analysis := a'\<rparr>
                                in case getField (typeError env) a' ''analysis_result'' of
                                     Inl e \<Rightarrow> fetchCatch e st2
                                   | Inr r \<Rightarrow>
                                       Some ((if isTennisResult (typeError env) r
                                              then st2\<lparr>tennisAnalysis := r\<rparr> else st2)
                                             \<lparr>loading := False\<rparr>))))))"

section \<open>Notions the statements use\<close>

text \<open>
  The world after lines 60 to 67 of \<^verbatim>\<open>startTennisAnalysis\<close>, and the world in which the
  frame loop starts (after lines 71 to 87).
\<close>

definition analysisStarted ::
    "('f, 'p, 'r) Env \<Rightarrow> BoundingBox list \<Rightarrow> ('f, 'p) World \<Rightarrow> ('f, 'p) World" where
  "analysisStarted env boxes w =
     setAnalysisId (''tennis-'' @ uuidv4 env)
       (setProcessingMessage ''Initializing tennis analysis...''
         (setProgress 0 (setError None (setIsAnalyzing True
           (emit (Call_startTennisAnalysis boxes) w)))))"

definition loopStart ::
    "('f, 'p, 'r) Env \<Rightarrow> BoundingBox list \<Rightarrow> string \<Rightarrow> VideoMetadata \<Rightarrow> ('f, 'p) World
       \<Rightarrow> ('f, 'p) World" where
  "loopStart env boxes url md w =
     emit (Video_load url)
       (emit (Call_initializeTennisTracker boxes (width md) (height md))
         (analysisStarted env boxes w))"

text \<open>
  What the \<^verbatim>\<open>try\<close> block of one iteration comes to once the video has been sought
  (lines 126 to 149), with \<open>frames\<close> the collection at that moment: the frame that
  \<^verbatim>\<open>trackFrame\<close> resolves with, or the error thrown by the canvas or by the tracker.
\<close>

definition frameOutcome :: "('f, 'p, 'r) Env \<Rightarrow> 'p \<Rightarrow> int \<Rightarrow> 'f list \<Rightarrow> 'f promise" where
  "frameOutcome env p k frames =
     (if \<not> getContext2d env (of_int k / 2)
        then Rejected (JsError ''Could not get canvas context'')
      else
        (case toDataURL env (of_int k / 2) of
           Inl e \<Rightarrow> Rejected e
         | Inr b \<Rightarrow> trackFrame env b k (of_int k / 2) (last frames) p))"

text \<open>
  Skipping the frames that fail, said directly. Going through the indices in order, an
  index whose frame arrives appends the frame; an index that throws adds its timestamp and
  the error to the console, leaves the collection as it is and is not tried again; either
  way the next index follows. The result is the console lines and the collection.
\<close>

fun skipFailed ::
    "('f, 'p, 'r) Env \<Rightarrow> 'p \<Rightarrow> int list \<Rightarrow> 'f list \<Rightarrow> (rat \<times> js_error) list \<times> 'f list" where
  "skipFailed env p [] frames = ([], frames)"
| "skipFailed env p (k # ks) frames =
     (case frameOutcome env p k frames of
        Resolved frame \<Rightarrow> skipFailed env p ks (frames @ [frame])
      | Rejected e \<Rightarrow>
          (case skipFailed env p ks frames of
             (errors, frames') \<Rightarrow> ((of_int k / 2, e) # errors, frames'))
      | Pending \<Rightarrow> ([], frames))"

text \<open>A call of \<^verbatim>\<open>trackFrame\<close> that resolves with a frame.\<close>

definition resolves :: "('f, 'p, 'r) Env \<Rightarrow> ('f, 'p) track_call \<Rightarrow> bool" where
  "resolves env c = (case answer env c of Resolved f \<Rightarrow> True | Rejected e \<Rightarrow> False | Pending \<Rightarrow> False)"

text \<open>
  The exception \<open>e\<close> is thrown by the navigation of line 178: by \<^verbatim>\<open>encodeURIComponent\<close>
  or, when the URL was encoded, by \<^verbatim>\<open>router.push\<close>.
\<close>

definition navigation_throws ::
    "('f, 'p, 'r) Env \<Rightarrow> string \<Rightarrow> js_error \<Rightarrow> bool" where
  "navigation_throws env url e =
     (case encodeURIComponent env url of
        Inl e' \<Rightarrow> e' = e
      | Inr u \<Rightarrow>
          push_error env (''/tennis/results/'' @ ''tennis-'' @ uuidv4 env @ ''?videoUrl='' @ u)
            = Some e)"

text \<open>The three phases of the loop's progress message, in their order.\<close>

definition phase :: "string \<Rightarrow> nat" where
  "phase m =
     (if m = ''Extracting video frames...'' then 1
      else if m = ''Tracking player and ball...'' then 2
      else if m = ''Analyzing player performance...'' then 3
      else 0)"

text \<open>
  How the page shows the progress (lines 317 and 320): the width of the bar is the value
  itself, the label is \<^verbatim>\<open>Math.round\<close> of it, which rounds a half upwards.
\<close>

definition Math_round :: "rat \<Rightarrow> int" where
  "Math_round x = \<lfloor>x + 1 / 2\<rfloor>"

definition progressLabel :: "('f, 'p) World \<Rightarrow> int" where
  "progressLabel w = Math_round (progress w)"

section \<open>Example runs\<close>

text \<open>
  A video of one and a half seconds (three frames at two per second) whose frames are all
  captured and tracked; frames are numbers, and the analysis result is the number of
  frames collected.
\<close>

definition demoBoxes :: "BoundingBox list" where
  "demoBoxes = [\<lparr>label = ''player''\<rparr>, \<lparr>label = ''ball''\<rparr>]"

definition demoWorld :: "(nat, rat) World" where
  "demoWorld =
     \<lparr>videoUrl = Some ''blob:video'', fileName = Some ''rally.mp4'', isAnalyzing = False,
      progress = 0, error = None, analysisId = None, processingMessage = None,
      showBoundingBoxSelector = True, selectedBoxes = None,
      videoMetadata = Some \<lparr>width = 640, height = 360, duration = 3 / 2\<rparr>,
      showUploader = True, localStorage = (\<lambda>k. None), route = ''/tennis/player-analysis'',
      trace = []\<rparr>"

definition demoEnv :: "(nat, rat, nat) Env" where
  "demoEnv =
     \<lparr>uuidv4 = ''1b4e28ba'',
      initializeTennisTracker = (\<lambda>boxes w h. Inr (0, 1 / 50)),
      video_load = (\<lambda>url. Loadedmetadata (3 / 2)),
      seeked = (\<lambda>t. True),
      getContext2d = (\<lambda>t. True),
      toDataURL = (\<lambda>t. Inr ''data:image/jpeg;base64,''),
      trackFrame = (\<lambda>b i t prev p. Resolved (Suc prev)),
      generateAnalysisResult = (\<lambda>frames meta p. Inr (length frames)),
      JSON_stringify = (\<lambda>r. Inr (replicate r CHR ''I'')),
      setItem_error = (\<lambda>k v. None),
      encodeURIComponent = (\<lambda>u. Inr u),
      push_error = (\<lambda>u. None)\<rparr>"

text \<open>The tracker rejects the frame at index 1.\<close>

definition flakyEnv :: "(nat, rat, nat) Env" where
  "flakyEnv =
     demoEnv\<lparr>trackFrame :=
       (\<lambda>b i t prev p. if i = 1 then Rejected (JsError ''tracking failed'')
                        else Resolved (Suc prev))\<rparr>"

text \<open>The canvas has no 2d context when the frame at index 1 (half a second) is drawn.\<close>

definition noCanvasEnv :: "(nat, rat, nat) Env" where
  "noCanvasEnv = demoEnv\<lparr>getContext2d := (\<lambda>t. t \<noteq> 1 / 2)\<rparr>"

text \<open>\<^verbatim>\<open>initializeTennisTracker\<close> throws an error with the given message.\<close>

definition failingEnv :: "string \<Rightarrow> (nat, rat, nat) Env" where
  "failingEnv msg = demoEnv\<lparr>initializeTennisTracker := (\<lambda>boxes w h. Inl (JsError msg))\<rparr>"

text \<open>Local storage is full: \<^verbatim>\<open>setItem\<close> throws.\<close>

definition fullStorageEnv :: "(nat, rat, nat) Env" where
  "fullStorageEnv =
     demoEnv\<lparr>setItem_error := (\<lambda>k v. Some (JsError ''The quota has been exceeded.''))\<rparr>"

text \<open>The video URL cannot be encoded: \<^verbatim>\<open>encodeURIComponent\<close> throws.\<close>

definition badUrlEnv :: "(nat, rat, nat) Env" where
  "badUrlEnv = demoEnv\<lparr>encodeURIComponent := (\<lambda>u. Inl (JsError ''URI malformed''))\<rparr>"

text \<open>A video of two hundred seconds: four hundred frames.\<close>

definition longEnv :: "(nat, rat, nat) Env" where
  "longEnv = demoEnv\<lparr>video_load := (\<lambda>url. Loadedmetadata 200)\<rparr>"

text \<open>The results page before \<^verbatim>\<open>fetchAnalysis\<close> has run, and two local storages.\<close>

definition demoResultsPage :: ResultsPage where
  "demoResultsPage =
     \<lparr>analysis = JNull, tennisAnalysis = JNull, loading = True, error_r = None,
      requests = [], console_r = []\<rparr>"

definition demoResultsEnv :: ResultsEnv where
  "demoResultsEnv =
     \<lparr>JSON_parse = (\<lambda>s. if s = ''{}'' then Inr (JObj [])
                         else Inl (JsError ''Unexpected token'')),
      fetch = (\<lambda>url. Response False (Inr (JObj [(''error'', JStr ''Analysis not found'')]))),
      toISOString_now = ''2024-01-01T00:00:00.000Z'',
      typeError = JsError ''Cannot read properties of undefined'',
      String_of = (\<lambda>v. case v of JStr s \<Rightarrow> s | _ \<Rightarrow> ''[object Object]'')\<rparr>"

definition storedEntry :: "string \<Rightarrow> string option" where
  "storedEntry = (\<lambda>k. if k = ''analysis-tennis-1b4e28ba'' then Some ''{}'' else None)"

definition emptyEntry :: "string \<Rightarrow> string option" where
  "emptyEntry = (\<lambda>k. if k = ''analysis-tennis-1b4e28ba'' then Some [] else None)"

section \<open>Helper lemmas\<close>

lemma map_filter_app: "List.map_filter f (xs @ ys) = List.map_filter f xs @ List.map_filter f ys"
  by (simp add: List.map_filter_def)

lemmas proj_defs = messages_of_def seeks_of_def progress_of_def track_calls_of_def
  generate_calls_of_def frame_errors_of_def persistent_of_def analysis_errors_of_def

lemmas proj_simps = proj_defs map_filter_app

lemma proj_app:
  "messages_of (xs @ ys) = messages_of xs @ messages_of ys"
  "seeks_of (xs @ ys) = seeks_of xs @ seeks_of ys"
  "progress_of (xs @ ys) = progress_of xs @ progress_of ys"
  "track_calls_of (xs @ ys) = track_calls_of xs @ track_calls_of ys"
  "generate_calls_of (xs @ ys) = generate_calls_of xs @ generate_calls_of ys"
  "frame_errors_of (xs @ ys) = frame_errors_of xs @ frame_errors_of ys"
  "persistent_of (xs @ ys) = persistent_of xs @ persistent_of ys"
  "analysis_errors_of (xs @ ys) = analysis_errors_of xs @ analysis_errors_of ys"
  by (simp_all add: proj_defs map_filter_app)

lemma proj_Nil:
  "messages_of [] = []" "seeks_of [] = []" "progress_of [] = []" "track_calls_of [] = []"
  "generate_calls_of [] = []" "frame_errors_of [] = []" "persistent_of [] = []"
  "analysis_errors_of [] = []"
  by (simp_all add: proj_defs)

lemma proj_Cons:
  "messages_of (x # xs)
     = (case the_message x of None \<Rightarrow> messages_of xs | Some y \<Rightarrow> y # messages_of xs)"
  "seeks_of (x # xs) = (case the_seek x of None \<Rightarrow> seeks_of xs | Some y \<Rightarrow> y # seeks_of xs)"
  "progress_of (x # xs)
     = (case the_progress x of None \<Rightarrow> progress_of xs | Some y \<Rightarrow> y # progress_of xs)"
  "track_calls_of (x # xs)
     = (case the_track_call x of None \<Rightarrow> track_calls_of xs | Some y \<Rightarrow> y # track_calls_of xs)"
  "generate_calls_of (x # xs)
     = (case the_generate_call x of None \<Rightarrow> generate_calls_of xs
        | Some y \<Rightarrow> y # generate_calls_of xs)"
  "frame_errors_of (x # xs)
     = (case the_frame_error x of None \<Rightarrow> frame_errors_of xs | Some y \<Rightarrow> y # frame_errors_of xs)"
  "persistent_of (x # xs)
     = (case the_persistent x of None \<Rightarrow> persistent_of xs | Some y \<Rightarrow> y # persistent_of xs)"
  "analysis_errors_of (x # xs)
     = (case the_analysis_error x of None \<Rightarrow> analysis_errors_of xs
        | Some y \<Rightarrow> y # analysis_errors_of xs)"
  by (simp_all add: proj_defs map_filter_simps split: option.splits)

lemmas proj_list = proj_app proj_Nil proj_Cons

lemmas setter_defs = emit_def setSelectedBoxes_def setShowBoundingBoxSelector_def
  setIsAnalyzing_def setError_def setProgress_def setProcessingMessage_def setAnalysisId_def
  localStorage_setItem_def router_push_def

lemma events_since_app: "trace w' = trace w @ es \<Longrightarrow> events_since w w' = es"
  by (simp add: events_since_def)

lemma events_since_trans:
  "trace w1 = trace w @ events_since w w1 \<Longrightarrow> trace w2 = trace w1 @ events_since w1 w2
     \<Longrightarrow> trace w2 = trace w @ events_since w w2
         \<and> events_since w w2 = events_since w w1 @ events_since w1 w2"
  by (metis append.assoc events_since_app)

lemma returned_frames_app:
  "returned_frames env (xs @ ys) = returned_frames env xs @ returned_frames env ys"
  by (simp add: returned_frames_def map_filter_app)

lemma upto_step: "i < n \<Longrightarrow> [i..n - 1] = i # [i + 1..n - 1]"
  by (simp add: upto_rec1)

lemma processFrame_cases:
  assumes "processFrame env n p i (fs, w) = Some (fs', w')"
  shows "\<exists>es v. trace w' = trace w @ [Set_processingMessage (progressMessage n i), Video_seek (of_int i / 2)] @ es
     \<and> w' = w\<lparr>processingMessage := Some (progressMessage n i), progress := v, trace := trace w'\<rparr>
     \<and> ((\<exists>e. es = [Console_error_frame (of_int i / 2) e] \<and> \<not> captures env i \<and> fs' = fs \<and> v = progress w)
       \<or> (\<exists>b e. es = [Call_trackFrame (TrackCall b i (of_int i / 2) (last fs) p), Console_error_frame (of_int i / 2) e]
              \<and> captures env i \<and> toDataURL env (of_int i / 2) = Inr b
              \<and> trackFrame env b i (of_int i / 2) (last fs) p = Rejected e \<and> fs' = fs \<and> v = progress w)
       \<or> (\<exists>b f. es = [Call_trackFrame (TrackCall b i (of_int i / 2) (last fs) p), Set_progress (of_int i / of_int n * 100)]
              \<and> captures env i \<and> toDataURL env (of_int i / 2) = Inr b
              \<and> trackFrame env b i (of_int i / 2) (last fs) p = Resolved f \<and> fs' = fs @ [f] \<and> v = of_int i / of_int n * 100))"
  using assms
  by (auto simp: processFrame_def frameCatch_def captures_def Let_def setter_defs split: if_splits sum.splits promise.splits)

text \<open>What one iteration adds, read through each projection.\<close>

lemma processFrame_step:
  assumes "processFrame env n p i s = Some s1"
  shows "trace (snd s1) = trace (snd s) @ events_since (snd s) (snd s1)"
    and "messages_of (events_since (snd s) (snd s1)) = [progressMessage n i]"
    and "seeks_of (events_since (snd s) (snd s1)) = [of_int i / 2]"
    and "persistent_of (events_since (snd s) (snd s1)) = []"
    and "generate_calls_of (events_since (snd s) (snd s1)) = []"
    and "snd s1 = (snd s)\<lparr>processingMessage := processingMessage (snd s1),
                         progress := progress (snd s1), trace := trace (snd s1)\<rparr>"
proof -
  from assms have pf: "processFrame env n p i (fst s, snd s) = Some (fst s1, snd s1)" by simp
  from processFrame_cases[OF pf] obtain es v where
    tr: "trace (snd s1) = trace (snd s) @ [Set_processingMessage (progressMessage n i), Video_seek (of_int i / 2)] @ es"
    and w: "snd s1 = (snd s)\<lparr>processingMessage := Some (progressMessage n i), progress := v, trace := trace (snd s1)\<rparr>"
    and es: "(\<exists>e. es = [Console_error_frame (of_int i / 2) e])
       \<or> (\<exists>c e. es = [Call_trackFrame c, Console_error_frame (of_int i / 2) e])
       \<or> (\<exists>c x. es = [Call_trackFrame c, Set_progress x])"
    by blast
  have ev: "events_since (snd s) (snd s1) = [Set_processingMessage (progressMessage n i), Video_seek (of_int i / 2)] @ es"
    by (rule events_since_app[OF tr])
  show "trace (snd s1) = trace (snd s) @ events_since (snd s) (snd s1)" using tr ev by simp
  show "messages_of (events_since (snd s) (snd s1)) = [progressMessage n i]"
    using es by (auto simp: ev proj_simps)
  show "seeks_of (events_since (snd s) (snd s1)) = [of_int i / 2]"
    using es by (auto simp: ev proj_simps)
  show "persistent_of (events_since (snd s) (snd s1)) = []"
    using es by (auto simp: ev proj_simps)
  show "generate_calls_of (events_since (snd s) (snd s1)) = []"
    using es by (auto simp: ev proj_simps)
  have "processingMessage (snd s1) = Some (progressMessage n i)" "progress (snd s1) = v"
    by (subst w, simp)+
  with w show "snd s1 = (snd s)\<lparr>processingMessage := processingMessage (snd s1),
                         progress := progress (snd s1), trace := trace (snd s1)\<rparr>" by simp
qed

lemma processFrame_step_calls:
  assumes "processFrame env n p i s = Some s1"
  shows "track_calls_of (events_since (snd s) (snd s1))
           = (if captures env i
              then [TrackCall (case toDataURL env (of_int i / 2) of Inr b \<Rightarrow> b | Inl e \<Rightarrow> [])
                      i (of_int i / 2) (last (fst s)) p] else [])"
    and "fst s1 = fst s @ returned_frames env (track_calls_of (events_since (snd s) (snd s1)))"
    and "length (frame_errors_of (events_since (snd s) (snd s1)))
           + length (returned_frames env (track_calls_of (events_since (snd s) (snd s1)))) = 1"
    and "progress_of (events_since (snd s) (snd s1))
           = map (\<lambda>f. of_int i / of_int n * 100)
               (returned_frames env (track_calls_of (events_since (snd s) (snd s1))))"
    and "progress (snd s1)
           = (if returned_frames env (track_calls_of (events_since (snd s) (snd s1))) = []
              then progress (snd s) else of_int i / of_int n * 100)"
proof -
  from assms have pf: "processFrame env n p i (fst s, snd s) = Some (fst s1, snd s1)" by simp
  from processFrame_cases[OF pf] obtain es v where
    tr: "trace (snd s1) = trace (snd s) @ [Set_processingMessage (progressMessage n i), Video_seek (of_int i / 2)] @ es"
    and w: "snd s1 = (snd s)\<lparr>processingMessage := Some (progressMessage n i), progress := v, trace := trace (snd s1)\<rparr>"
    and es: "(\<exists>e. es = [Console_error_frame (of_int i / 2) e] \<and> \<not> captures env i \<and> fst s1 = fst s \<and> v = progress (snd s))
       \<or> (\<exists>b e. es = [Call_trackFrame (TrackCall b i (of_int i / 2) (last (fst s)) p), Console_error_frame (of_int i / 2) e]
              \<and> captures env i \<and> toDataURL env (of_int i / 2) = Inr b
              \<and> trackFrame env b i (of_int i / 2) (last (fst s)) p = Rejected e \<and> fst s1 = fst s \<and> v = progress (snd s))
       \<or> (\<exists>b f. es = [Call_trackFrame (TrackCall b i (of_int i / 2) (last (fst s)) p), Set_progress (of_int i / of_int n * 100)]
              \<and> captures env i \<and> toDataURL env (of_int i / 2) = Inr b
              \<and> trackFrame env b i (of_int i / 2) (last (fst s)) p = Resolved f \<and> fst s1 = fst s @ [f] \<and> v = of_int i / of_int n * 100)"
    by blast
  have ev: "events_since (snd s) (snd s1) = [Set_processingMessage (progressMessage n i), Video_seek (of_int i / 2)] @ es"
    by (rule events_since_app[OF tr])
  have pv: "progress (snd s1) = v" by (subst w, simp)
  note simps = ev pv proj_simps returned_frames_def answer_def
  from es show "track_calls_of (events_since (snd s) (snd s1))
           = (if captures env i
              then [TrackCall (case toDataURL env (of_int i / 2) of Inr b \<Rightarrow> b | Inl e \<Rightarrow> [])
                      i (of_int i / 2) (last (fst s)) p] else [])"
    by (elim disjE exE conjE) (simp_all add: simps)
  from es show "fst s1 = fst s @ returned_frames env (track_calls_of (events_since (snd s) (snd s1)))"
    by (elim disjE exE conjE) (simp_all add: simps)
  from es show "length (frame_errors_of (events_since (snd s) (snd s1)))
           + length (returned_frames env (track_calls_of (events_since (snd s) (snd s1)))) = 1"
    by (elim disjE exE conjE) (simp_all add: simps)
  from es show "progress_of (events_since (snd s) (snd s1))
           = map (\<lambda>f. of_int i / of_int n * 100)
               (returned_frames env (track_calls_of (events_since (snd s) (snd s1))))"
    by (elim disjE exE conjE) (simp_all add: simps)
  from es show "progress (snd s1)
           = (if returned_frames env (track_calls_of (events_since (snd s) (snd s1))) = []
              then progress (snd s) else of_int i / of_int n * 100)"
    by (elim disjE exE conjE) (simp_all add: simps)
qed

lemma frameLoop_rule:
  assumes run: "frameLoop env n p i st = Some st'"
      and base: "\<And>k s. \<not> k < n \<Longrightarrow> Q k s s"
      and step: "\<And>k s s1 s2. k < n \<Longrightarrow> processFrame env n p k s = Some s1 \<Longrightarrow>
                   frameLoop env n p (k + 1) s1 = Some s2 \<Longrightarrow> Q (k + 1) s1 s2 \<Longrightarrow> Q k s s2"
  shows "Q i st st'"
  using assms
proof (induction env n p i st rule: frameLoop.induct)
  case (1 env n p i st)
  show ?case
  proof (cases "i < n")
    case True
    with "1.prems"(1) obtain s1 where s1: "processFrame env n p i st = Some s1"
      and s2: "frameLoop env n p (i + 1) s1 = Some st'"
      by (auto simp: frameLoop.simps[of env n p i st] split: option.splits)
    have "Q (i + 1) s1 st'"
      by (rule "1.IH"[OF True s1 s2 "1.prems"(2,3)])
    with True s1 s2 show ?thesis by (rule "1.prems"(3))
  next
    case False
    with "1.prems"(1) have "st' = st" by (simp add: frameLoop.simps[of env n p i st])
    with False show ?thesis by (simp add: "1.prems"(2))
  qed
qed

lemma events_since_self: "events_since w w = []"
  by (simp add: events_since_def)

lemma frameLoop_trace:
  assumes "frameLoop env n p i st = Some st'"
  shows "trace (snd st') = trace (snd st) @ events_since (snd st) (snd st')"
  using assms
proof (rule frameLoop_rule)
  fix k and s :: "'a list \<times> ('a, 'b) World"
  show "trace (snd s) = trace (snd s) @ events_since (snd s) (snd s)"
    by (simp add: events_since_self)
next
  fix k and s s1 s2 :: "'a list \<times> ('a, 'b) World"
  assume pf: "processFrame env n p k s = Some s1"
    and ih: "trace (snd s2) = trace (snd s1) @ events_since (snd s1) (snd s2)"
  show "trace (snd s2) = trace (snd s) @ events_since (snd s) (snd s2)"
    using events_since_trans[OF processFrame_step(1)[OF pf] ih] by simp
qed

lemma loop_split:
  assumes "processFrame env n p k s = Some s1" and "frameLoop env n p (k + 1) s1 = Some s2"
  shows "events_since (snd s) (snd s2)
           = events_since (snd s) (snd s1) @ events_since (snd s1) (snd s2)"
  using events_since_trans[OF processFrame_step(1)[OF assms(1)] frameLoop_trace[OF assms(2)]]
  by simp

lemma frameLoop_messages:
  assumes "frameLoop env n p i st = Some st'"
  shows "messages_of (events_since (snd st) (snd st')) = map (progressMessage n) [i..n - 1]"
  using assms
proof (rule frameLoop_rule)
  fix k :: int and s :: "'a list \<times> ('a, 'b) World"
  assume "\<not> k < n"
  then show "messages_of (events_since (snd s) (snd s)) = map (progressMessage n) [k..n - 1]"
    by (simp add: events_since_self messages_of_def)
next
  fix k and s s1 s2 :: "'a list \<times> ('a, 'b) World"
  assume k: "k < n" and pf: "processFrame env n p k s = Some s1"
    and fl: "frameLoop env n p (k + 1) s1 = Some s2"
    and ih: "messages_of (events_since (snd s1) (snd s2)) = map (progressMessage n) [k + 1..n - 1]"
  have "messages_of (events_since (snd s) (snd s2))
          = messages_of (events_since (snd s) (snd s1)) @ messages_of (events_since (snd s1) (snd s2))"
    by (simp add: loop_split[OF pf fl] messages_of_def map_filter_app)
  then show "messages_of (events_since (snd s) (snd s2)) = map (progressMessage n) [k..n - 1]"
    by (simp add: processFrame_step(2)[OF pf] ih upto_step[OF k])
qed

lemma frameLoop_seeks:
  assumes "frameLoop env n p i st = Some st'"
  shows "seeks_of (events_since (snd st) (snd st')) = map (\<lambda>k. of_int k / 2) [i..n - 1]"
  using assms
proof (rule frameLoop_rule)
  fix k :: int and s :: "'a list \<times> ('a, 'b) World"
  assume "\<not> k < n"
  then show "seeks_of (events_since (snd s) (snd s)) = map (\<lambda>k. of_int k / 2) [k..n - 1]"
    by (simp add: events_since_self seeks_of_def)
next
  fix k and s s1 s2 :: "'a list \<times> ('a, 'b) World"
  assume k: "k < n" and pf: "processFrame env n p k s = Some s1"
    and fl: "frameLoop env n p (k + 1) s1 = Some s2"
    and ih: "seeks_of (events_since (snd s1) (snd s2)) = map (\<lambda>k. of_int k / 2) [k + 1..n - 1]"
  have "seeks_of (events_since (snd s) (snd s2))
          = seeks_of (events_since (snd s) (snd s1)) @ seeks_of (events_since (snd s1) (snd s2))"
    by (simp add: loop_split[OF pf fl] seeks_of_def map_filter_app)
  then show "seeks_of (events_since (snd s) (snd s2)) = map (\<lambda>k. of_int k / 2) [k..n - 1]"
    by (simp add: processFrame_step(3)[OF pf] ih upto_step[OF k])
qed

lemma frameLoop_quiet:
  assumes "frameLoop env n p i st = Some st'"
  shows "persistent_of (events_since (snd st) (snd st')) = []
       \<and> generate_calls_of (events_since (snd st) (snd st')) = []"
  using assms
proof (rule frameLoop_rule)
  fix k :: int and s :: "'a list \<times> ('a, 'b) World"
  show "persistent_of (events_since (snd s) (snd s)) = []
       \<and> generate_calls_of (events_since (snd s) (snd s)) = []"
    by (simp add: events_since_self persistent_of_def generate_calls_of_def)
next
  fix k and s s1 s2 :: "'a list \<times> ('a, 'b) World"
  assume pf: "processFrame env n p k s = Some s1"
    and fl: "frameLoop env n p (k + 1) s1 = Some s2"
    and ih: "persistent_of (events_since (snd s1) (snd s2)) = []
       \<and> generate_calls_of (events_since (snd s1) (snd s2)) = []"
  have "persistent_of (events_since (snd s) (snd s2))
          = persistent_of (events_since (snd s) (snd s1)) @ persistent_of (events_since (snd s1) (snd s2))"
       "generate_calls_of (events_since (snd s) (snd s2))
          = generate_calls_of (events_since (snd s) (snd s1)) @ generate_calls_of (events_since (snd s1) (snd s2))"
    by (simp_all add: loop_split[OF pf fl] persistent_of_def generate_calls_of_def map_filter_app)
  then show "persistent_of (events_since (snd s) (snd s2)) = []
       \<and> generate_calls_of (events_since (snd s) (snd s2)) = []"
    by (simp add: processFrame_step(4,5)[OF pf] ih)
qed

lemma frameLoop_fields:
  assumes "frameLoop env n p i st = Some st'"
  shows "snd st' = (snd st)\<lparr>processingMessage := processingMessage (snd st'),
                            progress := progress (snd st'), trace := trace (snd st')\<rparr>"
  using assms
proof (rule frameLoop_rule)
  fix k :: int and s :: "'a list \<times> ('a, 'b) World"
  show "snd s = (snd s)\<lparr>processingMessage := processingMessage (snd s),
                            progress := progress (snd s), trace := trace (snd s)\<rparr>"
    by simp
next
  fix k and s s1 s2 :: "'a list \<times> ('a, 'b) World"
  assume pf: "processFrame env n p k s = Some s1"
    and ih: "snd s2 = (snd s1)\<lparr>processingMessage := processingMessage (snd s2),
                            progress := progress (snd s2), trace := trace (snd s2)\<rparr>"
  show "snd s2 = (snd s)\<lparr>processingMessage := processingMessage (snd s2),
                            progress := progress (snd s2), trace := trace (snd s2)\<rparr>"
    by (subst ih, subst processFrame_step(6)[OF pf], simp)
qed


lemma calls_split:
  assumes "processFrame env n p k s = Some s1" and "frameLoop env n p (k + 1) s1 = Some s2"
  shows "track_calls_of (events_since (snd s) (snd s2))
           = track_calls_of (events_since (snd s) (snd s1))
             @ track_calls_of (events_since (snd s1) (snd s2))"
  by (simp add: loop_split[OF assms] track_calls_of_def map_filter_app)

lemma frameLoop_frames:
  assumes "frameLoop env n p i st = Some st'"
  shows "fst st' = fst st @ returned_frames env (track_calls_of (events_since (snd st) (snd st')))
       \<and> map argFrameIndex (track_calls_of (events_since (snd st) (snd st')))
           = filter (captures env) [i..n - 1]"
  using assms
proof (rule frameLoop_rule)
  fix k :: int and s :: "'a list \<times> ('a, 'b) World"
  assume "\<not> k < n"
  then show "fst s = fst s @ returned_frames env (track_calls_of (events_since (snd s) (snd s)))
       \<and> map argFrameIndex (track_calls_of (events_since (snd s) (snd s)))
           = filter (captures env) [k..n - 1]"
    by (simp add: events_since_self track_calls_of_def returned_frames_def)
next
  fix k and s s1 s2 :: "'a list \<times> ('a, 'b) World"
  assume k: "k < n" and pf: "processFrame env n p k s = Some s1"
    and fl: "frameLoop env n p (k + 1) s1 = Some s2"
    and ih: "fst s2 = fst s1 @ returned_frames env (track_calls_of (events_since (snd s1) (snd s2)))
       \<and> map argFrameIndex (track_calls_of (events_since (snd s1) (snd s2)))
           = filter (captures env) [k + 1..n - 1]"
  note c1 = processFrame_step_calls(1)[OF pf]
  note f1 = processFrame_step_calls(2)[OF pf]
  show "fst s2 = fst s @ returned_frames env (track_calls_of (events_since (snd s) (snd s2)))
       \<and> map argFrameIndex (track_calls_of (events_since (snd s) (snd s2)))
           = filter (captures env) [k..n - 1]"
  proof
    show "fst s2 = fst s @ returned_frames env (track_calls_of (events_since (snd s) (snd s2)))"
      using ih f1 by (simp add: calls_split[OF pf fl] returned_frames_app)
    show "map argFrameIndex (track_calls_of (events_since (snd s) (snd s2)))
           = filter (captures env) [k..n - 1]"
      using ih by (simp add: calls_split[OF pf fl] c1 upto_step[OF k])
  qed
qed

lemma frameLoop_args:
  assumes "frameLoop env n p i st = Some st'"
  shows "\<forall>c \<in> set (track_calls_of (events_since (snd st) (snd st'))).
           argTimestamp c = of_int (argFrameIndex c) / 2 \<and> argPixelsToMeters c = p
           \<and> toDataURL env (argTimestamp c) = Inr (argFrameBase64 c)"
  using assms
proof (rule frameLoop_rule)
  fix k :: int and s :: "'a list \<times> ('a, 'b) World"
  show "\<forall>c \<in> set (track_calls_of (events_since (snd s) (snd s))).
           argTimestamp c = of_int (argFrameIndex c) / 2 \<and> argPixelsToMeters c = p
           \<and> toDataURL env (argTimestamp c) = Inr (argFrameBase64 c)"
    by (simp add: events_since_self track_calls_of_def)
next
  fix k and s s1 s2 :: "'a list \<times> ('a, 'b) World"
  assume pf: "processFrame env n p k s = Some s1"
    and fl: "frameLoop env n p (k + 1) s1 = Some s2"
    and ih: "\<forall>c \<in> set (track_calls_of (events_since (snd s1) (snd s2))).
           argTimestamp c = of_int (argFrameIndex c) / 2 \<and> argPixelsToMeters c = p
           \<and> toDataURL env (argTimestamp c) = Inr (argFrameBase64 c)"
  note c1 = processFrame_step_calls(1)[OF pf]
  show "\<forall>c \<in> set (track_calls_of (events_since (snd s) (snd s2))).
           argTimestamp c = of_int (argFrameIndex c) / 2 \<and> argPixelsToMeters c = p
           \<and> toDataURL env (argTimestamp c) = Inr (argFrameBase64 c)"
    using ih by (auto simp: calls_split[OF pf fl] c1 captures_def split: sum.splits)
qed

lemma frameLoop_previous:
  assumes "frameLoop env n p i st = Some st'"
  shows "\<forall>j < length (track_calls_of (events_since (snd st) (snd st'))).
           argPreviousFrame (track_calls_of (events_since (snd st) (snd st')) ! j)
             = last (fst st @ returned_frames env
                       (take j (track_calls_of (events_since (snd st) (snd st')))))"
  using assms
proof (rule frameLoop_rule)
  fix k :: int and s :: "'a list \<times> ('a, 'b) World"
  show "\<forall>j < length (track_calls_of (events_since (snd s) (snd s))).
           argPreviousFrame (track_calls_of (events_since (snd s) (snd s)) ! j)
             = last (fst s @ returned_frames env
                       (take j (track_calls_of (events_since (snd s) (snd s)))))"
    by (simp add: events_since_self track_calls_of_def)
next
  fix k and s s1 s2 :: "'a list \<times> ('a, 'b) World"
  assume pf: "processFrame env n p k s = Some s1"
    and fl: "frameLoop env n p (k + 1) s1 = Some s2"
    and ih: "\<forall>j < length (track_calls_of (events_since (snd s1) (snd s2))).
           argPreviousFrame (track_calls_of (events_since (snd s1) (snd s2)) ! j)
             = last (fst s1 @ returned_frames env
                       (take j (track_calls_of (events_since (snd s1) (snd s2)))))"
  define cs1 where "cs1 = track_calls_of (events_since (snd s) (snd s1))"
  define cs2 where "cs2 = track_calls_of (events_since (snd s1) (snd s2))"
  have c1: "cs1 = [] \<or> (\<exists>b. cs1 = [TrackCall b k (of_int k / 2) (last (fst s)) p])"
    using processFrame_step_calls(1)[OF pf] by (simp add: cs1_def)
  have f1: "fst s1 = fst s @ returned_frames env cs1"
    using processFrame_step_calls(2)[OF pf] by (simp add: cs1_def)
  have cs: "track_calls_of (events_since (snd s) (snd s2)) = cs1 @ cs2"
    by (simp add: calls_split[OF pf fl] cs1_def cs2_def)
  have ih': "\<And>j. j < length cs2 \<Longrightarrow>
               argPreviousFrame (cs2 ! j) = last (fst s @ returned_frames env (cs1 @ take j cs2))"
    using ih f1 by (simp add: cs2_def returned_frames_app)
  have "\<forall>j < length (cs1 @ cs2).
          argPreviousFrame ((cs1 @ cs2) ! j) = last (fst s @ returned_frames env (take j (cs1 @ cs2)))"
  proof (intro allI impI)
    fix j assume j: "j < length (cs1 @ cs2)"
    from c1 show "argPreviousFrame ((cs1 @ cs2) ! j)
                    = last (fst s @ returned_frames env (take j (cs1 @ cs2)))"
    proof
      assume "cs1 = []"
      with j ih' show ?thesis by simp
    next
      assume "\<exists>b. cs1 = [TrackCall b k (of_int k / 2) (last (fst s)) p]"
      then obtain b where b: "cs1 = [TrackCall b k (of_int k / 2) (last (fst s)) p]" ..
      show ?thesis
      proof (cases j)
        case 0
        then show ?thesis by (simp add: b returned_frames_def)
      next
        case (Suc j')
        with j b have "j' < length cs2" by simp
        from ih'[OF this] show ?thesis by (simp add: Suc b)
      qed
    qed
  qed
  then show "\<forall>j < length (track_calls_of (events_since (snd s) (snd s2))).
           argPreviousFrame (track_calls_of (events_since (snd s) (snd s2)) ! j)
             = last (fst s @ returned_frames env
                       (take j (track_calls_of (events_since (snd s) (snd s2)))))"
    by (simp only: cs)
qed

lemma frameLoop_count:
  assumes "frameLoop env n p i st = Some st'"
  shows "length (frame_errors_of (events_since (snd st) (snd st')))
           + length (returned_frames env (track_calls_of (events_since (snd st) (snd st'))))
         = length [i..n - 1]"
  using assms
proof (rule frameLoop_rule)
  fix k :: int and s :: "'a list \<times> ('a, 'b) World"
  assume "\<not> k < n"
  then show "length (frame_errors_of (events_since (snd s) (snd s)))
           + length (returned_frames env (track_calls_of (events_since (snd s) (snd s))))
         = length [k..n - 1]"
    by (simp add: events_since_self track_calls_of_def frame_errors_of_def returned_frames_def)
next
  fix k and s s1 s2 :: "'a list \<times> ('a, 'b) World"
  assume k: "k < n" and pf: "processFrame env n p k s = Some s1"
    and fl: "frameLoop env n p (k + 1) s1 = Some s2"
    and ih: "length (frame_errors_of (events_since (snd s1) (snd s2)))
           + length (returned_frames env (track_calls_of (events_since (snd s1) (snd s2))))
         = length [k + 1..n - 1]"
  note one = processFrame_step_calls(3)[OF pf]
  have "frame_errors_of (events_since (snd s) (snd s2))
          = frame_errors_of (events_since (snd s) (snd s1))
            @ frame_errors_of (events_since (snd s1) (snd s2))"
    by (simp add: loop_split[OF pf fl] frame_errors_of_def map_filter_app)
  then show "length (frame_errors_of (events_since (snd s) (snd s2)))
           + length (returned_frames env (track_calls_of (events_since (snd s) (snd s2))))
         = length [k..n - 1]"
    using one ih by (simp add: calls_split[OF pf fl] returned_frames_app upto_step[OF k])
qed

lemma frameLoop_progress:
  assumes "frameLoop env n p i st = Some st'"
  shows "\<exists>ks. progress_of (events_since (snd st) (snd st'))
                = map (\<lambda>k. of_int k / of_int n * 100) ks
             \<and> set ks \<subseteq> {i..n - 1}
             \<and> progress (snd st') = last (progress (snd st) # map (\<lambda>k. of_int k / of_int n * 100) ks)"
  using assms
proof (rule frameLoop_rule)
  fix k :: int and s :: "'a list \<times> ('a, 'b) World"
  have "progress_of (events_since (snd s) (snd s)) = map (\<lambda>k. of_int k / of_int n * 100) []
             \<and> set ([] :: int list) \<subseteq> {k..n - 1}
             \<and> progress (snd s) = last (progress (snd s) # map (\<lambda>k. of_int k / of_int n * 100) [])"
    by (simp add: events_since_self progress_of_def)
  then show "\<exists>ks. progress_of (events_since (snd s) (snd s))
                = map (\<lambda>k. of_int k / of_int n * 100) ks
             \<and> set ks \<subseteq> {k..n - 1}
             \<and> progress (snd s) = last (progress (snd s) # map (\<lambda>k. of_int k / of_int n * 100) ks)"
    by (rule exI)
next
  fix k and s s1 s2 :: "'a list \<times> ('a, 'b) World"
  assume k: "k < n" and pf: "processFrame env n p k s = Some s1"
    and fl: "frameLoop env n p (k + 1) s1 = Some s2"
    and ih: "\<exists>ks. progress_of (events_since (snd s1) (snd s2))
                = map (\<lambda>k. of_int k / of_int n * 100) ks
             \<and> set ks \<subseteq> {k + 1..n - 1}
             \<and> progress (snd s2) = last (progress (snd s1) # map (\<lambda>k. of_int k / of_int n * 100) ks)"
  from ih obtain ks2 where p2: "progress_of (events_since (snd s1) (snd s2))
                = map (\<lambda>k. of_int k / of_int n * 100) ks2"
    and s2: "set ks2 \<subseteq> {k + 1..n - 1}"
    and l2: "progress (snd s2) = last (progress (snd s1) # map (\<lambda>k. of_int k / of_int n * 100) ks2)"
    by auto
  define ks1 where "ks1 = map (\<lambda>f. k)
     (returned_frames env (track_calls_of (events_since (snd s) (snd s1))))"
  have one: "length ks1 \<le> 1"
    using processFrame_step_calls(3)[OF pf] by (simp add: ks1_def)
  have p1: "progress_of (events_since (snd s) (snd s1)) = map (\<lambda>k. of_int k / of_int n * 100) ks1"
    using processFrame_step_calls(4)[OF pf] by (simp add: ks1_def comp_def)
  have l1: "progress (snd s1) = last (progress (snd s) # map (\<lambda>k. of_int k / of_int n * 100) ks1)"
    using processFrame_step_calls(5)[OF pf] one
    by (cases "returned_frames env (track_calls_of (events_since (snd s) (snd s1)))")
       (simp_all add: ks1_def)
  have s1: "set ks1 \<subseteq> {k..n - 1}" using k by (auto simp: ks1_def)
  have pp: "progress_of (events_since (snd s) (snd s2))
              = map (\<lambda>k. of_int k / of_int n * 100) (ks1 @ ks2)"
    by (simp add: loop_split[OF pf fl] progress_of_def map_filter_app p1[unfolded progress_of_def]
          p2[unfolded progress_of_def])
  have ss: "set (ks1 @ ks2) \<subseteq> {k..n - 1}" using s1 s2 by auto
  have ll: "progress (snd s2) = last (progress (snd s) # map (\<lambda>k. of_int k / of_int n * 100) (ks1 @ ks2))"
    using l1 l2 by (cases "ks2 = []") (simp_all add: last_append)
  from pp ss ll show "\<exists>ks. progress_of (events_since (snd s) (snd s2))
                = map (\<lambda>k. of_int k / of_int n * 100) ks
             \<and> set ks \<subseteq> {k..n - 1}
             \<and> progress (snd s2) = last (progress (snd s) # map (\<lambda>k. of_int k / of_int n * 100) ks)"
    by (intro exI[of _ "ks1 @ ks2"] conjI)
qed

lemma processFrame_outcome:
  assumes "processFrame env n p k s = Some s1"
  shows "(\<exists>f. frameOutcome env p k (fst s) = Resolved f \<and> fst s1 = fst s @ [f]
              \<and> frame_errors_of (events_since (snd s) (snd s1)) = [])
       \<or> (\<exists>e. frameOutcome env p k (fst s) = Rejected e \<and> fst s1 = fst s
              \<and> frame_errors_of (events_since (snd s) (snd s1)) = [(of_int k / 2, e)])"
proof -
  from assms have pf: "processFrame env n p k (fst s, snd s) = Some (fst s1, snd s1)" by simp
  then show ?thesis
    by (auto simp: processFrame_def frameCatch_def frameOutcome_def Let_def setter_defs
          events_since_def proj_list split: if_splits sum.splits promise.splits)
qed

lemma frameLoop_skip:
  assumes "frameLoop env n p i st = Some st'"
  shows "(frame_errors_of (events_since (snd st) (snd st')), fst st')
           = skipFailed env p [i..n - 1] (fst st)"
  using assms
proof (rule frameLoop_rule)
  fix k :: int and s :: "'a list \<times> ('a, 'b) World"
  assume "\<not> k < n"
  then show "(frame_errors_of (events_since (snd s) (snd s)), fst s)
           = skipFailed env p [k..n - 1] (fst s)"
    by (simp add: events_since_self proj_list)
next
  fix k and s s1 s2 :: "'a list \<times> ('a, 'b) World"
  assume k: "k < n" and pf: "processFrame env n p k s = Some s1"
    and fl: "frameLoop env n p (k + 1) s1 = Some s2"
    and ih: "(frame_errors_of (events_since (snd s1) (snd s2)), fst s2)
           = skipFailed env p [k + 1..n - 1] (fst s1)"
  have sp: "frame_errors_of (events_since (snd s) (snd s2))
          = frame_errors_of (events_since (snd s) (snd s1))
            @ frame_errors_of (events_since (snd s1) (snd s2))"
    by (simp add: loop_split[OF pf fl] proj_list)
  from processFrame_outcome[OF pf]
  show "(frame_errors_of (events_since (snd s) (snd s2)), fst s2)
           = skipFailed env p [k..n - 1] (fst s)"
  proof (elim disjE exE conjE)
    fix f assume o: "frameOutcome env p k (fst s) = Resolved f" and f: "fst s1 = fst s @ [f]"
      and e: "frame_errors_of (events_since (snd s) (snd s1)) = []"
    show ?thesis using ih by (simp add: upto_step[OF k] o f[symmetric] sp e)
  next
    fix x assume o: "frameOutcome env p k (fst s) = Rejected x" and f: "fst s1 = fst s"
      and e: "frame_errors_of (events_since (snd s) (snd s1)) = [(of_int k / 2, x)]"
    show ?thesis using ih[symmetric] by (simp add: upto_step[OF k] o f sp e)
  qed
qed

lemma returned_const:
  "map (\<lambda>f. v) (returned_frames env cs) = map (\<lambda>c. v) (filter (resolves env) cs)"
  by (induction cs)
     (simp_all add: returned_frames_def resolves_def map_filter_simps
        split: option.splits promise.splits)

lemma frameLoop_progress_exact:
  assumes "frameLoop env n p i st = Some st'"
  shows "progress_of (events_since (snd st) (snd st'))
           = map (\<lambda>c. rat_of_int (argFrameIndex c) / rat_of_int n * 100)
               (filter (resolves env) (track_calls_of (events_since (snd st) (snd st'))))"
  using assms
proof (rule frameLoop_rule)
  fix k :: int and s :: "'a list \<times> ('a, 'b) World"
  show "progress_of (events_since (snd s) (snd s))
           = map (\<lambda>c. rat_of_int (argFrameIndex c) / rat_of_int n * 100)
               (filter (resolves env) (track_calls_of (events_since (snd s) (snd s))))"
    by (simp add: events_since_self proj_list)
next
  fix k and s s1 s2 :: "'a list \<times> ('a, 'b) World"
  assume pf: "processFrame env n p k s = Some s1"
    and fl: "frameLoop env n p (k + 1) s1 = Some s2"
    and ih: "progress_of (events_since (snd s1) (snd s2))
           = map (\<lambda>c. rat_of_int (argFrameIndex c) / rat_of_int n * 100)
               (filter (resolves env) (track_calls_of (events_since (snd s1) (snd s2))))"
  have idx: "\<forall>c \<in> set (track_calls_of (events_since (snd s) (snd s1))). argFrameIndex c = k"
    by (simp add: processFrame_step_calls(1)[OF pf])
  have 1: "progress_of (events_since (snd s) (snd s1))
           = map (\<lambda>c. rat_of_int (argFrameIndex c) / rat_of_int n * 100)
               (filter (resolves env) (track_calls_of (events_since (snd s) (snd s1))))"
    unfolding processFrame_step_calls(4)[OF pf] returned_const
    by (rule map_cong[OF refl]) (simp add: idx)
  show "progress_of (events_since (snd s) (snd s2))
           = map (\<lambda>c. rat_of_int (argFrameIndex c) / rat_of_int n * 100)
               (filter (resolves env) (track_calls_of (events_since (snd s) (snd s2))))"
    by (simp add: loop_split[OF pf fl] proj_list 1 ih)
qed

lemma frameLoop_progress_last:
  assumes "frameLoop env n p i st = Some st'"
  shows "progress (snd st')
           = last (progress (snd st) # progress_of (events_since (snd st) (snd st')))"
  using frameLoop_progress[OF assms] by auto

lemma start_guard:
  assumes "videoUrl w = None \<or> videoUrl w = Some [] \<or> videoMetadata w = None"
  shows "startTennisAnalysis env w boxes
           = Some (setError (Some ''Video not properly loaded. Please try again.'')
                     (emit (Call_startTennisAnalysis boxes) w))"
  using assms
  by (auto simp: startTennisAnalysis_def emit_def Let_def split: option.splits)

lemma start_unfold:
  assumes "videoUrl w = Some url" and "url \<noteq> []" and "videoMetadata w = Some md"
  shows "startTennisAnalysis env w boxes
           = (case analysisBody env boxes url md (''tennis-'' @ uuidv4 env)
                     (analysisStarted env boxes w) of
                None \<Rightarrow> None
              | Some (Inr w') \<Rightarrow> Some w'
              | Some (Inl (e, w')) \<Rightarrow> Some (analysisCatch e w'))"
  using assms
  by (simp add: startTennisAnalysis_def analysisStarted_def emit_def Let_def)

lemma storeAndNavigate_cases:
  assumes "storeAndNavigate env url aid ar w = r"
  obtains
    (stringify_throws) e where
      "JSON_stringify env ar = Inl e" "r = Inl (e, w)"
  | (setItem_throws) s e where
      "JSON_stringify env ar = Inr s" "setItem_error env (''analysis-'' @ aid) s = Some e"
      "r = Inl (e, w)"
  | (encode_throws) s e where
      "JSON_stringify env ar = Inr s" "setItem_error env (''analysis-'' @ aid) s = None"
      "encodeURIComponent env url = Inl e"
      "r = Inl (e, (emit (LocalStorage_setItem (''analysis-'' @ aid) s) (w\<lparr>localStorage := (localStorage w)(''analysis-'' @ aid \<mapsto> s)\<rparr>)))"
  | (push_throws) s u e where
      "JSON_stringify env ar = Inr s" "setItem_error env (''analysis-'' @ aid) s = None"
      "encodeURIComponent env url = Inr u"
      "push_error env (''/tennis/results/'' @ aid @ ''?videoUrl='' @ u) = Some e"
      "r = Inl (e, (emit (LocalStorage_setItem (''analysis-'' @ aid) s) (w\<lparr>localStorage := (localStorage w)(''analysis-'' @ aid \<mapsto> s)\<rparr>)))"
  | (navigated) s u where
      "JSON_stringify env ar = Inr s" "setItem_error env (''analysis-'' @ aid) s = None"
      "encodeURIComponent env url = Inr u"
      "push_error env (''/tennis/results/'' @ aid @ ''?videoUrl='' @ u) = None"
      "r = Inr (emit (Router_push (''/tennis/results/'' @ aid @ ''?videoUrl='' @ u)) ((emit (LocalStorage_setItem (''analysis-'' @ aid) s) (w\<lparr>localStorage := (localStorage w)(''analysis-'' @ aid \<mapsto> s)\<rparr>))\<lparr>route := (''/tennis/results/'' @ aid @ ''?videoUrl='' @ u)\<rparr>))"
proof (cases "JSON_stringify env ar")
  case (Inl e)
  with assms have "r = Inl (e, w)" by (simp add: storeAndNavigate_def)
  with Inl show ?thesis by (rule stringify_throws)
next
  case (Inr s)
  note str = Inr
  show ?thesis
  proof (cases "setItem_error env (''analysis-'' @ aid) s")
    case (Some e)
    with assms str have "r = Inl (e, w)"
      by (simp add: storeAndNavigate_def localStorage_setItem_def)
    with str Some show ?thesis by (rule setItem_throws)
  next
    case None
    note wr = None
    show ?thesis
    proof (cases "encodeURIComponent env url")
      case (Inl e)
      with assms str wr have "r = Inl (e, (emit (LocalStorage_setItem (''analysis-'' @ aid) s) (w\<lparr>localStorage := (localStorage w)(''analysis-'' @ aid \<mapsto> s)\<rparr>)))"
        by (simp add: storeAndNavigate_def localStorage_setItem_def)
      with str wr Inl show ?thesis by (rule encode_throws)
    next
      case (Inr u)
      note enc = Inr
      show ?thesis
      proof (cases "push_error env (''/tennis/results/'' @ aid @ ''?videoUrl='' @ u)")
        case (Some e)
        with assms str wr enc have "r = Inl (e, (emit (LocalStorage_setItem (''analysis-'' @ aid) s) (w\<lparr>localStorage := (localStorage w)(''analysis-'' @ aid \<mapsto> s)\<rparr>)))"
          by (simp add: storeAndNavigate_def localStorage_setItem_def router_push_def)
        with str wr enc Some show ?thesis by (rule push_throws)
      next
        case None
        with assms str wr enc have "r = Inr (emit (Router_push (''/tennis/results/'' @ aid @ ''?videoUrl='' @ u)) ((emit (LocalStorage_setItem (''analysis-'' @ aid) s) (w\<lparr>localStorage := (localStorage w)(''analysis-'' @ aid \<mapsto> s)\<rparr>))\<lparr>route := (''/tennis/results/'' @ aid @ ''?videoUrl='' @ u)\<rparr>))"
          by (simp add: storeAndNavigate_def localStorage_setItem_def router_push_def)
        with str wr enc None show ?thesis by (rule navigated)
      qed
    qed
  qed
qed

lemma analysisBody_cases:
  assumes run: "analysisBody env boxes url md aid w = Some r"
  obtains
    (init_throws) e where
      "initializeTennisTracker env boxes (width md) (height md) = Inl e"
      "r = Inl (e, emit (Call_initializeTennisTracker boxes (width md) (height md)) w)"
  | (load_error) f0 p where
      "initializeTennisTracker env boxes (width md) (height md) = Inr (f0, p)"
      "video_load env url = Load_error"
      "r = Inl (JsError ''Failed to load video'',
                emit (Video_load url)
                  (emit (Call_initializeTennisTracker boxes (width md) (height md)) w))"
  | (generate_throws) f0 p d frames w3 e where
      "initializeTennisTracker env boxes (width md) (height md) = Inr (f0, p)"
      "video_load env url = Loadedmetadata d"
      "frameLoop env \<lfloor>d * 2\<rfloor> p 1 ([f0], emit (Video_load url)
           (emit (Call_initializeTennisTracker boxes (width md) (height md)) w))
         = Some (frames, w3)"
      "generateAnalysisResult env frames \<lparr>width = width md, height = height md, duration = d, fps = 30\<rparr> p = Inl e"
      "r = Inl (e, (emit (Call_generateAnalysisResult frames \<lparr>width = width md, height = height md, duration = d, fps = 30\<rparr> p) w3))"
  | (generated) f0 p d frames w3 ar where
      "initializeTennisTracker env boxes (width md) (height md) = Inr (f0, p)"
      "video_load env url = Loadedmetadata d"
      "frameLoop env \<lfloor>d * 2\<rfloor> p 1 ([f0], emit (Video_load url)
           (emit (Call_initializeTennisTracker boxes (width md) (height md)) w))
         = Some (frames, w3)"
      "generateAnalysisResult env frames \<lparr>width = width md, height = height md, duration = d, fps = 30\<rparr> p = Inr ar"
      "r = storeAndNavigate env url aid ar (emit (Call_generateAnalysisResult frames \<lparr>width = width md, height = height md, duration = d, fps = 30\<rparr> p) w3)"
proof (cases "initializeTennisTracker env boxes (width md) (height md)")
  case (Inl e)
  with run have "r = Inl (e, emit (Call_initializeTennisTracker boxes (width md) (height md)) w)"
    by (simp add: analysisBody_def Let_def)
  with Inl show ?thesis by (rule init_throws)
next
  case (Inr fp)
  obtain f0 p where fp: "fp = (f0, p)" by (cases fp)
  note init = Inr[unfolded fp]
  show ?thesis
  proof (cases "video_load env url")
    case Load_pending
    with run init show ?thesis by (simp add: analysisBody_def Let_def)
  next
    case Load_error
    with run init have "r = Inl (JsError ''Failed to load video'',
                emit (Video_load url)
                  (emit (Call_initializeTennisTracker boxes (width md) (height md)) w))"
      by (simp add: analysisBody_def Let_def)
    with init Load_error show ?thesis by (rule load_error)
  next
    case (Loadedmetadata d)
    show ?thesis
    proof (cases "frameLoop env \<lfloor>d * 2\<rfloor> p 1 ([f0], emit (Video_load url)
           (emit (Call_initializeTennisTracker boxes (width md) (height md)) w))")
      case None
      with run init Loadedmetadata show ?thesis by (simp add: analysisBody_def Let_def)
    next
      case (Some st)
      obtain frames w3 where st: "st = (frames, w3)" by (cases st)
      note loop = Some[unfolded st]
      show ?thesis
      proof (cases "generateAnalysisResult env frames \<lparr>width = width md, height = height md, duration = d, fps = 30\<rparr> p")
        case (Inl e)
        with run init Loadedmetadata loop
        have "r = Inl (e, (emit (Call_generateAnalysisResult frames \<lparr>width = width md, height = height md, duration = d, fps = 30\<rparr> p) w3))"
          by (simp add: analysisBody_def Let_def)
        with init Loadedmetadata loop Inl show ?thesis by (rule generate_throws)
      next
        case (Inr ar)
        with run init Loadedmetadata loop
        have "r = storeAndNavigate env url aid ar (emit (Call_generateAnalysisResult frames \<lparr>width = width md, height = height md, duration = d, fps = 30\<rparr> p) w3)"
          by (simp add: analysisBody_def Let_def)
        with init Loadedmetadata loop Inr show ?thesis by (rule generated)
      qed
    qed
  qed
qed

lemma frameLoop_unchanged:
  assumes "frameLoop env n p i st = Some st'"
  shows "localStorage (snd st') = localStorage (snd st)"
    and "route (snd st') = route (snd st)"
    and "error (snd st') = error (snd st)"
    and "isAnalyzing (snd st') = isAnalyzing (snd st)"
    and "analysisId (snd st') = analysisId (snd st)"
    and "selectedBoxes (snd st') = selectedBoxes (snd st)"
  using arg_cong[where f = localStorage, OF frameLoop_fields[OF assms]]
        arg_cong[where f = route, OF frameLoop_fields[OF assms]]
        arg_cong[where f = error, OF frameLoop_fields[OF assms]]
        arg_cong[where f = isAnalyzing, OF frameLoop_fields[OF assms]]
        arg_cong[where f = analysisId, OF frameLoop_fields[OF assms]]
        arg_cong[where f = selectedBoxes, OF frameLoop_fields[OF assms]]
  by simp_all

lemma loopStart_trace:
  "trace (loopStart env boxes url md w)
     = trace w @ [Call_startTennisAnalysis boxes, Set_isAnalyzing True, Set_error None, Set_progress 0,
            Set_processingMessage ''Initializing tennis analysis...'',
            Set_analysisId (''tennis-'' @ uuidv4 env),
            Call_initializeTennisTracker boxes (width md) (height md)] @ [Video_load url]"
  by (simp add: loopStart_def analysisStarted_def setter_defs)

lemma analysisStarted_trace:
  "trace (emit (Call_initializeTennisTracker boxes (width md) (height md))
            (analysisStarted env boxes w))
     = trace w @ [Call_startTennisAnalysis boxes, Set_isAnalyzing True, Set_error None, Set_progress 0,
            Set_processingMessage ''Initializing tennis analysis...'',
            Set_analysisId (''tennis-'' @ uuidv4 env),
            Call_initializeTennisTracker boxes (width md) (height md)]"
  by (simp add: analysisStarted_def setter_defs)

lemma loopStart_fields:
  "localStorage (loopStart env boxes url md w) = localStorage w"
  "route (loopStart env boxes url md w) = route w"
  "error (loopStart env boxes url md w) = None"
  "isAnalyzing (loopStart env boxes url md w) = True"
  "progress (loopStart env boxes url md w) = 0"
  "analysisId (loopStart env boxes url md w) = Some (''tennis-'' @ uuidv4 env)"
  by (simp_all add: loopStart_def analysisStarted_def setter_defs)

lemma analysisCatch_fields:
  "trace (analysisCatch e w) = trace w @ [Console_error_analysis e,
              Set_error (Some (if message e \<noteq> [] then message e else ''Error analyzing video'')),
              Set_isAnalyzing False]"
  "localStorage (analysisCatch e w) = localStorage w"
  "route (analysisCatch e w) = route w"
  "error (analysisCatch e w)
     = Some (if message e \<noteq> [] then message e else ''Error analyzing video'')"
  "isAnalyzing (analysisCatch e w) = False"
  "progress (analysisCatch e w) = progress w"
  "analysisId (analysisCatch e w) = analysisId w"
  by (simp_all add: analysisCatch_def setter_defs)

lemma run_cases:
  assumes pre: "videoUrl w = Some url" "url \<noteq> []" "videoMetadata w = Some md"
      and run: "startTennisAnalysis env w boxes = Some w'"
  obtains
    (init_throws) e where
      "initializeTennisTracker env boxes (width md) (height md) = Inl e"
      "trace w' = trace w @ events_since w w'"
      "events_since w w' = [Call_startTennisAnalysis boxes, Set_isAnalyzing True, Set_error None, Set_progress 0,
            Set_processingMessage ''Initializing tennis analysis...'',
            Set_analysisId (''tennis-'' @ uuidv4 env),
            Call_initializeTennisTracker boxes (width md) (height md)] @ [Console_error_analysis e,
              Set_error (Some (if message e \<noteq> [] then message e else ''Error analyzing video'')),
              Set_isAnalyzing False]"
      "localStorage w' = localStorage w" "route w' = route w"
      "error w' = Some (if message e \<noteq> [] then message e else ''Error analyzing video'')"
      "isAnalyzing w' = False" "progress w' = 0"
  | (load_error) f0 p where
      "initializeTennisTracker env boxes (width md) (height md) = Inr (f0, p)"
      "video_load env url = Load_error"
      "trace w' = trace w @ events_since w w'"
      "events_since w w' = [Call_startTennisAnalysis boxes, Set_isAnalyzing True, Set_error None, Set_progress 0,
            Set_processingMessage ''Initializing tennis analysis...'',
            Set_analysisId (''tennis-'' @ uuidv4 env),
            Call_initializeTennisTracker boxes (width md) (height md)] @ [Video_load url]
          @ [Console_error_analysis (JsError ''Failed to load video''),
             Set_error (Some ''Failed to load video''), Set_isAnalyzing False]"
      "localStorage w' = localStorage w" "route w' = route w"
      "error w' = Some ''Failed to load video''"
      "isAnalyzing w' = False" "progress w' = 0"
  | (generate_throws) f0 p d frames w3 e where
      "initializeTennisTracker env boxes (width md) (height md) = Inr (f0, p)"
      "video_load env url = Loadedmetadata d"
      "frameLoop env \<lfloor>d * 2\<rfloor> p 1 ([f0], loopStart env boxes url md w) = Some (frames, w3)"
      "generateAnalysisResult env frames \<lparr>width = width md, height = height md, duration = d, fps = 30\<rparr> p = Inl e"
      "trace w' = trace w @ events_since w w'"
      "events_since w w' = [Call_startTennisAnalysis boxes, Set_isAnalyzing True, Set_error None, Set_progress 0,
            Set_processingMessage ''Initializing tennis analysis...'',
            Set_analysisId (''tennis-'' @ uuidv4 env),
            Call_initializeTennisTracker boxes (width md) (height md)] @ [Video_load url]
          @ events_since (loopStart env boxes url md w) w3
          @ [Call_generateAnalysisResult frames \<lparr>width = width md, height = height md, duration = d, fps = 30\<rparr> p] @ [Console_error_analysis e,
              Set_error (Some (if message e \<noteq> [] then message e else ''Error analyzing video'')),
              Set_isAnalyzing False]"
      "localStorage w' = localStorage w"
      "route w' = route w"
      "error w' = Some (if message e \<noteq> [] then message e else ''Error analyzing video'')"
      "isAnalyzing w' = False"
      "progress w' = progress w3"
  | (stringify_throws) f0 p d frames w3 ar e where
      "initializeTennisTracker env boxes (width md) (height md) = Inr (f0, p)"
      "video_load env url = Loadedmetadata d"
      "frameLoop env \<lfloor>d * 2\<rfloor> p 1 ([f0], loopStart env boxes url md w) = Some (frames, w3)"
      "generateAnalysisResult env frames \<lparr>width = width md, height = height md, duration = d, fps = 30\<rparr> p = Inr ar"
      "trace w' = trace w @ events_since w w'"
      "events_since w w' = [Call_startTennisAnalysis boxes, Set_isAnalyzing True, Set_error None, Set_progress 0,
            Set_processingMessage ''Initializing tennis analysis...'',
            Set_analysisId (''tennis-'' @ uuidv4 env),
            Call_initializeTennisTracker boxes (width md) (height md)] @ [Video_load url]
          @ events_since (loopStart env boxes url md w) w3
          @ [Call_generateAnalysisResult frames \<lparr>width = width md, height = height md, duration = d, fps = 30\<rparr> p] @ [Console_error_analysis e,
              Set_error (Some (if message e \<noteq> [] then message e else ''Error analyzing video'')),
              Set_isAnalyzing False]"
      "localStorage w' = localStorage w"
      "route w' = route w"
      "error w' = Some (if message e \<noteq> [] then message e else ''Error analyzing video'')"
      "isAnalyzing w' = False"
      "progress w' = progress w3"
      "JSON_stringify env ar = Inl e"
  | (setItem_throws) f0 p d frames w3 ar s e where
      "initializeTennisTracker env boxes (width md) (height md) = Inr (f0, p)"
      "video_load env url = Loadedmetadata d"
      "frameLoop env \<lfloor>d * 2\<rfloor> p 1 ([f0], loopStart env boxes url md w) = Some (frames, w3)"
      "generateAnalysisResult env frames \<lparr>width = width md, height = height md, duration = d, fps = 30\<rparr> p = Inr ar"
      "trace w' = trace w @ events_since w w'"
      "events_since w w' = [Call_startTennisAnalysis boxes, Set_isAnalyzing True, Set_error None, Set_progress 0,
            Set_processingMessage ''Initializing tennis analysis...'',
            Set_analysisId (''tennis-'' @ uuidv4 env),
            Call_initializeTennisTracker boxes (width md) (height md)] @ [Video_load url]
          @ events_since (loopStart env boxes url md w) w3
          @ [Call_generateAnalysisResult frames \<lparr>width = width md, height = height md, duration = d, fps = 30\<rparr> p] @ [Console_error_analysis e,
              Set_error (Some (if message e \<noteq> [] then message e else ''Error analyzing video'')),
              Set_isAnalyzing False]"
      "localStorage w' = localStorage w"
      "route w' = route w"
      "error w' = Some (if message e \<noteq> [] then message e else ''Error analyzing video'')"
      "isAnalyzing w' = False"
      "progress w' = progress w3"
      "JSON_stringify env ar = Inr s"
      "setItem_error env (''analysis-'' @ ''tennis-'' @ uuidv4 env) s = Some e"
  | (encode_throws) f0 p d frames w3 ar s e where
      "initializeTennisTracker env boxes (width md) (height md) = Inr (f0, p)"
      "video_load env url = Loadedmetadata d"
      "frameLoop env \<lfloor>d * 2\<rfloor> p 1 ([f0], loopStart env boxes url md w) = Some (frames, w3)"
      "generateAnalysisResult env frames \<lparr>width = width md, height = height md, duration = d, fps = 30\<rparr> p = Inr ar"
      "trace w' = trace w @ events_since w w'"
      "events_since w w' = [Call_startTennisAnalysis boxes, Set_isAnalyzing True, Set_error None, Set_progress 0,
            Set_processingMessage ''Initializing tennis analysis...'',
            Set_analysisId (''tennis-'' @ uuidv4 env),
            Call_initializeTennisTracker boxes (width md) (height md)] @ [Video_load url]
          @ events_since (loopStart env boxes url md w) w3
          @ [Call_generateAnalysisResult frames \<lparr>width = width md, height = height md, duration = d, fps = 30\<rparr> p] @ [LocalStorage_setItem (''analysis-'' @ ''tennis-'' @ uuidv4 env) s] @ [Console_error_analysis e,
              Set_error (Some (if message e \<noteq> [] then message e else ''Error analyzing video'')),
              Set_isAnalyzing False]"
      "localStorage w' = (localStorage w)(''analysis-'' @ ''tennis-'' @ uuidv4 env \<mapsto> s)"
      "route w' = route w"
      "error w' = Some (if message e \<noteq> [] then message e else ''Error analyzing video'')"
      "isAnalyzing w' = False"
      "progress w' = progress w3"
      "JSON_stringify env ar = Inr s"
      "setItem_error env (''analysis-'' @ ''tennis-'' @ uuidv4 env) s = None"
      "encodeURIComponent env url = Inl e"
  | (push_throws) f0 p d frames w3 ar s u e where
      "initializeTennisTracker env boxes (width md) (height md) = Inr (f0, p)"
      "video_load env url = Loadedmetadata d"
      "frameLoop env \<lfloor>d * 2\<rfloor> p 1 ([f0], loopStart env boxes url md w) = Some (frames, w3)"
      "generateAnalysisResult env frames \<lparr>width = width md, height = height md, duration = d, fps = 30\<rparr> p = Inr ar"
      "trace w' = trace w @ events_since w w'"
      "events_since w w' = [Call_startTennisAnalysis boxes, Set_isAnalyzing True, Set_error None, Set_progress 0,
            Set_processingMessage ''Initializing tennis analysis...'',
            Set_analysisId (''tennis-'' @ uuidv4 env),
            Call_initializeTennisTracker boxes (width md) (height md)] @ [Video_load url]
          @ events_since (loopStart env boxes url md w) w3
          @ [Call_generateAnalysisResult frames \<lparr>width = width md, height = height md, duration = d, fps = 30\<rparr> p] @ [LocalStorage_setItem (''analysis-'' @ ''tennis-'' @ uuidv4 env) s] @ [Console_error_analysis e,
              Set_error (Some (if message e \<noteq> [] then message e else ''Error analyzing video'')),
              Set_isAnalyzing False]"
      "localStorage w' = (localStorage w)(''analysis-'' @ ''tennis-'' @ uuidv4 env \<mapsto> s)"
      "route w' = route w"
      "error w' = Some (if message e \<noteq> [] then message e else ''Error analyzing video'')"
      "isAnalyzing w' = False"
      "progress w' = progress w3"
      "JSON_stringify env ar = Inr s"
      "setItem_error env (''analysis-'' @ ''tennis-'' @ uuidv4 env) s = None"
      "encodeURIComponent env url = Inr u"
      "push_error env (''/tennis/results/'' @ ''tennis-'' @ uuidv4 env @ ''?videoUrl='' @ u) = Some e"
  | (stored) f0 p d frames w3 ar s u where
      "initializeTennisTracker env boxes (width md) (height md) = Inr (f0, p)"
      "video_load env url = Loadedmetadata d"
      "frameLoop env \<lfloor>d * 2\<rfloor> p 1 ([f0], loopStart env boxes url md w) = Some (frames, w3)"
      "generateAnalysisResult env frames \<lparr>width = width md, height = height md, duration = d, fps = 30\<rparr> p = Inr ar"
      "trace w' = trace w @ events_since w w'"
      "events_since w w' = [Call_startTennisAnalysis boxes, Set_isAnalyzing True, Set_error None, Set_progress 0,
            Set_processingMessage ''Initializing tennis analysis...'',
            Set_analysisId (''tennis-'' @ uuidv4 env),
            Call_initializeTennisTracker boxes (width md) (height md)] @ [Video_load url]
          @ events_since (loopStart env boxes url md w) w3
          @ [Call_generateAnalysisResult frames \<lparr>width = width md, height = height md, duration = d, fps = 30\<rparr> p] @ [LocalStorage_setItem (''analysis-'' @ ''tennis-'' @ uuidv4 env) s, Router_push (''/tennis/results/'' @ ''tennis-'' @ uuidv4 env @ ''?videoUrl='' @ u)]"
      "localStorage w' = (localStorage w)(''analysis-'' @ ''tennis-'' @ uuidv4 env \<mapsto> s)"
      "route w' = ''/tennis/results/'' @ ''tennis-'' @ uuidv4 env @ ''?videoUrl='' @ u"
      "error w' = None"
      "isAnalyzing w' = True"
      "progress w' = progress w3"
      "analysisId w' = Some (''tennis-'' @ uuidv4 env)"
      "JSON_stringify env ar = Inr s"
      "setItem_error env (''analysis-'' @ ''tennis-'' @ uuidv4 env) s = None"
      "encodeURIComponent env url = Inr u"
      "push_error env (''/tennis/results/'' @ ''tennis-'' @ uuidv4 env @ ''?videoUrl='' @ u) = None"
proof -
  from run start_unfold[OF pre, of env boxes]
  obtain r where body: "analysisBody env boxes url md (''tennis-'' @ uuidv4 env)
                          (analysisStarted env boxes w) = Some r"
    and res: "(case r of Inr w1 \<Rightarrow> Some w1 | Inl (e, w1) \<Rightarrow> Some (analysisCatch e w1)) = Some w'"
    by (auto split: option.splits)
  from body show ?thesis
  proof (cases rule: analysisBody_cases)
    case (init_throws e)
    with res have w': "w' = analysisCatch e
        (emit (Call_initializeTennisTracker boxes (width md) (height md))
           (analysisStarted env boxes w))" by simp
    have tw: "trace w' = trace w @ ([Call_startTennisAnalysis boxes, Set_isAnalyzing True, Set_error None, Set_progress 0,
            Set_processingMessage ''Initializing tennis analysis...'',
            Set_analysisId (''tennis-'' @ uuidv4 env),
            Call_initializeTennisTracker boxes (width md) (height md)] @ [Console_error_analysis e,
              Set_error (Some (if message e \<noteq> [] then message e else ''Error analyzing video'')),
              Set_isAnalyzing False])"
      by (simp add: w' analysisCatch_fields(1) analysisStarted_trace)
    from tw have ev: "events_since w w' = [Call_startTennisAnalysis boxes, Set_isAnalyzing True, Set_error None, Set_progress 0,
            Set_processingMessage ''Initializing tennis analysis...'',
            Set_analysisId (''tennis-'' @ uuidv4 env),
            Call_initializeTennisTracker boxes (width md) (height md)] @ [Console_error_analysis e,
              Set_error (Some (if message e \<noteq> [] then message e else ''Error analyzing video'')),
              Set_isAnalyzing False]"
      by (rule events_since_app)
    have tp: "trace w' = trace w @ events_since w w'"
      unfolding ev by (rule tw)
    have fs: "localStorage w' = localStorage w" "route w' = route w"
      "error w' = Some (if message e \<noteq> [] then message e else ''Error analyzing video'')"
      "isAnalyzing w' = False" "progress w' = 0"
      by (simp_all add: w' analysisCatch_fields analysisStarted_def setter_defs)
    from init_throws(1) tp ev fs show ?thesis by (rule that(1))
  next
    case (load_error f0 p)
    with res have w': "w' = analysisCatch (JsError ''Failed to load video'')
                              (loopStart env boxes url md w)"
      by (simp add: loopStart_def)
    have tw: "trace w' = trace w @ ([Call_startTennisAnalysis boxes, Set_isAnalyzing True, Set_error None, Set_progress 0,
            Set_processingMessage ''Initializing tennis analysis...'',
            Set_analysisId (''tennis-'' @ uuidv4 env),
            Call_initializeTennisTracker boxes (width md) (height md)] @ [Video_load url]
          @ [Console_error_analysis (JsError ''Failed to load video''),
             Set_error (Some ''Failed to load video''), Set_isAnalyzing False])"
      by (simp add: w' analysisCatch_fields(1) loopStart_trace)
    from tw have ev: "events_since w w' = [Call_startTennisAnalysis boxes, Set_isAnalyzing True, Set_error None, Set_progress 0,
            Set_processingMessage ''Initializing tennis analysis...'',
            Set_analysisId (''tennis-'' @ uuidv4 env),
            Call_initializeTennisTracker boxes (width md) (height md)] @ [Video_load url]
          @ [Console_error_analysis (JsError ''Failed to load video''),
             Set_error (Some ''Failed to load video''), Set_isAnalyzing False]"
      by (rule events_since_app)
    have tp: "trace w' = trace w @ events_since w w'"
      unfolding ev by (rule tw)
    have fs: "localStorage w' = localStorage w" "route w' = route w"
      "error w' = Some ''Failed to load video''"
      "isAnalyzing w' = False" "progress w' = 0"
      by (simp_all add: w' analysisCatch_fields loopStart_fields)
    from load_error(1,2) tp ev fs show ?thesis by (rule that(2))
  next
    case (generate_throws f0 p d frames w3 e)
    from generate_throws(3)
    have loop: "frameLoop env \<lfloor>d * 2\<rfloor> p 1 ([f0], loopStart env boxes url md w) = Some (frames, w3)"
      by (simp add: loopStart_def)
    from generate_throws(5) res
    have w': "w' = analysisCatch e (emit (Call_generateAnalysisResult frames \<lparr>width = width md, height = height md, duration = d, fps = 30\<rparr> p) w3)"
      by simp
    have t3: "trace w3 = trace w @ [Call_startTennisAnalysis boxes, Set_isAnalyzing True, Set_error None, Set_progress 0,
            Set_processingMessage ''Initializing tennis analysis...'',
            Set_analysisId (''tennis-'' @ uuidv4 env),
            Call_initializeTennisTracker boxes (width md) (height md)] @ [Video_load url]
                @ events_since (loopStart env boxes url md w) w3"
      using frameLoop_trace[OF loop] by (simp add: loopStart_trace)
    note frm = frameLoop_unchanged[OF loop]
    have tw: "trace w' = trace w @ ([Call_startTennisAnalysis boxes, Set_isAnalyzing True, Set_error None, Set_progress 0,
            Set_processingMessage ''Initializing tennis analysis...'',
            Set_analysisId (''tennis-'' @ uuidv4 env),
            Call_initializeTennisTracker boxes (width md) (height md)] @ [Video_load url]
          @ events_since (loopStart env boxes url md w) w3
          @ [Call_generateAnalysisResult frames \<lparr>width = width md, height = height md, duration = d, fps = 30\<rparr> p] @ [Console_error_analysis e,
              Set_error (Some (if message e \<noteq> [] then message e else ''Error analyzing video'')),
              Set_isAnalyzing False])"
      by (simp add: w' analysisCatch_fields(1) emit_def t3)
    from tw have ev: "events_since w w' = [Call_startTennisAnalysis boxes, Set_isAnalyzing True, Set_error None, Set_progress 0,
            Set_processingMessage ''Initializing tennis analysis...'',
            Set_analysisId (''tennis-'' @ uuidv4 env),
            Call_initializeTennisTracker boxes (width md) (height md)] @ [Video_load url]
          @ events_since (loopStart env boxes url md w) w3
          @ [Call_generateAnalysisResult frames \<lparr>width = width md, height = height md, duration = d, fps = 30\<rparr> p] @ [Console_error_analysis e,
              Set_error (Some (if message e \<noteq> [] then message e else ''Error analyzing video'')),
              Set_isAnalyzing False]"
      by (rule events_since_app)
    have tp: "trace w' = trace w @ events_since w w'"
      unfolding ev by (rule tw)
    have fs: "localStorage w' = localStorage w" "route w' = route w"
      "error w' = Some (if message e \<noteq> [] then message e else ''Error analyzing video'')"
      "isAnalyzing w' = False" "progress w' = progress w3"
      using frm
      by (simp_all add: w' analysisCatch_fields emit_def loopStart_fields)
    from generate_throws(1,2) loop generate_throws(4) tp ev fs show ?thesis by (rule that(3))
  next
    case (generated f0 p d frames w3 ar)
    from generated(3)
    have loop: "frameLoop env \<lfloor>d * 2\<rfloor> p 1 ([f0], loopStart env boxes url md w) = Some (frames, w3)"
      by (simp add: loopStart_def)
    note frm = frameLoop_unchanged[OF loop]
    have t3: "trace w3 = trace w @ [Call_startTennisAnalysis boxes, Set_isAnalyzing True, Set_error None, Set_progress 0,
            Set_processingMessage ''Initializing tennis analysis...'',
            Set_analysisId (''tennis-'' @ uuidv4 env),
            Call_initializeTennisTracker boxes (width md) (height md)] @ [Video_load url]
                @ events_since (loopStart env boxes url md w) w3"
      using frameLoop_trace[OF loop] by (simp add: loopStart_trace)
    from generated(5)[symmetric] show ?thesis
    proof (cases rule: storeAndNavigate_cases)
      case (stringify_throws e)
      from stringify_throws(2) res have w': "w' = analysisCatch e (emit (Call_generateAnalysisResult frames \<lparr>width = width md, height = height md, duration = d, fps = 30\<rparr> p) w3)" by simp
      have tw: "trace w' = trace w @ ([Call_startTennisAnalysis boxes, Set_isAnalyzing True, Set_error None, Set_progress 0,
            Set_processingMessage ''Initializing tennis analysis...'',
            Set_analysisId (''tennis-'' @ uuidv4 env),
            Call_initializeTennisTracker boxes (width md) (height md)] @ [Video_load url]
          @ events_since (loopStart env boxes url md w) w3
          @ [Call_generateAnalysisResult frames \<lparr>width = width md, height = height md, duration = d, fps = 30\<rparr> p] @ [Console_error_analysis e,
              Set_error (Some (if message e \<noteq> [] then message e else ''Error analyzing video'')),
              Set_isAnalyzing False])"
        by (simp add: w' analysisCatch_fields(1) emit_def t3)
      from tw have ev: "events_since w w' = [Call_startTennisAnalysis boxes, Set_isAnalyzing True, Set_error None, Set_progress 0,
            Set_processingMessage ''Initializing tennis analysis...'',
            Set_analysisId (''tennis-'' @ uuidv4 env),
            Call_initializeTennisTracker boxes (width md) (height md)] @ [Video_load url]
          @ events_since (loopStart env boxes url md w) w3
          @ [Call_generateAnalysisResult frames \<lparr>width = width md, height = height md, duration = d, fps = 30\<rparr> p] @ [Console_error_analysis e,
              Set_error (Some (if message e \<noteq> [] then message e else ''Error analyzing video'')),
              Set_isAnalyzing False]"
        by (rule events_since_app)
      have tp: "trace w' = trace w @ events_since w w'"
        unfolding ev by (rule tw)
      have fs: "localStorage w' = localStorage w" "route w' = route w"
        "error w' = Some (if message e \<noteq> [] then message e else ''Error analyzing video'')"
        "isAnalyzing w' = False" "progress w' = progress w3"
        using frm
        by (simp_all add: w' analysisCatch_fields emit_def loopStart_fields)
      from generated(1,2) loop generated(4) tp ev fs stringify_throws(1)
      show ?thesis by (rule that(4))
    next
      case (setItem_throws s e)
      from setItem_throws(3) res have w': "w' = analysisCatch e (emit (Call_generateAnalysisResult frames \<lparr>width = width md, height = height md, duration = d, fps = 30\<rparr> p) w3)" by simp
      have tw: "trace w' = trace w @ ([Call_startTennisAnalysis boxes, Set_isAnalyzing True, Set_error None, Set_progress 0,
            Set_processingMessage ''Initializing tennis analysis...'',
            Set_analysisId (''tennis-'' @ uuidv4 env),
            Call_initializeTennisTracker boxes (width md) (height md)] @ [Video_load url]
          @ events_since (loopStart env boxes url md w) w3
          @ [Call_generateAnalysisResult frames \<lparr>width = width md, height = height md, duration = d, fps = 30\<rparr> p] @ [Console_error_analysis e,
              Set_error (Some (if message e \<noteq> [] then message e else ''Error analyzing video'')),
              Set_isAnalyzing False])"
        by (simp add: w' analysisCatch_fields(1) emit_def t3)
      from tw have ev: "events_since w w' = [Call_startTennisAnalysis boxes, Set_isAnalyzing True, Set_error None, Set_progress 0,
            Set_processingMessage ''Initializing tennis analysis...'',
            Set_analysisId (''tennis-'' @ uuidv4 env),
            Call_initializeTennisTracker boxes (width md) (height md)] @ [Video_load url]
          @ events_since (loopStart env boxes url md w) w3
          @ [Call_generateAnalysisResult frames \<lparr>width = width md, height = height md, duration = d, fps = 30\<rparr> p] @ [Console_error_analysis e,
              Set_error (Some (if message e \<noteq> [] then message e else ''Error analyzing video'')),
              Set_isAnalyzing False]"
        by (rule events_since_app)
      have tp: "trace w' = trace w @ events_since w w'"
        unfolding ev by (rule tw)
      have fs: "localStorage w' = localStorage w" "route w' = route w"
        "error w' = Some (if message e \<noteq> [] then message e else ''Error analyzing video'')"
        "isAnalyzing w' = False" "progress w' = progress w3"
        using frm
        by (simp_all add: w' analysisCatch_fields emit_def loopStart_fields)
      from generated(1,2) loop generated(4) tp ev fs setItem_throws(1) setItem_throws(2)
      show ?thesis by (rule that(5))
    next
      case (encode_throws s e)
      from encode_throws(4) res have w': "w' = analysisCatch e (emit (LocalStorage_setItem (''analysis-'' @ (''tennis-'' @ uuidv4 env)) s) ((emit (Call_generateAnalysisResult frames \<lparr>width = width md, height = height md, duration = d, fps = 30\<rparr> p) w3)\<lparr>localStorage := (localStorage (emit (Call_generateAnalysisResult frames \<lparr>width = width md, height = height md, duration = d, fps = 30\<rparr> p) w3))(''analysis-'' @ (''tennis-'' @ uuidv4 env) \<mapsto> s)\<rparr>))" by simp
      have tw: "trace w' = trace w @ ([Call_startTennisAnalysis boxes, Set_isAnalyzing True, Set_error None, Set_progress 0,
            Set_processingMessage ''Initializing tennis analysis...'',
            Set_analysisId (''tennis-'' @ uuidv4 env),
            Call_initializeTennisTracker boxes (width md) (height md)] @ [Video_load url]
          @ events_since (loopStart env boxes url md w) w3
          @ [Call_generateAnalysisResult frames \<lparr>width = width md, height = height md, duration = d, fps = 30\<rparr> p] @ [LocalStorage_setItem (''analysis-'' @ ''tennis-'' @ uuidv4 env) s] @ [Console_error_analysis e,
              Set_error (Some (if message e \<noteq> [] then message e else ''Error analyzing video'')),
              Set_isAnalyzing False])"
        by (simp add: w' analysisCatch_fields(1) emit_def t3)
      from tw have ev: "events_since w w' = [Call_startTennisAnalysis boxes, Set_isAnalyzing True, Set_error None, Set_progress 0,
            Set_processingMessage ''Initializing tennis analysis...'',
            Set_analysisId (''tennis-'' @ uuidv4 env),
            Call_initializeTennisTracker boxes (width md) (height md)] @ [Video_load url]
          @ events_since (loopStart env boxes url md w) w3
          @ [Call_generateAnalysisResult frames \<lparr>width = width md, height = height md, duration = d, fps = 30\<rparr> p] @ [LocalStorage_setItem (''analysis-'' @ ''tennis-'' @ uuidv4 env) s] @ [Console_error_analysis e,
              Set_error (Some (if message e \<noteq> [] then message e else ''Error analyzing video'')),
              Set_isAnalyzing False]"
        by (rule events_since_app)
      have tp: "trace w' = trace w @ events_since w w'"
        unfolding ev by (rule tw)
      have fs: "localStorage w' = (localStorage w)(''analysis-'' @ ''tennis-'' @ uuidv4 env \<mapsto> s)" "route w' = route w"
        "error w' = Some (if message e \<noteq> [] then message e else ''Error analyzing video'')"
        "isAnalyzing w' = False" "progress w' = progress w3"
        using frm
        by (simp_all add: w' analysisCatch_fields emit_def loopStart_fields)
      from generated(1,2) loop generated(4) tp ev fs encode_throws(1,2,3)
      show ?thesis by (rule that(6))
    next
      case (push_throws s u e)
      from push_throws(5) res have w': "w' = analysisCatch e (emit (LocalStorage_setItem (''analysis-'' @ (''tennis-'' @ uuidv4 env)) s) ((emit (Call_generateAnalysisResult frames \<lparr>width = width md, height = height md, duration = d, fps = 30\<rparr> p) w3)\<lparr>localStorage := (localStorage (emit (Call_generateAnalysisResult frames \<lparr>width = width md, height = height md, duration = d, fps = 30\<rparr> p) w3))(''analysis-'' @ (''tennis-'' @ uuidv4 env) \<mapsto> s)\<rparr>))" by simp
      have tw: "trace w' = trace w @ ([Call_startTennisAnalysis boxes, Set_isAnalyzing True, Set_error None, Set_progress 0,
            Set_processingMessage ''Initializing tennis analysis...'',
            Set_analysisId (''tennis-'' @ uuidv4 env),
            Call_initializeTennisTracker boxes (width md) (height md)] @ [Video_load url]
          @ events_since (loopStart env boxes url md w) w3
          @ [Call_generateAnalysisResult frames \<lparr>width = width md, height = height md, duration = d, fps = 30\<rparr> p] @ [LocalStorage_setItem (''analysis-'' @ ''tennis-'' @ uuidv4 env) s] @ [Console_error_analysis e,
              Set_error (Some (if message e \<noteq> [] then message e else ''Error analyzing video'')),
              Set_isAnalyzing False])"
        by (simp add: w' analysisCatch_fields(1) emit_def t3)
      from tw have ev: "events_since w w' = [Call_startTennisAnalysis boxes, Set_isAnalyzing True, Set_error None, Set_progress 0,
            Set_processingMessage ''Initializing tennis analysis...'',
            Set_analysisId (''tennis-'' @ uuidv4 env),
            Call_initializeTennisTracker boxes (width md) (height md)] @ [Video_load url]
          @ events_since (loopStart env boxes url md w) w3
          @ [Call_generateAnalysisResult frames \<lparr>width = width md, height = height md, duration = d, fps = 30\<rparr> p] @ [LocalStorage_setItem (''analysis-'' @ ''tennis-'' @ uuidv4 env) s] @ [Console_error_analysis e,
              Set_error (Some (if message e \<noteq> [] then message e else ''Error analyzing video'')),
              Set_isAnalyzing False]"
        by (rule events_since_app)
      have tp: "trace w' = trace w @ events_since w w'"
        unfolding ev by (rule tw)
      have fs: "localStorage w' = (localStorage w)(''analysis-'' @ ''tennis-'' @ uuidv4 env \<mapsto> s)" "route w' = route w"
        "error w' = Some (if message e \<noteq> [] then message e else ''Error analyzing video'')"
        "isAnalyzing w' = False" "progress w' = progress w3"
        using frm
        by (simp_all add: w' analysisCatch_fields emit_def loopStart_fields)
      have pe: "push_error env (''/tennis/results/'' @ ''tennis-'' @ uuidv4 env @ ''?videoUrl='' @ u) = Some e"
        using push_throws(4) by simp
      from generated(1,2) loop generated(4) tp ev fs push_throws(1,2,3) pe
      show ?thesis by (rule that(7))
    next
      case (navigated s u)
      from navigated(5) res have w': "w' = (emit (Router_push (''/tennis/results/'' @ (''tennis-'' @ uuidv4 env) @ ''?videoUrl='' @ u)) ((emit (LocalStorage_setItem (''analysis-'' @ (''tennis-'' @ uuidv4 env)) s) ((emit (Call_generateAnalysisResult frames \<lparr>width = width md, height = height md, duration = d, fps = 30\<rparr> p) w3)\<lparr>localStorage := (localStorage (emit (Call_generateAnalysisResult frames \<lparr>width = width md, height = height md, duration = d, fps = 30\<rparr> p) w3))(''analysis-'' @ (''tennis-'' @ uuidv4 env) \<mapsto> s)\<rparr>))\<lparr>route := (''/tennis/results/'' @ (''tennis-'' @ uuidv4 env) @ ''?videoUrl='' @ u)\<rparr>))" by simp
      have tw: "trace w' = trace w @ ([Call_startTennisAnalysis boxes, Set_isAnalyzing True, Set_error None, Set_progress 0,
            Set_processingMessage ''Initializing tennis analysis...'',
            Set_analysisId (''tennis-'' @ uuidv4 env),
            Call_initializeTennisTracker boxes (width md) (height md)] @ [Video_load url]
          @ events_since (loopStart env boxes url md w) w3
          @ [Call_generateAnalysisResult frames \<lparr>width = width md, height = height md, duration = d, fps = 30\<rparr> p] @ [LocalStorage_setItem (''analysis-'' @ ''tennis-'' @ uuidv4 env) s, Router_push (''/tennis/results/'' @ ''tennis-'' @ uuidv4 env @ ''?videoUrl='' @ u)])"
        by (simp add: w' analysisCatch_fields(1) emit_def t3)
      from tw have ev: "events_since w w' = [Call_startTennisAnalysis boxes, Set_isAnalyzing True, Set_error None, Set_progress 0,
            Set_processingMessage ''Initializing tennis analysis...'',
            Set_analysisId (''tennis-'' @ uuidv4 env),
            Call_initializeTennisTracker boxes (width md) (height md)] @ [Video_load url]
          @ events_since (loopStart env boxes url md w) w3
          @ [Call_generateAnalysisResult frames \<lparr>width = width md, height = height md, duration = d, fps = 30\<rparr> p] @ [LocalStorage_setItem (''analysis-'' @ ''tennis-'' @ uuidv4 env) s, Router_push (''/tennis/results/'' @ ''tennis-'' @ uuidv4 env @ ''?videoUrl='' @ u)]"
        by (rule events_since_app)
      have tp: "trace w' = trace w @ events_since w w'"
        unfolding ev by (rule tw)
      have fs: "localStorage w' = (localStorage w)(''analysis-'' @ ''tennis-'' @ uuidv4 env \<mapsto> s)" "route w' = ''/tennis/results/'' @ ''tennis-'' @ uuidv4 env @ ''?videoUrl='' @ u"
        "error w' = None"
        "isAnalyzing w' = True" "progress w' = progress w3"
        "analysisId w' = Some (''tennis-'' @ uuidv4 env)"
        using frm
        by (simp_all add: w' analysisCatch_fields emit_def loopStart_fields)
      have pe: "push_error env (''/tennis/results/'' @ ''tennis-'' @ uuidv4 env @ ''?videoUrl='' @ u) = None"
        using navigated(4) by simp
      from generated(1,2) loop generated(4) tp ev fs navigated(1,2,3) pe
      show ?thesis by (rule that(8))
    qed
  qed
qed

lemma processFrame_no_analysis_error:
  assumes "processFrame env n p i s = Some s1"
  shows "analysis_errors_of (events_since (snd s) (snd s1)) = []"
proof -
  from assms have pf: "processFrame env n p i (fst s, snd s) = Some (fst s1, snd s1)" by simp
  from processFrame_cases[OF pf] obtain es where
    tr: "trace (snd s1) = trace (snd s) @ [Set_processingMessage (progressMessage n i), Video_seek (of_int i / 2)] @ es"
    and es: "(\<exists>e. es = [Console_error_frame (of_int i / 2) e])
       \<or> (\<exists>c e. es = [Call_trackFrame c, Console_error_frame (of_int i / 2) e])
       \<or> (\<exists>c x. es = [Call_trackFrame c, Set_progress x])"
    by blast
  have ev: "events_since (snd s) (snd s1) = [Set_processingMessage (progressMessage n i), Video_seek (of_int i / 2)] @ es"
    by (rule events_since_app[OF tr])
  from es show ?thesis by (auto simp: ev proj_simps)
qed

lemma frameLoop_no_analysis_error:
  assumes "frameLoop env n p i st = Some st'"
  shows "analysis_errors_of (events_since (snd st) (snd st')) = []"
  using assms
proof (rule frameLoop_rule)
  fix k :: int and s :: "'a list \<times> ('a, 'b) World"
  show "analysis_errors_of (events_since (snd s) (snd s)) = []"
    by (simp add: events_since_self analysis_errors_of_def)
next
  fix k and s s1 s2 :: "'a list \<times> ('a, 'b) World"
  assume pf: "processFrame env n p k s = Some s1"
    and fl: "frameLoop env n p (k + 1) s1 = Some s2"
    and ih: "analysis_errors_of (events_since (snd s1) (snd s2)) = []"
  show "analysis_errors_of (events_since (snd s) (snd s2)) = []"
    using processFrame_no_analysis_error[OF pf] ih
    by (simp add: loop_split[OF pf fl] analysis_errors_of_def map_filter_app)
qed

lemma processFrame_returns:
  assumes "seeked env (of_int i / 2)"
      and "\<And>b f. trackFrame env b i (of_int i / 2) f p \<noteq> Pending"
  shows "\<exists>s1. processFrame env n p i s = Some s1"
  using assms
  by (simp add: processFrame_def frameCatch_def Let_def split: sum.splits promise.splits)

lemma frameLoop_returns:
  assumes "\<And>k. i \<le> k \<Longrightarrow> k < n \<Longrightarrow> seeked env (of_int k / 2)"
      and "\<And>b k f. i \<le> k \<Longrightarrow> k < n \<Longrightarrow> trackFrame env b k (of_int k / 2) f p \<noteq> Pending"
  shows "\<exists>st'. frameLoop env n p i st = Some st'"
  using assms
proof (induction env n p i st rule: frameLoop.induct)
  case (1 env n p i st)
  show ?case
  proof (cases "i < n")
    case True
    have "\<exists>s1. processFrame env n p i st = Some s1"
      by (rule processFrame_returns) (simp_all add: "1.prems" True)
    then obtain s1 where s1: "processFrame env n p i st = Some s1" ..
    have "\<exists>st'. frameLoop env n p (i + 1) s1 = Some st'"
      by (rule "1.IH"[OF True s1]) (simp_all add: "1.prems")
    then show ?thesis using True s1 by (simp add: frameLoop.simps[of env n p i st])
  next
    case False
    then show ?thesis by (simp add: frameLoop.simps[of env n p i st])
  qed
qed

lemmas demo_defs = demoEnv_def demoWorld_def demoBoxes_def

lemmas run_defs = startTennisAnalysis_def analysisBody_def storeAndNavigate_def analysisCatch_def
  processFrame_def frameCatch_def progressMessage_def setter_defs Let_def


lemma run_shape:
  assumes pre: "videoUrl w = Some url" "url \<noteq> []" "videoMetadata w = Some md"
      and run: "startTennisAnalysis env w boxes = Some w'"
  obtains
    (init_throws) e where
      "initializeTennisTracker env boxes (width md) (height md) = Inl e"
      "trace w' = trace w @ events_since w w'"
      "events_since w w' = [Call_startTennisAnalysis boxes, Set_isAnalyzing True, Set_error None, Set_progress 0,
            Set_processingMessage ''Initializing tennis analysis...'',
            Set_analysisId (''tennis-'' @ uuidv4 env),
            Call_initializeTennisTracker boxes (width md) (height md)] @ [Console_error_analysis e,
              Set_error (Some (if message e \<noteq> [] then message e else ''Error analyzing video'')),
              Set_isAnalyzing False]"
      "localStorage w' = localStorage w" "route w' = route w"
      "error w' = Some (if message e \<noteq> [] then message e else ''Error analyzing video'')"
      "isAnalyzing w' = False" "progress w' = 0"
  | (load_error) f0 p where
      "initializeTennisTracker env boxes (width md) (height md) = Inr (f0, p)"
      "video_load env url = Load_error"
      "trace w' = trace w @ events_since w w'"
      "events_since w w' = [Call_startTennisAnalysis boxes, Set_isAnalyzing True, Set_error None, Set_progress 0,
            Set_processingMessage ''Initializing tennis analysis...'',
            Set_analysisId (''tennis-'' @ uuidv4 env),
            Call_initializeTennisTracker boxes (width md) (height md)] @ [Video_load url]
          @ [Console_error_analysis (JsError ''Failed to load video''),
             Set_error (Some ''Failed to load video''), Set_isAnalyzing False]"
      "localStorage w' = localStorage w" "route w' = route w"
      "error w' = Some ''Failed to load video''"
      "isAnalyzing w' = False" "progress w' = 0"
  | (looped) f0 p d frames w3 tail where
      "initializeTennisTracker env boxes (width md) (height md) = Inr (f0, p)"
      "video_load env url = Loadedmetadata d"
      "frameLoop env \<lfloor>d * 2\<rfloor> p 1 ([f0], loopStart env boxes url md w) = Some (frames, w3)"
      "trace w' = trace w @ events_since w w'"
      "events_since w w' = [Call_startTennisAnalysis boxes, Set_isAnalyzing True, Set_error None, Set_progress 0,
            Set_processingMessage ''Initializing tennis analysis...'',
            Set_analysisId (''tennis-'' @ uuidv4 env),
            Call_initializeTennisTracker boxes (width md) (height md)] @ [Video_load url]
          @ events_since (loopStart env boxes url md w) w3
          @ [Call_generateAnalysisResult frames \<lparr>width = width md, height = height md, duration = d, fps = 30\<rparr> p] @ tail"
      "progress w' = progress w3"
      "seeks_of tail = []" "track_calls_of tail = []" "messages_of tail = []"
      "progress_of tail = []" "frame_errors_of tail = []" "generate_calls_of tail = []"
  using pre run
proof (cases rule: run_cases)
  case (init_throws e)
  then show ?thesis by (rule that(1))
next
  case (load_error f0 p)
  then show ?thesis by (rule that(2))
next
  case (generate_throws f0 p d frames w3 e)
  show ?thesis
    by (rule that(3)[OF generate_throws(1,2,3,5,6,11)]) (simp_all add: proj_list)
next
  case (stringify_throws f0 p d frames w3 ar e)
  show ?thesis
    by (rule that(3)[OF stringify_throws(1,2,3,5,6,11)]) (simp_all add: proj_list)
next
  case (setItem_throws f0 p d frames w3 ar s e)
  show ?thesis
    by (rule that(3)[OF setItem_throws(1,2,3,5,6,11)]) (simp_all add: proj_list)
next
  case (encode_throws f0 p d frames w3 ar s e)
  show ?thesis
    by (rule that(3)[OF encode_throws(1,2,3,5,6,11)]) (simp_all add: proj_list)
next
  case (push_throws f0 p d frames w3 ar s u e)
  show ?thesis
    by (rule that(3)[OF push_throws(1,2,3,5,6,11)]) (simp_all add: proj_list)
next
  case (stored f0 p d frames w3 ar s u)
  show ?thesis
    by (rule that(3)[OF stored(1,2,3,5,6,11)]) (simp_all add: proj_list)
qed

lemma run_projections:
  assumes pre: "videoUrl w = Some url" "url \<noteq> []" "videoMetadata w = Some md"
      and init: "initializeTennisTracker env boxes (width md) (height md) = Inr (f0, p)"
      and load: "video_load env url = Loadedmetadata d"
      and run: "startTennisAnalysis env w boxes = Some w'"
  obtains frames w3 where
      "frameLoop env \<lfloor>d * 2\<rfloor> p 1 ([f0], loopStart env boxes url md w) = Some (frames, w3)"
      "seeks_of (events_since w w') = seeks_of (events_since (loopStart env boxes url md w) w3)"
      "track_calls_of (events_since w w')
         = track_calls_of (events_since (loopStart env boxes url md w) w3)"
      "messages_of (events_since w w')
         = ''Initializing tennis analysis...''
           # messages_of (events_since (loopStart env boxes url md w) w3)"
      "progress_of (events_since w w')
         = 0 # progress_of (events_since (loopStart env boxes url md w) w3)"
      "frame_errors_of (events_since w w')
         = frame_errors_of (events_since (loopStart env boxes url md w) w3)"
      "generate_calls_of (events_since w w') = [(frames, \<lparr>width = width md, height = height md, duration = d, fps = 30\<rparr>, p)]"
      "progress w' = progress w3"
  using pre run
proof (cases rule: run_shape)
  case (init_throws e)
  with init show ?thesis by simp
next
  case (load_error f0' p')
  with load show ?thesis by simp
next
  case (looped f0' p' d' frames w3 tail)
  from looped(1,2) init load have eq: "f0' = f0" "p' = p" "d' = d" by simp_all
  note loop = looped(3)[unfolded eq]
  note ev = looped(5)[unfolded eq]
  note q = frameLoop_quiet[OF loop]
  show ?thesis
  proof (rule that[OF loop])
    show "seeks_of (events_since w w') = seeks_of (events_since (loopStart env boxes url md w) w3)"
      by (simp add: ev proj_list looped(7))
    show "track_calls_of (events_since w w')
         = track_calls_of (events_since (loopStart env boxes url md w) w3)"
      by (simp add: ev proj_list looped(8))
    show "messages_of (events_since w w')
         = ''Initializing tennis analysis...''
           # messages_of (events_since (loopStart env boxes url md w) w3)"
      by (simp add: ev proj_list looped(9))
    show "progress_of (events_since w w')
         = 0 # progress_of (events_since (loopStart env boxes url md w) w3)"
      by (simp add: ev proj_list looped(10))
    show "frame_errors_of (events_since w w')
         = frame_errors_of (events_since (loopStart env boxes url md w) w3)"
      by (simp add: ev proj_list looped(11))
    show "generate_calls_of (events_since w w') = [(frames, \<lparr>width = width md, height = height md, duration = d, fps = 30\<rparr>, p)]"
      using q by (simp add: ev proj_list looped(12))
    show "progress w' = progress w3" by (rule looped(6))
  qed
qed

text \<open>
  How a run ends once \<^verbatim>\<open>generateAnalysisResult\<close> has been called: what is in local storage,
  where the page is, which writes and navigations were made and what the error state is,
  by the first of the remaining calls that throws.
\<close>

lemma run_outcome:
  assumes pre: "videoUrl w = Some url" "url \<noteq> []" "videoMetadata w = Some md"
      and run: "startTennisAnalysis env w boxes = Some w'"
      and gcall: "(frames, meta, p) \<in> set (generate_calls_of (events_since w w'))"
  shows "(case generateAnalysisResult env frames meta p of
            Inl e \<Rightarrow> localStorage w' = localStorage w \<and> route w' = route w \<and> persistent_of (events_since w w') = [] \<and> error w' = Some (if message e \<noteq> [] then message e else ''Error analyzing video'') \<and> \<not> isAnalyzing w' \<and> analysis_errors_of (events_since w w') = [e]
          | Inr r \<Rightarrow> (case JSON_stringify env r of
            Inl e \<Rightarrow> localStorage w' = localStorage w \<and> route w' = route w \<and> persistent_of (events_since w w') = [] \<and> error w' = Some (if message e \<noteq> [] then message e else ''Error analyzing video'') \<and> \<not> isAnalyzing w' \<and> analysis_errors_of (events_since w w') = [e]
          | Inr s \<Rightarrow>
              (case setItem_error env (''analysis-'' @ ''tennis-'' @ uuidv4 env) s of
                 Some e \<Rightarrow> localStorage w' = localStorage w \<and> route w' = route w \<and> persistent_of (events_since w w') = [] \<and> error w' = Some (if message e \<noteq> [] then message e else ''Error analyzing video'') \<and> \<not> isAnalyzing w' \<and> analysis_errors_of (events_since w w') = [e]
               | None \<Rightarrow>
                   (case encodeURIComponent env url of
                      Inl e \<Rightarrow> localStorage w' = (localStorage w)(''analysis-'' @ ''tennis-'' @ uuidv4 env \<mapsto> s) \<and> route w' = route w \<and> persistent_of (events_since w w') = [LocalStorage_setItem (''analysis-'' @ ''tennis-'' @ uuidv4 env) s] \<and> error w' = Some (if message e \<noteq> [] then message e else ''Error analyzing video'') \<and> \<not> isAnalyzing w' \<and> analysis_errors_of (events_since w w') = [e]
                    | Inr u \<Rightarrow>
                        (case push_error env (''/tennis/results/'' @ ''tennis-'' @ uuidv4 env @ ''?videoUrl='' @ u) of
                           Some e \<Rightarrow> localStorage w' = (localStorage w)(''analysis-'' @ ''tennis-'' @ uuidv4 env \<mapsto> s) \<and> route w' = route w \<and> persistent_of (events_since w w') = [LocalStorage_setItem (''analysis-'' @ ''tennis-'' @ uuidv4 env) s] \<and> error w' = Some (if message e \<noteq> [] then message e else ''Error analyzing video'') \<and> \<not> isAnalyzing w' \<and> analysis_errors_of (events_since w w') = [e]
                         | None \<Rightarrow> localStorage w' = (localStorage w)(''analysis-'' @ ''tennis-'' @ uuidv4 env \<mapsto> s) \<and> route w' = ''/tennis/results/'' @ ''tennis-'' @ uuidv4 env @ ''?videoUrl='' @ u \<and> persistent_of (events_since w w') = [LocalStorage_setItem (''analysis-'' @ ''tennis-'' @ uuidv4 env) s, Router_push (''/tennis/results/'' @ ''tennis-'' @ uuidv4 env @ ''?videoUrl='' @ u)] \<and> analysisId w' = Some (''tennis-'' @ uuidv4 env) \<and> error w' = None \<and> isAnalyzing w' \<and> analysis_errors_of (events_since w w') = [])))))"
  using pre run
proof (cases rule: run_cases)
  case (init_throws e)
  from gcall show ?thesis by (simp add: init_throws(3) proj_list)
next
  case (load_error f0 p')
  from gcall show ?thesis by (simp add: load_error(4) proj_list)
next
  case (generate_throws f0 p' d frames' w3 e)
  note q = frameLoop_quiet[OF generate_throws(3)] frameLoop_no_analysis_error[OF generate_throws(3)]
  from gcall q have "frames = frames' \<and> meta = \<lparr>width = width md, height = height md, duration = d, fps = 30\<rparr> \<and> p = p'"
    by (simp add: generate_throws(6) proj_list)
  moreover from q have "persistent_of (events_since w w') = persistent_of ([Console_error_analysis e,
              Set_error (Some (if message e \<noteq> [] then message e else ''Error analyzing video'')),
              Set_isAnalyzing False])"
    "analysis_errors_of (events_since w w') = analysis_errors_of ([Console_error_analysis e,
              Set_error (Some (if message e \<noteq> [] then message e else ''Error analyzing video'')),
              Set_isAnalyzing False])"
    by (simp_all add: generate_throws(6) proj_list)
  ultimately show ?thesis
    by (simp add: generate_throws(4) generate_throws(7,8,9,10) proj_list)
next
  case (stringify_throws f0 p' d frames' w3 ar e)
  note q = frameLoop_quiet[OF stringify_throws(3)] frameLoop_no_analysis_error[OF stringify_throws(3)]
  from gcall q have "frames = frames' \<and> meta = \<lparr>width = width md, height = height md, duration = d, fps = 30\<rparr> \<and> p = p'"
    by (simp add: stringify_throws(6) proj_list)
  moreover from q have "persistent_of (events_since w w') = persistent_of ([Console_error_analysis e,
              Set_error (Some (if message e \<noteq> [] then message e else ''Error analyzing video'')),
              Set_isAnalyzing False])"
    "analysis_errors_of (events_since w w') = analysis_errors_of ([Console_error_analysis e,
              Set_error (Some (if message e \<noteq> [] then message e else ''Error analyzing video'')),
              Set_isAnalyzing False])"
    by (simp_all add: stringify_throws(6) proj_list)
  ultimately show ?thesis
    using stringify_throws(12) by (simp add: stringify_throws(4) stringify_throws(7,8,9,10) proj_list)
next
  case (setItem_throws f0 p' d frames' w3 ar s e)
  note q = frameLoop_quiet[OF setItem_throws(3)] frameLoop_no_analysis_error[OF setItem_throws(3)]
  from gcall q have "frames = frames' \<and> meta = \<lparr>width = width md, height = height md, duration = d, fps = 30\<rparr> \<and> p = p'"
    by (simp add: setItem_throws(6) proj_list)
  moreover from q have "persistent_of (events_since w w') = persistent_of ([Console_error_analysis e,
              Set_error (Some (if message e \<noteq> [] then message e else ''Error analyzing video'')),
              Set_isAnalyzing False])"
    "analysis_errors_of (events_since w w') = analysis_errors_of ([Console_error_analysis e,
              Set_error (Some (if message e \<noteq> [] then message e else ''Error analyzing video'')),
              Set_isAnalyzing False])"
    by (simp_all add: setItem_throws(6) proj_list)
  ultimately show ?thesis
    using setItem_throws(12,13) by (simp add: setItem_throws(4) setItem_throws(7,8,9,10) proj_list)
next
  case (encode_throws f0 p' d frames' w3 ar s e)
  note q = frameLoop_quiet[OF encode_throws(3)] frameLoop_no_analysis_error[OF encode_throws(3)]
  from gcall q have "frames = frames' \<and> meta = \<lparr>width = width md, height = height md, duration = d, fps = 30\<rparr> \<and> p = p'"
    by (simp add: encode_throws(6) proj_list)
  moreover from q have "persistent_of (events_since w w') = persistent_of ([LocalStorage_setItem (''analysis-'' @ ''tennis-'' @ uuidv4 env) s] @ [Console_error_analysis e,
              Set_error (Some (if message e \<noteq> [] then message e else ''Error analyzing video'')),
              Set_isAnalyzing False])"
    "analysis_errors_of (events_since w w') = analysis_errors_of ([LocalStorage_setItem (''analysis-'' @ ''tennis-'' @ uuidv4 env) s] @ [Console_error_analysis e,
              Set_error (Some (if message e \<noteq> [] then message e else ''Error analyzing video'')),
              Set_isAnalyzing False])"
    by (simp_all add: encode_throws(6) proj_list)
  ultimately show ?thesis
    using encode_throws(12,13,14) by (simp add: encode_throws(4) encode_throws(7,8,9,10) proj_list)
next
  case (push_throws f0 p' d frames' w3 ar s u e)
  note q = frameLoop_quiet[OF push_throws(3)] frameLoop_no_analysis_error[OF push_throws(3)]
  from gcall q have "frames = frames' \<and> meta = \<lparr>width = width md, height = height md, duration = d, fps = 30\<rparr> \<and> p = p'"
    by (simp add: push_throws(6) proj_list)
  moreover from q have "persistent_of (events_since w w') = persistent_of ([LocalStorage_setItem (''analysis-'' @ ''tennis-'' @ uuidv4 env) s] @ [Console_error_analysis e,
              Set_error (Some (if message e \<noteq> [] then message e else ''Error analyzing video'')),
              Set_isAnalyzing False])"
    "analysis_errors_of (events_since w w') = analysis_errors_of ([LocalStorage_setItem (''analysis-'' @ ''tennis-'' @ uuidv4 env) s] @ [Console_error_analysis e,
              Set_error (Some (if message e \<noteq> [] then message e else ''Error analyzing video'')),
              Set_isAnalyzing False])"
    by (simp_all add: push_throws(6) proj_list)
  ultimately show ?thesis
    using push_throws(12,13,14,15) by (simp add: push_throws(4) push_throws(7,8,9,10) proj_list)
next
  case (stored f0 p' d frames' w3 ar s u)
  note q = frameLoop_quiet[OF stored(3)] frameLoop_no_analysis_error[OF stored(3)]
  from gcall q have "frames = frames' \<and> meta = \<lparr>width = width md, height = height md, duration = d, fps = 30\<rparr> \<and> p = p'"
    by (simp add: stored(6) proj_list)
  moreover from q have "persistent_of (events_since w w') = persistent_of ([LocalStorage_setItem (''analysis-'' @ ''tennis-'' @ uuidv4 env) s, Router_push (''/tennis/results/'' @ ''tennis-'' @ uuidv4 env @ ''?videoUrl='' @ u)])"
    "analysis_errors_of (events_since w w') = analysis_errors_of ([LocalStorage_setItem (''analysis-'' @ ''tennis-'' @ uuidv4 env) s, Router_push (''/tennis/results/'' @ ''tennis-'' @ uuidv4 env @ ''?videoUrl='' @ u)])"
    by (simp_all add: stored(6) proj_list)
  ultimately show ?thesis
    using stored(13,14,15,16) by (simp add: stored(4) stored(7,8,9,10,12) proj_list)

qed

lemma demo_run: "\<exists>w'. startTennisAnalysis demoEnv demoWorld demoBoxes = Some w'"
  by (simp add: demo_defs run_defs frameLoop.simps)

section \<open>The frame loop samples the video at two frames per second\<close>

text \<open>
  Claim C1, as amended. When the video is loaded, the tracker initialises and the metadata
  of the video element arrives with duration \<open>d\<close>, a run of \<^verbatim>\<open>startTennisAnalysis\<close> that
  returns has \<open>totalFrames = \<lfloor>d * 2\<rfloor>\<close> and visits the frame indices
  \<open>1, \<dots>, totalFrames - 1\<close> in order, seeking the video to \<open>frameIndex / 2\<close>. For every index
  whose frame is captured, and for no other, \<^verbatim>\<open>trackFrame\<close> is called, in index order, with
  that index, the timestamp \<open>frameIndex / 2\<close>, the captured image, \<^verbatim>\<open>pixelsToMeters\<close> and the
  last frame collected so far: the initial frame followed by the frames the earlier calls
  returned. The collection handed to \<^verbatim>\<open>generateAnalysisResult\<close> is the initial frame
  followed by the returned frames, in the order of the calls.
\<close>

theorem C1_frame_sampling:
  fixes d :: rat
  defines "totalFrames \<equiv> \<lfloor>d * 2\<rfloor>"
  assumes pre: "videoUrl w = Some url" "url \<noteq> []" "videoMetadata w = Some md"
      and init: "initializeTennisTracker env boxes (width md) (height md)
                   = Inr (initialFrame, pixelsToMeters)"
      and load: "video_load env url = Loadedmetadata d"
      and run: "startTennisAnalysis env w boxes = Some w'"
  shows "seeks_of (events_since w w') = map (\<lambda>k. of_int k / 2) [1..totalFrames - 1]
       \<and> map argFrameIndex (track_calls_of (events_since w w'))
           = filter (captures env) [1..totalFrames - 1]
       \<and> (\<forall>c \<in> set (track_calls_of (events_since w w')).
             argTimestamp c = of_int (argFrameIndex c) / 2
             \<and> argPixelsToMeters c = pixelsToMeters
             \<and> toDataURL env (argTimestamp c) = Inr (argFrameBase64 c))
       \<and> (\<forall>j < length (track_calls_of (events_since w w')).
             argPreviousFrame (track_calls_of (events_since w w') ! j)
               = last (initialFrame
                       # returned_frames env (take j (track_calls_of (events_since w w')))))
       \<and> map fst (generate_calls_of (events_since w w'))
           = [initialFrame # returned_frames env (track_calls_of (events_since w w'))]"
proof -
  from pre init load run obtain frames w3 where
    loop: "frameLoop env \<lfloor>d * 2\<rfloor> pixelsToMeters 1 ([initialFrame], loopStart env boxes url md w)
             = Some (frames, w3)"
    and sk: "seeks_of (events_since w w') = seeks_of (events_since (loopStart env boxes url md w) w3)"
    and tc: "track_calls_of (events_since w w')
               = track_calls_of (events_since (loopStart env boxes url md w) w3)"
    and gc: "generate_calls_of (events_since w w') = [(frames, \<lparr>width = width md, height = height md, duration = d, fps = 30\<rparr>, pixelsToMeters)]"
    by (rule run_projections)
  have 1: "seeks_of (events_since w w') = map (\<lambda>k. of_int k / 2) [1..totalFrames - 1]"
    using frameLoop_seeks[OF loop] by (simp add: sk totalFrames_def)
  have fr: "frames = initialFrame # returned_frames env (track_calls_of (events_since w w'))"
    and 2: "map argFrameIndex (track_calls_of (events_since w w'))
           = filter (captures env) [1..totalFrames - 1]"
    using frameLoop_frames[OF loop] by (simp_all add: tc totalFrames_def)
  have 3: "\<forall>c \<in> set (track_calls_of (events_since w w')).
             argTimestamp c = of_int (argFrameIndex c) / 2
             \<and> argPixelsToMeters c = pixelsToMeters
             \<and> toDataURL env (argTimestamp c) = Inr (argFrameBase64 c)"
    using frameLoop_args[OF loop] by (simp add: tc)
  have 4: "\<forall>j < length (track_calls_of (events_since w w')).
             argPreviousFrame (track_calls_of (events_since w w') ! j)
               = last (initialFrame
                       # returned_frames env (take j (track_calls_of (events_since w w'))))"
    using frameLoop_previous[OF loop] by (simp add: tc)
  have 5: "map fst (generate_calls_of (events_since w w'))
           = [initialFrame # returned_frames env (track_calls_of (events_since w w'))]"
    using fr by (simp add: gc)
  from 1 2 3 4 5 show ?thesis by (intro conjI)
qed

theorem C1_frame_sampling_witness:
  "\<exists>w'. startTennisAnalysis demoEnv demoWorld demoBoxes = Some w'
     \<and> seeks_of (events_since demoWorld w') = [1 / 2, 1]
     \<and> map argFrameIndex (track_calls_of (events_since demoWorld w')) = [1, 2]
     \<and> map fst (generate_calls_of (events_since demoWorld w'))
         = [0 # returned_frames demoEnv (track_calls_of (events_since demoWorld w'))]"
proof -
  from demo_run obtain w' where run: "startTennisAnalysis demoEnv demoWorld demoBoxes = Some w'" ..
  have pre: "videoUrl demoWorld = Some ''blob:video''" "''blob:video'' \<noteq> []"
    "videoMetadata demoWorld = Some \<lparr>width = 640, height = 360, duration = 3 / 2\<rparr>"
    by (simp_all add: demoWorld_def)
  have init: "initializeTennisTracker demoEnv demoBoxes
                (width \<lparr>width = 640, height = 360, duration = 3 / 2\<rparr>)
                (height \<lparr>width = 640, height = 360, duration = 3 / 2\<rparr>) = Inr (0, 1 / 50)"
    by (simp add: demoEnv_def)
  have load: "video_load demoEnv ''blob:video'' = Loadedmetadata (3 / 2)"
    by (simp add: demoEnv_def)
  have cap: "filter (captures demoEnv) [1..2] = [1, 2]"
    by (simp add: captures_def demoEnv_def upto_rec1)
  from C1_frame_sampling[OF pre init load run] cap run show ?thesis
    by (simp add: upto_rec1)
qed

text \<open>
  The canvas gives no context for the frame at index 1 of a three-frame video: the index is
  visited and sought, but \<^verbatim>\<open>trackFrame\<close> is not called with it and no frame is appended for
  it; the only call is the one at index 2.
\<close>

theorem C1_uncaptured_frame_counterexample:
  "\<exists>w'. startTennisAnalysis noCanvasEnv demoWorld demoBoxes = Some w'
     \<and> seeks_of (events_since demoWorld w') = [1 / 2, 1]
     \<and> track_calls_of (events_since demoWorld w')
         = [TrackCall ''data:image/jpeg;base64,'' 2 1 0 (1 / 50)]
     \<and> frame_errors_of (events_since demoWorld w')
         = [(1 / 2, JsError ''Could not get canvas context'')]
     \<and> map fst (generate_calls_of (events_since demoWorld w')) = [[0, 1]]"
  by (simp add: noCanvasEnv_def demo_defs run_defs frameLoop.simps events_since_def proj_defs)

section \<open>The progress message follows the frame index\<close>

lemma phase_progressMessage:
  "phase (progressMessage n i)
     = (if of_int i < (of_int n :: rat) * (3 / 10) then 1
        else if of_int i < (of_int n :: rat) * (6 / 10) then 2 else 3)"
  by (simp add: phase_def progressMessage_def)

lemma phase_mono: "i \<le> j \<Longrightarrow> phase (progressMessage n i) \<le> phase (progressMessage n j)"
  by (simp add: phase_progressMessage)

lemma phases_sorted: "sorted (map phase (map (progressMessage n) [i..j]))"
proof -
  have "sorted_wrt (\<lambda>x y. phase (progressMessage n x) \<le> phase (progressMessage n y)) [i..j]"
    by (rule sorted_wrt_mono_rel[OF _ sorted_upto]) (rule phase_mono)
  then show ?thesis by (simp add: sorted_map comp_def)
qed

text \<open>
  Claim C6. The messages set during a run that reaches the loop are the initial message
  followed, for the indices \<open>1, \<dots>, totalFrames - 1\<close> in order, by the message of the index:
  \<^verbatim>\<open>Extracting video frames...\<close> while the index is below three tenths of \<open>totalFrames\<close>,
  \<^verbatim>\<open>Tracking player and ball...\<close> from there while it is below six tenths, and
  \<^verbatim>\<open>Analyzing player performance...\<close> otherwise. The phase of the message never decreases
  as the index grows, so the messages of the loop are in the order of their phases.
\<close>

theorem C6_progress_message:
  fixes d :: rat
  defines "totalFrames \<equiv> \<lfloor>d * 2\<rfloor>"
  assumes pre: "videoUrl w = Some url" "url \<noteq> []" "videoMetadata w = Some md"
      and init: "initializeTennisTracker env boxes (width md) (height md)
                   = Inr (initialFrame, pixelsToMeters)"
      and load: "video_load env url = Loadedmetadata d"
      and run: "startTennisAnalysis env w boxes = Some w'"
  shows "messages_of (events_since w w')
           = ''Initializing tennis analysis...''
             # map (progressMessage totalFrames) [1..totalFrames - 1]
       \<and> (\<forall>i. (rat_of_int i < 3 / 10 * rat_of_int totalFrames
                  \<longrightarrow> progressMessage totalFrames i = ''Extracting video frames...'')
              \<and> (3 / 10 * rat_of_int totalFrames \<le> rat_of_int i
                  \<and> rat_of_int i < 6 / 10 * rat_of_int totalFrames
                  \<longrightarrow> progressMessage totalFrames i = ''Tracking player and ball...'')
              \<and> (3 / 10 * rat_of_int totalFrames \<le> rat_of_int i
                  \<and> 6 / 10 * rat_of_int totalFrames \<le> rat_of_int i
                  \<longrightarrow> progressMessage totalFrames i = ''Analyzing player performance...''))
       \<and> (\<forall>i j. i \<le> j
              \<longrightarrow> phase (progressMessage totalFrames i) \<le> phase (progressMessage totalFrames j))
       \<and> sorted (map phase (map (progressMessage totalFrames) [1..totalFrames - 1]))"
proof -
  from pre init load run obtain frames w3 where
    loop: "frameLoop env \<lfloor>d * 2\<rfloor> pixelsToMeters 1 ([initialFrame], loopStart env boxes url md w)
             = Some (frames, w3)"
    and ms: "messages_of (events_since w w')
         = ''Initializing tennis analysis...''
           # messages_of (events_since (loopStart env boxes url md w) w3)"
    by (rule run_projections)
  have 1: "messages_of (events_since w w')
           = ''Initializing tennis analysis...''
             # map (progressMessage totalFrames) [1..totalFrames - 1]"
    using frameLoop_messages[OF loop] by (simp add: ms totalFrames_def)
  have 2: "\<forall>i. (rat_of_int i < 3 / 10 * rat_of_int totalFrames
                  \<longrightarrow> progressMessage totalFrames i = ''Extracting video frames...'')
              \<and> (3 / 10 * rat_of_int totalFrames \<le> rat_of_int i
                  \<and> rat_of_int i < 6 / 10 * rat_of_int totalFrames
                  \<longrightarrow> progressMessage totalFrames i = ''Tracking player and ball...'')
              \<and> (3 / 10 * rat_of_int totalFrames \<le> rat_of_int i
                  \<and> 6 / 10 * rat_of_int totalFrames \<le> rat_of_int i
                  \<longrightarrow> progressMessage totalFrames i = ''Analyzing player performance...'')"
    by (simp add: progressMessage_def mult.commute not_less)
  have 3: "\<forall>i j. i \<le> j
              \<longrightarrow> phase (progressMessage totalFrames i) \<le> phase (progressMessage totalFrames j)"
    by (simp add: phase_mono)
  from 1 2 3 phases_sorted[of totalFrames 1 "totalFrames - 1"] show ?thesis by (intro conjI)
qed

theorem C6_progress_message_witness:
  "\<exists>w'. startTennisAnalysis demoEnv demoWorld demoBoxes = Some w'
     \<and> messages_of (events_since demoWorld w')
         = [''Initializing tennis analysis...'', ''Tracking player and ball...'',
            ''Analyzing player performance...'']
     \<and> progressMessage 10 2 = ''Extracting video frames...''
     \<and> phase (progressMessage 10 2) \<le> phase (progressMessage 10 7)"
proof -
  from demo_run obtain w' where run: "startTennisAnalysis demoEnv demoWorld demoBoxes = Some w'" ..
  have pre: "videoUrl demoWorld = Some ''blob:video''" "''blob:video'' \<noteq> []"
    "videoMetadata demoWorld = Some \<lparr>width = 640, height = 360, duration = 3 / 2\<rparr>"
    by (simp_all add: demoWorld_def)
  have init: "initializeTennisTracker demoEnv demoBoxes
                (width \<lparr>width = 640, height = 360, duration = 3 / 2\<rparr>)
                (height \<lparr>width = 640, height = 360, duration = 3 / 2\<rparr>) = Inr (0, 1 / 50)"
    by (simp add: demoEnv_def)
  have load: "video_load demoEnv ''blob:video'' = Loadedmetadata (3 / 2)"
    by (simp add: demoEnv_def)
  have "messages_of (events_since demoWorld w')
           = ''Initializing tennis analysis...'' # map (progressMessage 3) [1..2]"
    using C6_progress_message[OF pre init load run] by simp
  with run show ?thesis
    by (simp add: upto_rec1 progressMessage_def phase_def)
qed

section \<open>The progress value stays below one hundred\<close>

lemma percent_bounds:
  assumes "1 \<le> k" and "k \<le> n - 1"
  shows "0 \<le> rat_of_int k / rat_of_int n * 100" and "rat_of_int k / rat_of_int n * 100 < 100"
proof -
  from assms have n: "0 < rat_of_int n" and kn: "rat_of_int k < rat_of_int n"
    and k: "0 \<le> rat_of_int k" by simp_all
  from n k show "0 \<le> rat_of_int k / rat_of_int n * 100" by simp
  from n kn show "rat_of_int k / rat_of_int n * 100 < 100" by (simp add: field_simps)
qed

lemma Math_round_below:
  assumes "v < 100"
  shows "Math_round v \<le> 100"
proof -
  from assms have "v + 1 / 2 < rat_of_int 101" by simp
  then have "\<lfloor>v + 1 / 2\<rfloor> < 101" by (simp only: floor_less_iff)
  then show ?thesis by (simp add: Math_round_def)
qed

lemma Math_round_100_iff:
  assumes "v < 100"
  shows "Math_round v = 100 \<longleftrightarrow> 199 / 2 \<le> v"
proof -
  have "\<lfloor>v + 1 / 2\<rfloor> = 100 \<longleftrightarrow> rat_of_int 100 \<le> v + 1 / 2 \<and> v + 1 / 2 < rat_of_int 100 + 1"
    by (rule floor_eq_iff)
  with assms show ?thesis by (auto simp: Math_round_def)
qed

text \<open>
  Claim C10, as amended. In a run that reaches the loop the progress is set to \<open>0\<close> and
  then, in the order of the loop, to \<open>frameIndex / totalFrames * 100\<close> once for every call of
  \<^verbatim>\<open>trackFrame\<close> that resolves, with the frame index of that call; the calls are those of the
  indices between \<open>1\<close> and \<open>totalFrames - 1\<close> whose frame is captured, so that when no frame
  fails the values are those of all the indices \<open>1, \<dots>, totalFrames - 1\<close>. Every value
  set, and the progress the run ends with (the last value set, the width of the bar), is at
  least \<open>0\<close> and strictly below \<open>100\<close>. The label \<^verbatim>\<open>Math.round(progress)\<close> is at most \<open>100\<close>
  and reads \<open>100\<close> exactly when the progress is \<open>99.5\<close> or more.
\<close>

theorem C10_progress_below_100:
  fixes d :: rat
  defines "totalFrames \<equiv> \<lfloor>d * 2\<rfloor>"
  assumes pre: "videoUrl w = Some url" "url \<noteq> []" "videoMetadata w = Some md"
      and init: "initializeTennisTracker env boxes (width md) (height md)
                   = Inr (initialFrame, pixelsToMeters)"
      and load: "video_load env url = Loadedmetadata d"
      and run: "startTennisAnalysis env w boxes = Some w'"
  shows "progress_of (events_since w w')
           = 0 # map (\<lambda>c. rat_of_int (argFrameIndex c) / rat_of_int totalFrames * 100)
                   (filter (resolves env) (track_calls_of (events_since w w')))
       \<and> map argFrameIndex (track_calls_of (events_since w w'))
           = filter (captures env) [1..totalFrames - 1]
       \<and> ((\<forall>k. captures env k) \<and> (\<forall>c. resolves env c) \<longrightarrow>
            progress_of (events_since w w')
              = 0 # map (\<lambda>k. rat_of_int k / rat_of_int totalFrames * 100) [1..totalFrames - 1])
       \<and> (\<forall>v \<in> set (progress_of (events_since w w')).
             0 \<le> v \<and> v < 100 \<and> Math_round v \<le> 100 \<and> (Math_round v = 100 \<longleftrightarrow> 199 / 2 \<le> v))
       \<and> progress w' = last (progress_of (events_since w w'))
       \<and> 0 \<le> progress w' \<and> progress w' < 100 \<and> progressLabel w' \<le> 100
       \<and> (progressLabel w' = 100 \<longleftrightarrow> 199 / 2 \<le> progress w')"
proof -
  from pre init load run obtain frames w3 where
    loop: "frameLoop env \<lfloor>d * 2\<rfloor> pixelsToMeters 1 ([initialFrame], loopStart env boxes url md w)
             = Some (frames, w3)"
    and tc: "track_calls_of (events_since w w')
               = track_calls_of (events_since (loopStart env boxes url md w) w3)"
    and pr: "progress_of (events_since w w')
         = 0 # progress_of (events_since (loopStart env boxes url md w) w3)"
    and pw: "progress w' = progress w3"
    by (rule run_projections)
  have 1: "progress_of (events_since w w')
           = 0 # map (\<lambda>c. rat_of_int (argFrameIndex c) / rat_of_int totalFrames * 100)
                   (filter (resolves env) (track_calls_of (events_since w w')))"
    using frameLoop_progress_exact[OF loop] by (simp add: pr tc totalFrames_def)
  have 2: "map argFrameIndex (track_calls_of (events_since w w'))
           = filter (captures env) [1..totalFrames - 1]"
    using frameLoop_frames[OF loop] by (simp add: tc totalFrames_def)
  have 3: "(\<forall>k. captures env k) \<and> (\<forall>c. resolves env c) \<longrightarrow>
            progress_of (events_since w w')
              = 0 # map (\<lambda>k. rat_of_int k / rat_of_int totalFrames * 100) [1..totalFrames - 1]"
  proof
    assume a: "(\<forall>k. captures env k) \<and> (\<forall>c. resolves env c)"
    with 2 have i: "map argFrameIndex (track_calls_of (events_since w w')) = [1..totalFrames - 1]"
      by simp
    have "map (\<lambda>c. rat_of_int (argFrameIndex c) / rat_of_int totalFrames * 100)
            (track_calls_of (events_since w w'))
        = map (\<lambda>k. rat_of_int k / rat_of_int totalFrames * 100)
            (map argFrameIndex (track_calls_of (events_since w w')))"
      by simp
    also have "\<dots> = map (\<lambda>k. rat_of_int k / rat_of_int totalFrames * 100) [1..totalFrames - 1]"
      by (simp only: i)
    finally have m: "map (\<lambda>c. rat_of_int (argFrameIndex c) / rat_of_int totalFrames * 100)
            (track_calls_of (events_since w w'))
        = map (\<lambda>k. rat_of_int k / rat_of_int totalFrames * 100) [1..totalFrames - 1]" .
    from a have "filter (resolves env) (track_calls_of (events_since w w'))
                   = track_calls_of (events_since w w')"
      by simp
    with 1 m show "progress_of (events_since w w')
              = 0 # map (\<lambda>k. rat_of_int k / rat_of_int totalFrames * 100) [1..totalFrames - 1]"
      by simp
  qed
  have bound: "0 \<le> v \<and> v < 100" if "v \<in> set (progress_of (events_since w w'))" for v
  proof (cases "v = 0")
    case True
    then show ?thesis by simp
  next
    case False
    with that obtain c where c: "c \<in> set (track_calls_of (events_since w w'))"
      and v: "v = rat_of_int (argFrameIndex c) / rat_of_int totalFrames * 100"
      unfolding 1 by auto
    from c have "argFrameIndex c \<in> set (map argFrameIndex (track_calls_of (events_since w w')))"
      by auto
    then have "argFrameIndex c \<in> {1..totalFrames - 1}" unfolding 2 by simp
    then have "1 \<le> argFrameIndex c" "argFrameIndex c \<le> totalFrames - 1" by simp_all
    from percent_bounds[OF this] show ?thesis by (simp add: v)
  qed
  have 4: "\<forall>v \<in> set (progress_of (events_since w w')).
             0 \<le> v \<and> v < 100 \<and> Math_round v \<le> 100 \<and> (Math_round v = 100 \<longleftrightarrow> 199 / 2 \<le> v)"
  proof
    fix v assume "v \<in> set (progress_of (events_since w w'))"
    from bound[OF this] have b: "0 \<le> v" "v < 100" by simp_all
    from b Math_round_below[OF b(2)] Math_round_100_iff[OF b(2)]
    show "0 \<le> v \<and> v < 100 \<and> Math_round v \<le> 100 \<and> (Math_round v = 100 \<longleftrightarrow> 199 / 2 \<le> v)"
      by simp
  qed
  have 5: "progress w' = last (progress_of (events_since w w'))"
    using frameLoop_progress_last[OF loop] by (simp add: pw pr loopStart_fields)
  have "progress w' \<in> set (progress_of (events_since w w'))"
    unfolding 5 by (rule last_in_set) (simp add: pr)
  from bound[OF this] have 6: "0 \<le> progress w'" "progress w' < 100" by simp_all
  from Math_round_below[OF 6(2)] have 7: "progressLabel w' \<le> 100" by (simp add: progressLabel_def)
  from Math_round_100_iff[OF 6(2)] have 8: "progressLabel w' = 100 \<longleftrightarrow> 199 / 2 \<le> progress w'"
    by (simp add: progressLabel_def)
  from 1 2 3 4 5 6 7 8 show ?thesis by (intro conjI)
qed

theorem C10_progress_below_100_witness:
  "\<exists>w'. startTennisAnalysis demoEnv demoWorld demoBoxes = Some w'
     \<and> progress_of (events_since demoWorld w') = 0 # map (\<lambda>k. rat_of_int k / 3 * 100) [1..2]
     \<and> progress w' = last (progress_of (events_since demoWorld w'))
     \<and> 0 \<le> progress w' \<and> progress w' < 100 \<and> progressLabel w' \<le> 100"
proof -
  from demo_run obtain w' where run: "startTennisAnalysis demoEnv demoWorld demoBoxes = Some w'" ..
  have pre: "videoUrl demoWorld = Some ''blob:video''" "''blob:video'' \<noteq> []"
    "videoMetadata demoWorld = Some \<lparr>width = 640, height = 360, duration = 3 / 2\<rparr>"
    by (simp_all add: demoWorld_def)
  have init: "initializeTennisTracker demoEnv demoBoxes
                (width \<lparr>width = 640, height = 360, duration = 3 / 2\<rparr>)
                (height \<lparr>width = 640, height = 360, duration = 3 / 2\<rparr>) = Inr (0, 1 / 50)"
    by (simp add: demoEnv_def)
  have load: "video_load demoEnv ''blob:video'' = Loadedmetadata (3 / 2)"
    by (simp add: demoEnv_def)
  have all: "(\<forall>k. captures demoEnv k) \<and> (\<forall>c. resolves demoEnv c)"
    by (simp add: captures_def resolves_def answer_def demoEnv_def)
  note t = C10_progress_below_100[OF pre init load run]
  have p: "progress_of (events_since demoWorld w') = 0 # map (\<lambda>k. rat_of_int k / 3 * 100) [1..2]"
    using t[THEN conjunct2, THEN conjunct2, THEN conjunct1] all by simp
  note r = t[THEN conjunct2, THEN conjunct2, THEN conjunct2, THEN conjunct2]
  have l1: "progress w' = last (progress_of (events_since demoWorld w'))"
    by (rule r[THEN conjunct1])
  have l2: "0 \<le> progress w'" by (rule r[THEN conjunct2, THEN conjunct1])
  have l3: "progress w' < 100" by (rule r[THEN conjunct2, THEN conjunct2, THEN conjunct1])
  have l4: "progressLabel w' \<le> 100"
    by (rule r[THEN conjunct2, THEN conjunct2, THEN conjunct2, THEN conjunct1])
  from run p l1 l2 l3 l4 show ?thesis by (intro exI[of _ w'] conjI)
qed

section \<open>Runs in which every frame is captured and tracked\<close>

lemma start_returns:
  assumes pre: "videoUrl w = Some url" "url \<noteq> []" "videoMetadata w = Some md"
      and init: "initializeTennisTracker env boxes (width md) (height md) = Inr (f0, p)"
      and load: "video_load env url = Loadedmetadata d"
      and seek: "\<And>k. seeked env (rat_of_int k / 2)"
      and settle: "\<And>b k f. trackFrame env b k (rat_of_int k / 2) f p \<noteq> Pending"
  shows "\<exists>w'. startTennisAnalysis env w boxes = Some w'"
proof -
  have "\<exists>st'. frameLoop env \<lfloor>d * 2\<rfloor> p 1
                 ([f0], emit (Video_load url)
                    (emit (Call_initializeTennisTracker boxes (width md) (height md))
                       (analysisStarted env boxes w))) = Some st'"
    by (rule frameLoop_returns) (simp_all add: seek settle)
  then obtain st' where "frameLoop env \<lfloor>d * 2\<rfloor> p 1
                 ([f0], emit (Video_load url)
                    (emit (Call_initializeTennisTracker boxes (width md) (height md))
                       (analysisStarted env boxes w))) = Some st'" ..
  then show ?thesis
    by (simp add: start_unfold[OF pre] analysisBody_def Let_def init load
          split: sum.splits prod.splits)
qed

lemma frameLoop_progress_all:
  assumes loop: "frameLoop env n p i st = Some st'"
      and cap: "\<And>k. captures env k"
      and res: "\<And>c. \<exists>f. answer env c = Resolved f"
  shows "progress_of (events_since (snd st) (snd st'))
           = map (\<lambda>k. rat_of_int k / rat_of_int n * 100) [i..n - 1]"
  using loop
proof (rule frameLoop_rule)
  fix k :: int and s :: "'a list \<times> ('a, 'b) World"
  assume "\<not> k < n"
  then show "progress_of (events_since (snd s) (snd s))
           = map (\<lambda>k. rat_of_int k / rat_of_int n * 100) [k..n - 1]"
    by (simp add: events_since_self progress_of_def)
next
  fix k and s s1 s2 :: "'a list \<times> ('a, 'b) World"
  assume k: "k < n" and pf: "processFrame env n p k s = Some s1"
    and fl: "frameLoop env n p (k + 1) s1 = Some s2"
    and ih: "progress_of (events_since (snd s1) (snd s2))
           = map (\<lambda>k. rat_of_int k / rat_of_int n * 100) [k + 1..n - 1]"
  define c where "c = TrackCall (case toDataURL env (of_int k / 2) of Inr b \<Rightarrow> b | Inl e \<Rightarrow> [])
                      k (of_int k / 2) (last (fst s)) p"
  from res obtain f where f: "answer env c = Resolved f" by blast
  have cs: "track_calls_of (events_since (snd s) (snd s1)) = [c]"
    using processFrame_step_calls(1)[OF pf] cap by (simp add: c_def)
  have "returned_frames env [c] = [f]" by (simp add: returned_frames_def f)
  with processFrame_step_calls(4)[OF pf]
  have p1: "progress_of (events_since (snd s) (snd s1)) = [rat_of_int k / rat_of_int n * 100]"
    by (simp add: cs)
  have "progress_of (events_since (snd s) (snd s2))
          = progress_of (events_since (snd s) (snd s1)) @ progress_of (events_since (snd s1) (snd s2))"
    by (simp add: loop_split[OF pf fl] progress_of_def map_filter_app)
  then show "progress_of (events_since (snd s) (snd s2))
           = map (\<lambda>k. rat_of_int k / rat_of_int n * 100) [k..n - 1]"
    by (simp add: p1 ih upto_step[OF k])
qed

lemma demo_pre:
  "videoUrl demoWorld = Some ''blob:video''" "''blob:video'' \<noteq> []"
  "videoMetadata demoWorld = Some \<lparr>width = 640, height = 360, duration = 3 / 2\<rparr>"
  by (simp_all add: demoWorld_def)

text \<open>
  The label can read one hundred while the loop is still running. In a video of two hundred
  seconds whose four hundred frames are all processed, the progress is set to \<open>99.5\<close> at
  frame index 398, which \<^verbatim>\<open>Math.round\<close> shows as \<open>100\<close>, and the run ends with the progress
  \<open>99.75\<close> and the label \<open>100\<close>.
\<close>

theorem C10_label_counterexample:
  "\<exists>w'. startTennisAnalysis longEnv demoWorld demoBoxes = Some w'
     \<and> 199 / 2 \<in> set (progress_of (events_since demoWorld w'))
     \<and> Math_round (199 / 2) = 100
     \<and> progress w' = 399 / 4
     \<and> progressLabel w' = 100"
proof -
  have init: "initializeTennisTracker longEnv demoBoxes
                (width \<lparr>width = 640, height = 360, duration = 3 / 2\<rparr>)
                (height \<lparr>width = 640, height = 360, duration = 3 / 2\<rparr>) = Inr (0, 1 / 50)"
    by (simp add: longEnv_def demoEnv_def)
  have load: "video_load longEnv ''blob:video'' = Loadedmetadata 200"
    by (simp add: longEnv_def)
  have "\<exists>w'. startTennisAnalysis longEnv demoWorld demoBoxes = Some w'"
    by (rule start_returns[OF demo_pre init load]) (simp_all add: longEnv_def demoEnv_def)
  then obtain w' where run: "startTennisAnalysis longEnv demoWorld demoBoxes = Some w'" ..
  from demo_pre init load run obtain frames w3 where
    loop: "frameLoop longEnv \<lfloor>(200 :: rat) * 2\<rfloor> (1 / 50) 1
             ([0], loopStart longEnv demoBoxes ''blob:video''
                     \<lparr>width = 640, height = 360, duration = 3 / 2\<rparr> demoWorld)
             = Some (frames, w3)"
    and pr: "progress_of (events_since demoWorld w')
         = 0 # progress_of (events_since (loopStart longEnv demoBoxes ''blob:video''
                     \<lparr>width = 640, height = 360, duration = 3 / 2\<rparr> demoWorld) w3)"
    and pw: "progress w' = progress w3"
    by (rule run_projections)
  have all: "progress_of (events_since (loopStart longEnv demoBoxes ''blob:video''
                     \<lparr>width = 640, height = 360, duration = 3 / 2\<rparr> demoWorld) w3)
               = map (\<lambda>k. rat_of_int k / 400 * 100) [1..399]"
    using frameLoop_progress_all[OF loop]
    by (simp add: captures_def answer_def longEnv_def demoEnv_def)
  from frameLoop_progress[OF loop] obtain ks where
    ks: "map (\<lambda>k. rat_of_int k / 400 * 100) [1..399] = map (\<lambda>k. rat_of_int k / 400 * 100) ks"
    and lst: "progress w3 = last (0 # map (\<lambda>k. rat_of_int k / 400 * 100) ks)"
    by (auto simp: all loopStart_fields)
  have split: "[1..399] = [1..398] @ [399 :: int]"
    by (subst upto_rec2) simp_all
  have fin: "progress w' = 399 / 4"
    unfolding pw lst ks[symmetric] split by simp
  have mem: "199 / 2 \<in> set (progress_of (events_since demoWorld w'))"
  proof -
    have "rat_of_int 398 / 400 * 100 \<in> (\<lambda>k. rat_of_int k / 400 * 100) ` {1..399}"
      by (rule imageI) simp
    then show ?thesis by (simp add: pr all)
  qed
  have r1: "Math_round (199 / 2) = 100" by (simp add: Math_round_def)
  have "\<lfloor>(401 / 4 :: rat)\<rfloor> = 100" by (rule floor_unique) simp_all
  then have r2: "progressLabel w' = 100" by (simp add: progressLabel_def fin Math_round_def)
  from run mem r1 fin r2 show ?thesis by blast
qed

section \<open>A frame that fails is skipped and the loop goes on\<close>

lemma flaky_run: "\<exists>w'. startTennisAnalysis flakyEnv demoWorld demoBoxes = Some w'"
  by (simp add: flakyEnv_def demo_defs run_defs frameLoop.simps)

text \<open>
  Claim C4, as amended. The only failure handling of the frame loop is to skip the frame.
  Every index \<open>1, \<dots>, totalFrames - 1\<close> is sought exactly once, in order (no frame is tried
  again). The console lines of the inner \<^verbatim>\<open>catch\<close> and the frames handed to
  \<^verbatim>\<open>generateAnalysisResult\<close> are those of \<open>skipFailed\<close>: an index whose frame arrives appends
  that frame, an index that throws logs its timestamp with the error thrown and adds
  nothing, and the next index follows either way; so every index adds one frame or one
  console line. The run goes on to \<^verbatim>\<open>generateAnalysisResult\<close> with the frames collected,
  and when that and the four calls after it (serialising, writing, encoding, navigating) do
  not throw, the error state stays empty, no error reaches the outer \<^verbatim>\<open>catch\<close>, and the
  result is stored and shown, whatever the number of frames that failed.
\<close>

theorem C4_frame_errors_skipped:
  fixes d :: rat
  defines "totalFrames \<equiv> \<lfloor>d * 2\<rfloor>"
  assumes pre: "videoUrl w = Some url" "url \<noteq> []" "videoMetadata w = Some md"
      and init: "initializeTennisTracker env boxes (width md) (height md)
                   = Inr (initialFrame, pixelsToMeters)"
      and load: "video_load env url = Loadedmetadata d"
      and run: "startTennisAnalysis env w boxes = Some w'"
  shows "seeks_of (events_since w w') = map (\<lambda>k. rat_of_int k / 2) [1..totalFrames - 1]
       \<and> frame_errors_of (events_since w w') = fst (skipFailed env pixelsToMeters [1..totalFrames - 1] [initialFrame])
       \<and> generate_calls_of (events_since w w')
           = [(snd (skipFailed env pixelsToMeters [1..totalFrames - 1] [initialFrame]),
               \<lparr>width = width md, height = height md, duration = d, fps = 30\<rparr>, pixelsToMeters)]
       \<and> length (snd (skipFailed env pixelsToMeters [1..totalFrames - 1] [initialFrame]))
           + length (frame_errors_of (events_since w w')) = 1 + length [1..totalFrames - 1]
       \<and> (\<forall>ar s u.
             generateAnalysisResult env (snd (skipFailed env pixelsToMeters [1..totalFrames - 1] [initialFrame]))
                 \<lparr>width = width md, height = height md, duration = d, fps = 30\<rparr> pixelsToMeters = Inr ar
           \<and> JSON_stringify env ar = Inr s
           \<and> setItem_error env (''analysis-'' @ ''tennis-'' @ uuidv4 env) s = None
           \<and> encodeURIComponent env url = Inr u
           \<and> push_error env (''/tennis/results/'' @ ''tennis-'' @ uuidv4 env @ ''?videoUrl='' @ u) = None \<longrightarrow>
             error w' = None
           \<and> analysis_errors_of (events_since w w') = []
           \<and> localStorage w' (''analysis-'' @ ''tennis-'' @ uuidv4 env) = Some s
           \<and> route w' = ''/tennis/results/'' @ ''tennis-'' @ uuidv4 env @ ''?videoUrl='' @ u)"
proof -
  from pre init load run obtain frames w3 where
    loop: "frameLoop env \<lfloor>d * 2\<rfloor> pixelsToMeters 1 ([initialFrame], loopStart env boxes url md w)
             = Some (frames, w3)"
    and sk: "seeks_of (events_since w w') = seeks_of (events_since (loopStart env boxes url md w) w3)"
    and tc: "track_calls_of (events_since w w')
               = track_calls_of (events_since (loopStart env boxes url md w) w3)"
    and fe: "frame_errors_of (events_since w w')
         = frame_errors_of (events_since (loopStart env boxes url md w) w3)"
    and gc: "generate_calls_of (events_since w w') = [(frames, \<lparr>width = width md, height = height md, duration = d, fps = 30\<rparr>, pixelsToMeters)]"
    by (rule run_projections)
  have sf: "skipFailed env pixelsToMeters [1..totalFrames - 1] [initialFrame]
              = (frame_errors_of (events_since w w'), frames)"
    using frameLoop_skip[OF loop] by (simp add: fe totalFrames_def)
  have 1: "seeks_of (events_since w w') = map (\<lambda>k. rat_of_int k / 2) [1..totalFrames - 1]"
    using frameLoop_seeks[OF loop] by (simp add: sk totalFrames_def)
  have 2: "frame_errors_of (events_since w w') = fst (skipFailed env pixelsToMeters [1..totalFrames - 1] [initialFrame])"
    by (simp add: sf)
  have 3: "generate_calls_of (events_since w w')
           = [(snd (skipFailed env pixelsToMeters [1..totalFrames - 1] [initialFrame]),
               \<lparr>width = width md, height = height md, duration = d, fps = 30\<rparr>, pixelsToMeters)]"
    by (simp add: sf gc)
  have fr: "frames = initialFrame # returned_frames env (track_calls_of (events_since w w'))"
    using frameLoop_frames[OF loop] by (simp add: tc)
  have "length frames + length (frame_errors_of (events_since w w'))
               = 1 + length [1..totalFrames - 1]"
    using frameLoop_count[OF loop] by (simp add: fr fe tc totalFrames_def)
  then have 4: "length (snd (skipFailed env pixelsToMeters [1..totalFrames - 1] [initialFrame]))
           + length (frame_errors_of (events_since w w')) = 1 + length [1..totalFrames - 1]"
    by (simp add: sf)
  have mem: "(frames, \<lparr>width = width md, height = height md, duration = d, fps = 30\<rparr>, pixelsToMeters)
               \<in> set (generate_calls_of (events_since w w'))"
    by (simp add: gc)
  have 5: "\<forall>ar s u.
             generateAnalysisResult env (snd (skipFailed env pixelsToMeters [1..totalFrames - 1] [initialFrame]))
                 \<lparr>width = width md, height = height md, duration = d, fps = 30\<rparr> pixelsToMeters = Inr ar
           \<and> JSON_stringify env ar = Inr s
           \<and> setItem_error env (''analysis-'' @ ''tennis-'' @ uuidv4 env) s = None
           \<and> encodeURIComponent env url = Inr u
           \<and> push_error env (''/tennis/results/'' @ ''tennis-'' @ uuidv4 env @ ''?videoUrl='' @ u) = None \<longrightarrow>
             error w' = None
           \<and> analysis_errors_of (events_since w w') = []
           \<and> localStorage w' (''analysis-'' @ ''tennis-'' @ uuidv4 env) = Some s
           \<and> route w' = ''/tennis/results/'' @ ''tennis-'' @ uuidv4 env @ ''?videoUrl='' @ u"
  proof (intro allI impI)
    fix ar s u
    assume a: "generateAnalysisResult env (snd (skipFailed env pixelsToMeters [1..totalFrames - 1] [initialFrame]))
                 \<lparr>width = width md, height = height md, duration = d, fps = 30\<rparr> pixelsToMeters = Inr ar
           \<and> JSON_stringify env ar = Inr s
           \<and> setItem_error env (''analysis-'' @ ''tennis-'' @ uuidv4 env) s = None
           \<and> encodeURIComponent env url = Inr u
           \<and> push_error env (''/tennis/results/'' @ ''tennis-'' @ uuidv4 env @ ''?videoUrl='' @ u) = None"
    then have g: "generateAnalysisResult env frames \<lparr>width = width md, height = height md, duration = d, fps = 30\<rparr> pixelsToMeters = Inr ar"
      by (simp add: sf)
    from a run_outcome[OF pre run mem]
    show "error w' = None
           \<and> analysis_errors_of (events_since w w') = []
           \<and> localStorage w' (''analysis-'' @ ''tennis-'' @ uuidv4 env) = Some s
           \<and> route w' = ''/tennis/results/'' @ ''tennis-'' @ uuidv4 env @ ''?videoUrl='' @ u"
      by (simp add: g)
  qed
  from 1 2 3 4 5 show ?thesis by (intro conjI)
qed

theorem C4_frame_errors_skipped_witness:
  "\<exists>w'. startTennisAnalysis flakyEnv demoWorld demoBoxes = Some w'
     \<and> seeks_of (events_since demoWorld w') = [1 / 2, 1]
     \<and> frame_errors_of (events_since demoWorld w') = [(1 / 2, JsError ''tracking failed'')]
     \<and> generate_calls_of (events_since demoWorld w')
         = [([0, 1], \<lparr>width = 640, height = 360, duration = 3 / 2, fps = 30\<rparr>, 1 / 50)]
     \<and> error w' = None
     \<and> localStorage w' ''analysis-tennis-1b4e28ba'' = Some ''II''
     \<and> route w' = ''/tennis/results/tennis-1b4e28ba?videoUrl=blob:video''"
proof -
  from flaky_run obtain w' where run: "startTennisAnalysis flakyEnv demoWorld demoBoxes = Some w'" ..
  have init: "initializeTennisTracker flakyEnv demoBoxes
                (width \<lparr>width = 640, height = 360, duration = 3 / 2\<rparr>)
                (height \<lparr>width = 640, height = 360, duration = 3 / 2\<rparr>) = Inr (0, 1 / 50)"
    by (simp add: flakyEnv_def demoEnv_def)
  have load: "video_load flakyEnv ''blob:video'' = Loadedmetadata (3 / 2)"
    by (simp add: flakyEnv_def demoEnv_def)
  have n: "[1..\<lfloor>(3 / 2 :: rat) * 2\<rfloor> - 1] = [1, 2]"
    by (simp add: upto_rec1)
  have sf: "skipFailed flakyEnv (1 / 50) [1, 2] [0] = ([(1 / 2, JsError ''tracking failed'')], [0, 1])"
    by (simp add: frameOutcome_def flakyEnv_def demoEnv_def)
  note t = C4_frame_errors_skipped[OF demo_pre init load run, unfolded n sf]
  have a: "seeks_of (events_since demoWorld w') = [1 / 2, 1]
     \<and> frame_errors_of (events_since demoWorld w') = [(1 / 2, JsError ''tracking failed'')]
     \<and> generate_calls_of (events_since demoWorld w')
         = [([0, 1], \<lparr>width = 640, height = 360, duration = 3 / 2, fps = 30\<rparr>, 1 / 50)]"
    using t by simp
  have b: "error w' = None
     \<and> localStorage w' ''analysis-tennis-1b4e28ba'' = Some ''II''
     \<and> route w' = ''/tennis/results/tennis-1b4e28ba?videoUrl=blob:video''"
    using t[THEN conjunct2, THEN conjunct2, THEN conjunct2, THEN conjunct2, rule_format,
            of 2 "''II''" "''blob:video''"]
    by (simp add: flakyEnv_def demoEnv_def numeral_2_eq_2)
  from run a b show ?thesis by simp
qed

text \<open>
  The tracker rejects frame 1 of a three-frame video: the error is logged, frame 2 is still
  sought and tracked (with the initial frame as the previous one), and the analysis
  completes with the result stored and the results page shown.
\<close>

theorem C4_recovery_counterexample:
  "\<exists>w'. startTennisAnalysis flakyEnv demoWorld demoBoxes = Some w'
     \<and> frame_errors_of (events_since demoWorld w') = [(1 / 2, JsError ''tracking failed'')]
     \<and> seeks_of (events_since demoWorld w') = [1 / 2, 1]
     \<and> map argFrameIndex (track_calls_of (events_since demoWorld w')) = [1, 2]
     \<and> map fst (generate_calls_of (events_since demoWorld w')) = [[0, 1]]
     \<and> error w' = None
     \<and> localStorage w' ''analysis-tennis-1b4e28ba'' = Some ''II''
     \<and> route w' = ''/tennis/results/tennis-1b4e28ba?videoUrl=blob:video''"
  by (simp add: flakyEnv_def demo_defs run_defs frameLoop.simps events_since_def proj_defs)

section \<open>The result is stored, then the results page is shown\<close>

lemma guard_events:
  assumes "videoUrl w = None \<or> videoUrl w = Some [] \<or> videoMetadata w = None"
      and "startTennisAnalysis env w boxes = Some w'"
  shows "w' = w\<lparr>error := Some ''Video not properly loaded. Please try again.'',
                 trace := trace w @ [Call_startTennisAnalysis boxes, Set_error (Some ''Video not properly loaded. Please try again.'')]\<rparr>"
    and "events_since w w' = [Call_startTennisAnalysis boxes, Set_error (Some ''Video not properly loaded. Please try again.'')]"
proof -
  from assms show w': "w' = w\<lparr>error := Some ''Video not properly loaded. Please try again.'',
                 trace := trace w @ [Call_startTennisAnalysis boxes, Set_error (Some ''Video not properly loaded. Please try again.'')]\<rparr>"
    by (simp add: start_guard setter_defs)
  show "events_since w w' = [Call_startTennisAnalysis boxes, Set_error (Some ''Video not properly loaded. Please try again.'')]"
    by (rule events_since_app) (simp add: w')
qed

lemma guard_or_loaded:
  obtains (guard) "videoUrl w = None \<or> videoUrl w = Some [] \<or> videoMetadata w = None"
    | (loaded) url md where "videoUrl w = Some url" "url \<noteq> []" "videoMetadata w = Some md"
  by (cases "videoUrl w"; cases "videoMetadata w") auto

lemma pre_events [simp]:
  "generate_calls_of [Call_startTennisAnalysis boxes, Set_isAnalyzing True, Set_error None,
      Set_progress 0, Set_processingMessage m, Set_analysisId a,
      Call_initializeTennisTracker boxes x y] = []"
  "persistent_of [Call_startTennisAnalysis boxes, Set_isAnalyzing True, Set_error None,
      Set_progress 0, Set_processingMessage m, Set_analysisId a,
      Call_initializeTennisTracker boxes x y] = []"
  "analysis_errors_of [Call_startTennisAnalysis boxes, Set_isAnalyzing True, Set_error None,
      Set_progress 0, Set_processingMessage m, Set_analysisId a,
      Call_initializeTennisTracker boxes x y] = []"
  "seeks_of [Call_startTennisAnalysis boxes, Set_isAnalyzing True, Set_error None,
      Set_progress 0, Set_processingMessage m, Set_analysisId a,
      Call_initializeTennisTracker boxes x y] = []"
  by (simp_all add: proj_defs)

lemma full_storage_run: "\<exists>w'. startTennisAnalysis fullStorageEnv demoWorld demoBoxes = Some w'"
  by (simp add: fullStorageEnv_def demo_defs run_defs frameLoop.simps)

text \<open>
  Claim C3, as amended. When the frame loop has completed and \<^verbatim>\<open>generateAnalysisResult\<close>
  has returned a result, what follows is decided by the first of four calls that throws.
  When \<^verbatim>\<open>JSON.stringify\<close> or \<^verbatim>\<open>localStorage.setItem\<close> throws, nothing is stored and the
  page does not navigate. Otherwise the serialised result is stored under
  \<^verbatim>\<open>analysis-tennis-<uuid>\<close>, and only after that write is the navigation attempted: when
  \<^verbatim>\<open>encodeURIComponent\<close> or \<^verbatim>\<open>router.push\<close> throws, the entry stays stored and the page stays
  where it was; when neither throws, the route is \<^verbatim>\<open>/tennis/results/tennis-<uuid>\<close> with the
  encoded video URL as the query parameter, the run's storage writes and navigations are
  exactly the write followed by the push, and no error is set. In each of the throwing
  cases the exception reaches the outer \<^verbatim>\<open>catch\<close>: the error state is set and
  \<^verbatim>\<open>isAnalyzing\<close> is reset.
\<close>

theorem C3_result_stored_then_navigate:
  assumes pre: "videoUrl w = Some url" "url \<noteq> []" "videoMetadata w = Some md"
      and run: "startTennisAnalysis env w boxes = Some w'"
      and gcall: "(frames, meta, p) \<in> set (generate_calls_of (events_since w w'))"
      and gen: "generateAnalysisResult env frames meta p = Inr analysisResult"
  shows "(case JSON_stringify env analysisResult of
            Inl e \<Rightarrow> localStorage w' = localStorage w \<and> route w' = route w \<and> persistent_of (events_since w w') = [] \<and> error w' = Some (if message e \<noteq> [] then message e else ''Error analyzing video'') \<and> \<not> isAnalyzing w' \<and> analysis_errors_of (events_since w w') = [e]
          | Inr s \<Rightarrow>
              (case setItem_error env (''analysis-'' @ ''tennis-'' @ uuidv4 env) s of
                 Some e \<Rightarrow> localStorage w' = localStorage w \<and> route w' = route w \<and> persistent_of (events_since w w') = [] \<and> error w' = Some (if message e \<noteq> [] then message e else ''Error analyzing video'') \<and> \<not> isAnalyzing w' \<and> analysis_errors_of (events_since w w') = [e]
               | None \<Rightarrow>
                   (case encodeURIComponent env url of
                      Inl e \<Rightarrow> localStorage w' = (localStorage w)(''analysis-'' @ ''tennis-'' @ uuidv4 env \<mapsto> s) \<and> route w' = route w \<and> persistent_of (events_since w w') = [LocalStorage_setItem (''analysis-'' @ ''tennis-'' @ uuidv4 env) s] \<and> error w' = Some (if message e \<noteq> [] then message e else ''Error analyzing video'') \<and> \<not> isAnalyzing w' \<and> analysis_errors_of (events_since w w') = [e]
                    | Inr u \<Rightarrow>
                        (case push_error env (''/tennis/results/'' @ ''tennis-'' @ uuidv4 env @ ''?videoUrl='' @ u) of
                           Some e \<Rightarrow> localStorage w' = (localStorage w)(''analysis-'' @ ''tennis-'' @ uuidv4 env \<mapsto> s) \<and> route w' = route w \<and> persistent_of (events_since w w') = [LocalStorage_setItem (''analysis-'' @ ''tennis-'' @ uuidv4 env) s] \<and> error w' = Some (if message e \<noteq> [] then message e else ''Error analyzing video'') \<and> \<not> isAnalyzing w' \<and> analysis_errors_of (events_since w w') = [e]
                         | None \<Rightarrow> localStorage w' = (localStorage w)(''analysis-'' @ ''tennis-'' @ uuidv4 env \<mapsto> s) \<and> route w' = ''/tennis/results/'' @ ''tennis-'' @ uuidv4 env @ ''?videoUrl='' @ u \<and> persistent_of (events_since w w') = [LocalStorage_setItem (''analysis-'' @ ''tennis-'' @ uuidv4 env) s, Router_push (''/tennis/results/'' @ ''tennis-'' @ uuidv4 env @ ''?videoUrl='' @ u)] \<and> analysisId w' = Some (''tennis-'' @ uuidv4 env) \<and> error w' = None \<and> isAnalyzing w' \<and> analysis_errors_of (events_since w w') = []))))"
  using run_outcome[OF pre run gcall] by (simp only: gen sum.case)

theorem C3_result_stored_then_navigate_witness:
  "\<exists>w'. startTennisAnalysis demoEnv demoWorld demoBoxes = Some w'
     \<and> generate_calls_of (events_since demoWorld w')
         = [([0, 1, 2], \<lparr>width = 640, height = 360, duration = 3 / 2, fps = 30\<rparr>, 1 / 50)]
     \<and> localStorage w' ''analysis-tennis-1b4e28ba'' = Some ''III''
     \<and> route w' = ''/tennis/results/tennis-1b4e28ba?videoUrl=blob:video''
     \<and> persistent_of (events_since demoWorld w')
         = [LocalStorage_setItem ''analysis-tennis-1b4e28ba'' ''III'',
            Router_push ''/tennis/results/tennis-1b4e28ba?videoUrl=blob:video'']"
proof -
  from demo_run obtain w' where run: "startTennisAnalysis demoEnv demoWorld demoBoxes = Some w'" ..
  then have w': "w' = the (startTennisAnalysis demoEnv demoWorld demoBoxes)" by simp
  have gc: "generate_calls_of (events_since demoWorld w')
         = [([0, 1, 2], \<lparr>width = 640, height = 360, duration = 3 / 2, fps = 30\<rparr>, 1 / 50)]"
    unfolding w' by (simp add: demo_defs run_defs frameLoop.simps events_since_def proj_defs
          numeral_2_eq_2)
  then have mem: "([0, 1, 2], \<lparr>width = 640, height = 360, duration = 3 / 2, fps = 30\<rparr>, 1 / 50)
      \<in> set (generate_calls_of (events_since demoWorld w'))" by simp
  have gen: "generateAnalysisResult demoEnv [0, 1, 2]
               \<lparr>width = 640, height = 360, duration = 3 / 2, fps = 30\<rparr> (1 / 50) = Inr 3"
    by (simp add: demoEnv_def)
  from C3_result_stored_then_navigate[OF demo_pre run mem gen] run gc show ?thesis
    by (simp add: demoEnv_def demoWorld_def numeral_3_eq_3)
qed

text \<open>
  The frame loop completes and \<^verbatim>\<open>generateAnalysisResult\<close> returns a result, but local
  storage is full and \<^verbatim>\<open>setItem\<close> throws: nothing is stored under the key, the run makes no
  write and no navigation, the page stays on the analysis page, and the error state holds
  the message of the exception.
\<close>

theorem C3_full_storage_counterexample:
  "\<exists>w'. startTennisAnalysis fullStorageEnv demoWorld demoBoxes = Some w'
     \<and> generate_calls_of (events_since demoWorld w')
         = [([0, 1, 2], \<lparr>width = 640, height = 360, duration = 3 / 2, fps = 30\<rparr>, 1 / 50)]
     \<and> generateAnalysisResult fullStorageEnv [0, 1, 2]
         \<lparr>width = 640, height = 360, duration = 3 / 2, fps = 30\<rparr> (1 / 50) = Inr 3
     \<and> frame_errors_of (events_since demoWorld w') = []
     \<and> localStorage w' ''analysis-tennis-1b4e28ba'' = None
     \<and> persistent_of (events_since demoWorld w') = []
     \<and> route w' = ''/tennis/player-analysis''
     \<and> error w' = Some ''The quota has been exceeded.''"
  by (simp add: fullStorageEnv_def demo_defs run_defs frameLoop.simps events_since_def proj_defs
        numeral_2_eq_2)

section \<open>The tracker is told thirty frames per second\<close>

text \<open>
  Claim C8. Every call of \<^verbatim>\<open>generateAnalysisResult\<close> made by a run carries metadata whose
  \<^verbatim>\<open>fps\<close> is \<open>30\<close>, with the width and height of the page's video metadata and the
  duration the video element reported, while the frames of the same run were sampled half
  a second apart.
\<close>

theorem C8_fps_30:
  assumes run: "startTennisAnalysis env w boxes = Some w'"
      and gcall: "(frames, meta, p) \<in> set (generate_calls_of (events_since w w'))"
  shows "fps meta = 30
       \<and> (\<exists>url md d. videoUrl w = Some url \<and> videoMetadata w = Some md
             \<and> video_load env url = Loadedmetadata d
             \<and> meta = \<lparr>width = width md, height = height md, duration = d, fps = 30\<rparr>
             \<and> seeks_of (events_since w w') = map (\<lambda>k. rat_of_int k / 2) [1..\<lfloor>d * 2\<rfloor> - 1])"
proof (cases rule: guard_or_loaded[of w])
  case guard
  from gcall show ?thesis by (simp add: guard_events(2)[OF guard run] generate_calls_of_def)
next
  case (loaded url md)
  from loaded run show ?thesis
  proof (cases rule: run_shape)
    case (init_throws e)
    from gcall show ?thesis by (simp add: init_throws(3) proj_list)
  next
    case (load_error f0 p')
    from gcall show ?thesis by (simp add: load_error(4) proj_list)
  next
    case (looped f0 p' d frames' w3 tail)
    from gcall frameLoop_quiet[OF looped(3)]
    have m: "meta = \<lparr>width = width md, height = height md, duration = d, fps = 30\<rparr>"
      by (simp add: looped(5,12) proj_list)
    have "seeks_of (events_since w w') = map (\<lambda>k. rat_of_int k / 2) [1..\<lfloor>d * 2\<rfloor> - 1]"
      using frameLoop_seeks[OF looped(3)]
      by (simp add: looped(5,7) proj_list)
    with loaded looped(2) m show ?thesis by simp
  qed
qed

theorem C8_fps_30_witness:
  "\<exists>w'. startTennisAnalysis demoEnv demoWorld demoBoxes = Some w'
     \<and> generate_calls_of (events_since demoWorld w')
         = [([0, 1, 2], \<lparr>width = 640, height = 360, duration = 3 / 2, fps = 30\<rparr>, 1 / 50)]
     \<and> fps \<lparr>width = 640, height = 360, duration = 3 / 2, fps = 30\<rparr> = 30
     \<and> seeks_of (events_since demoWorld w') = [1 / 2, 1]"
proof -
  from demo_run obtain w' where run: "startTennisAnalysis demoEnv demoWorld demoBoxes = Some w'" ..
  then have w': "w' = the (startTennisAnalysis demoEnv demoWorld demoBoxes)" by simp
  have gc: "generate_calls_of (events_since demoWorld w')
         = [([0, 1, 2], \<lparr>width = 640, height = 360, duration = 3 / 2, fps = 30\<rparr>, 1 / 50)]"
    unfolding w' by (simp add: demo_defs run_defs frameLoop.simps events_since_def proj_defs
          numeral_2_eq_2)
  then have mem: "([0, 1, 2], \<lparr>width = 640, height = 360, duration = 3 / 2, fps = 30\<rparr>, 1 / 50)
      \<in> set (generate_calls_of (events_since demoWorld w'))" by simp
  from C8_fps_30[OF run mem] obtain d where
    "(\<lparr>width = 640, height = 360, duration = 3 / 2, fps = 30\<rparr> :: TrackerMetadata)
       = \<lparr>width = 640, height = 360, duration = d, fps = 30\<rparr>"
    and sk: "seeks_of (events_since demoWorld w') = map (\<lambda>k. rat_of_int k / 2) [1..\<lfloor>d * 2\<rfloor> - 1]"
    by (auto simp: demoWorld_def)
  then have "d = 3 / 2" by simp
  with sk have "seeks_of (events_since demoWorld w') = [1 / 2, 1]" by (simp add: upto_rec1)
  with run gc show ?thesis by simp
qed

section \<open>An analysis that fails\<close>

lemma failing_run: "\<exists>w'. startTennisAnalysis (failingEnv msg) demoWorld demoBoxes = Some w'"
  by (simp add: failingEnv_def demo_defs run_defs)

text \<open>
  Claim C9, as amended. When an exception \<open>e\<close> leaves the outer \<^verbatim>\<open>try\<close> block of
  \<^verbatim>\<open>startTennisAnalysis\<close> (the console line of the outer \<^verbatim>\<open>catch\<close> is in the trace), the
  error state is set to the message of the exception or, when that message is empty, to
  \<^verbatim>\<open>Error analyzing video\<close>, \<^verbatim>\<open>isAnalyzing\<close> is reset to false and the route is unchanged.
  When the exception was thrown by the tracker initialisation, by the video load, by the
  result generation, by \<^verbatim>\<open>JSON.stringify\<close> or by \<^verbatim>\<open>localStorage.setItem\<close>, the run writes
  nothing to local storage, which is unchanged. The one other source is the navigation of
  line 178 (\<^verbatim>\<open>encodeURIComponent\<close> or \<^verbatim>\<open>router.push\<close>): then the entry of the analysis has
  been written before the exception and stays in local storage.
\<close>

theorem C9_failed_analysis:
  assumes run: "startTennisAnalysis env w boxes = Some w'"
      and err: "e \<in> set (analysis_errors_of (events_since w w'))"
  shows "error w' = Some (if message e \<noteq> [] then message e else ''Error analyzing video'')
       \<and> \<not> isAnalyzing w' \<and> route w' = route w
       \<and> analysis_errors_of (events_since w w') = [e]
       \<and> (\<exists>url md. videoUrl w = Some url \<and> videoMetadata w = Some md
            \<and> ((persistent_of (events_since w w') = [] \<and> localStorage w' = localStorage w
                 \<and> (initializeTennisTracker env boxes (width md) (height md) = Inl e
                    \<or> (video_load env url = Load_error \<and> e = JsError ''Failed to load video'')
                    \<or> (\<exists>frames meta p.
                          generate_calls_of (events_since w w') = [(frames, meta, p)]
                        \<and> (generateAnalysisResult env frames meta p = Inl e
                           \<or> (\<exists>ar. generateAnalysisResult env frames meta p = Inr ar
                                \<and> (JSON_stringify env ar = Inl e
                                   \<or> (\<exists>s. JSON_stringify env ar = Inr s
                                        \<and> setItem_error env (''analysis-'' @ ''tennis-'' @ uuidv4 env) s = Some e)))))))
               \<or> (\<exists>frames meta p ar s.
                     generate_calls_of (events_since w w') = [(frames, meta, p)]
                   \<and> generateAnalysisResult env frames meta p = Inr ar
                   \<and> JSON_stringify env ar = Inr s
                   \<and> setItem_error env (''analysis-'' @ ''tennis-'' @ uuidv4 env) s = None
                   \<and> navigation_throws env url e
                   \<and> persistent_of (events_since w w')
                       = [LocalStorage_setItem (''analysis-'' @ ''tennis-'' @ uuidv4 env) s]
                   \<and> localStorage w'
                       = (localStorage w)(''analysis-'' @ ''tennis-'' @ uuidv4 env \<mapsto> s))))"
proof (cases rule: guard_or_loaded[of w])
  case guard
  from err show ?thesis by (simp add: guard_events(2)[OF guard run] analysis_errors_of_def)
next
  case (loaded url md)
  from loaded run show ?thesis
  proof (cases rule: run_cases)
    case (init_throws e')
    from err have e: "e = e'"
      by (simp add: init_throws(3) proj_list)
    have "persistent_of (events_since w w') = []"
         "analysis_errors_of (events_since w w') = [e]"
      by (simp_all add: init_throws(3) e proj_list)
    with loaded init_throws(1,4,5,6,7) show ?thesis by (simp add: e)
  next
    case (load_error f0 p')
    from err have e: "e = JsError ''Failed to load video''"
      by (simp add: load_error(4) proj_list)
    have "persistent_of (events_since w w') = []"
         "analysis_errors_of (events_since w w') = [e]"
      by (simp_all add: load_error(4) e proj_list)
    with loaded load_error(2,5,6,7,8) show ?thesis by (simp add: e)
  next
    case (generate_throws f0 p' d frames' w3 e')
    note q = frameLoop_quiet[OF generate_throws(3)] frameLoop_no_analysis_error[OF generate_throws(3)]
    from err q have e: "e = e'"
      by (simp add: generate_throws(6) proj_list)
    from q have "persistent_of (events_since w w') = persistent_of ([Console_error_analysis e',
              Set_error (Some (if message e' \<noteq> [] then message e' else ''Error analyzing video'')),
              Set_isAnalyzing False])"
         "analysis_errors_of (events_since w w') = [e]"
         "generate_calls_of (events_since w w') = [(frames', \<lparr>width = width md, height = height md, duration = d, fps = 30\<rparr>, p')]"
      by (simp_all add: generate_throws(6) e proj_list)
    with loaded generate_throws(1,2,4,7,8,9,10) show ?thesis
      by (simp add: e navigation_throws_def proj_list)
  next
    case (stringify_throws f0 p' d frames' w3 ar e')
    note q = frameLoop_quiet[OF stringify_throws(3)] frameLoop_no_analysis_error[OF stringify_throws(3)]
    from err q have e: "e = e'"
      by (simp add: stringify_throws(6) proj_list)
    from q have "persistent_of (events_since w w') = persistent_of ([Console_error_analysis e',
              Set_error (Some (if message e' \<noteq> [] then message e' else ''Error analyzing video'')),
              Set_isAnalyzing False])"
         "analysis_errors_of (events_since w w') = [e]"
         "generate_calls_of (events_since w w') = [(frames', \<lparr>width = width md, height = height md, duration = d, fps = 30\<rparr>, p')]"
      by (simp_all add: stringify_throws(6) e proj_list)
    with loaded stringify_throws(1,2,4,7,8,9,10) stringify_throws(12) show ?thesis
      by (simp add: e navigation_throws_def proj_list)
  next
    case (setItem_throws f0 p' d frames' w3 ar s e')
    note q = frameLoop_quiet[OF setItem_throws(3)] frameLoop_no_analysis_error[OF setItem_throws(3)]
    from err q have e: "e = e'"
      by (simp add: setItem_throws(6) proj_list)
    from q have "persistent_of (events_since w w') = persistent_of ([Console_error_analysis e',
              Set_error (Some (if message e' \<noteq> [] then message e' else ''Error analyzing video'')),
              Set_isAnalyzing False])"
         "analysis_errors_of (events_since w w') = [e]"
         "generate_calls_of (events_since w w') = [(frames', \<lparr>width = width md, height = height md, duration = d, fps = 30\<rparr>, p')]"
      by (simp_all add: setItem_throws(6) e proj_list)
    with loaded setItem_throws(1,2,4,7,8,9,10) setItem_throws(12,13) show ?thesis
      by (simp add: e navigation_throws_def proj_list)
  next
    case (encode_throws f0 p' d frames' w3 ar s e')
    note q = frameLoop_quiet[OF encode_throws(3)] frameLoop_no_analysis_error[OF encode_throws(3)]
    from err q have e: "e = e'"
      by (simp add: encode_throws(6) proj_list)
    from q have "persistent_of (events_since w w') = persistent_of ([LocalStorage_setItem (''analysis-'' @ ''tennis-'' @ uuidv4 env) s] @ [Console_error_analysis e',
              Set_error (Some (if message e' \<noteq> [] then message e' else ''Error analyzing video'')),
              Set_isAnalyzing False])"
         "analysis_errors_of (events_since w w') = [e]"
         "generate_calls_of (events_since w w') = [(frames', \<lparr>width = width md, height = height md, duration = d, fps = 30\<rparr>, p')]"
      by (simp_all add: encode_throws(6) e proj_list)
    with loaded encode_throws(1,2,4,7,8,9,10) encode_throws(12,13,14) show ?thesis
      by (simp add: e navigation_throws_def proj_list)
  next
    case (push_throws f0 p' d frames' w3 ar s u e')
    note q = frameLoop_quiet[OF push_throws(3)] frameLoop_no_analysis_error[OF push_throws(3)]
    from err q have e: "e = e'"
      by (simp add: push_throws(6) proj_list)
    from q have "persistent_of (events_since w w') = persistent_of ([LocalStorage_setItem (''analysis-'' @ ''tennis-'' @ uuidv4 env) s] @ [Console_error_analysis e',
              Set_error (Some (if message e' \<noteq> [] then message e' else ''Error analyzing video'')),
              Set_isAnalyzing False])"
         "analysis_errors_of (events_since w w') = [e]"
         "generate_calls_of (events_since w w') = [(frames', \<lparr>width = width md, height = height md, duration = d, fps = 30\<rparr>, p')]"
      by (simp_all add: push_throws(6) e proj_list)
    with loaded push_throws(1,2,4,7,8,9,10) push_throws(12,13,14,15) show ?thesis
      by (simp add: e navigation_throws_def proj_list)
  next
    case (stored f0 p' d frames' w3 ar s u)
    note q = frameLoop_quiet[OF stored(3)] frameLoop_no_analysis_error[OF stored(3)]
    from err q show ?thesis
      by (simp add: stored(6) proj_list)
  qed
qed

theorem C9_failed_analysis_witness:
  "\<exists>w'. startTennisAnalysis (failingEnv ''No player in the first box'') demoWorld demoBoxes = Some w'
     \<and> analysis_errors_of (events_since demoWorld w') = [JsError ''No player in the first box'']
     \<and> route w' = route demoWorld
     \<and> error w' = Some ''No player in the first box''
     \<and> \<not> isAnalyzing w'"
proof -
  from failing_run obtain w' where
    run: "startTennisAnalysis (failingEnv ''No player in the first box'') demoWorld demoBoxes = Some w'" ..
  then have w': "w' = the (startTennisAnalysis (failingEnv ''No player in the first box'') demoWorld demoBoxes)"
    by simp
  have ae: "analysis_errors_of (events_since demoWorld w') = [JsError ''No player in the first box'']"
    unfolding w' by (simp add: failingEnv_def demo_defs run_defs events_since_def proj_defs)
  then have mem: "JsError ''No player in the first box''
      \<in> set (analysis_errors_of (events_since demoWorld w'))" by simp
  from C9_failed_analysis[OF run mem] run ae show ?thesis by simp
qed

text \<open>
  Two runs. In the first the tracker initialisation throws an error with the empty
  message: the error state is \<^verbatim>\<open>Error analyzing video\<close>, not the message of the exception.
  In the second everything up to the write succeeds and \<^verbatim>\<open>encodeURIComponent\<close> throws on
  the video URL: the exception leaves the outer \<^verbatim>\<open>try\<close> block from a fourth place, after
  the entry was written, and local storage is not what it was.
\<close>

theorem C9_escaping_exception_counterexample:
  "(\<exists>w'. startTennisAnalysis (failingEnv []) demoWorld demoBoxes = Some w'
      \<and> initializeTennisTracker (failingEnv []) demoBoxes 640 360 = Inl (JsError [])
      \<and> analysis_errors_of (events_since demoWorld w') = [JsError []]
      \<and> error w' = Some ''Error analyzing video''
      \<and> error w' \<noteq> Some (message (JsError [])))
   \<and> (\<exists>w'. startTennisAnalysis badUrlEnv demoWorld demoBoxes = Some w'
      \<and> analysis_errors_of (events_since demoWorld w') = [JsError ''URI malformed'']
      \<and> persistent_of (events_since demoWorld w')
          = [LocalStorage_setItem ''analysis-tennis-1b4e28ba'' ''III'']
      \<and> localStorage demoWorld ''analysis-tennis-1b4e28ba'' = None
      \<and> localStorage w' ''analysis-tennis-1b4e28ba'' = Some ''III''
      \<and> route w' = route demoWorld
      \<and> error w' = Some ''URI malformed'')"
proof
  show "\<exists>w'. startTennisAnalysis (failingEnv []) demoWorld demoBoxes = Some w'
      \<and> initializeTennisTracker (failingEnv []) demoBoxes 640 360 = Inl (JsError [])
      \<and> analysis_errors_of (events_since demoWorld w') = [JsError []]
      \<and> error w' = Some ''Error analyzing video''
      \<and> error w' \<noteq> Some (message (JsError []))"
    by (simp add: failingEnv_def demo_defs run_defs events_since_def proj_defs)
  show "\<exists>w'. startTennisAnalysis badUrlEnv demoWorld demoBoxes = Some w'
      \<and> analysis_errors_of (events_since demoWorld w') = [JsError ''URI malformed'']
      \<and> persistent_of (events_since demoWorld w')
          = [LocalStorage_setItem ''analysis-tennis-1b4e28ba'' ''III'']
      \<and> localStorage demoWorld ''analysis-tennis-1b4e28ba'' = None
      \<and> localStorage w' ''analysis-tennis-1b4e28ba'' = Some ''III''
      \<and> route w' = route demoWorld
      \<and> error w' = Some ''URI malformed''"
    by (simp add: badUrlEnv_def demo_defs run_defs frameLoop.simps events_since_def proj_defs
          numeral_2_eq_2 numeral_3_eq_3)
qed

section \<open>No analysis without a loaded video\<close>

text \<open>
  Claim C7. When \<^verbatim>\<open>videoUrl\<close> or \<^verbatim>\<open>videoMetadata\<close> is \<^verbatim>\<open>null\<close>, \<^verbatim>\<open>startTennisAnalysis\<close>
  sets the error \<^verbatim>\<open>Video not properly loaded. Please try again.\<close> and returns: nothing else
  of the state changes (\<^verbatim>\<open>isAnalyzing\<close>, the analysis id, the progress and its message,
  local storage and the route are as before), and the trace of the call holds the error
  only, with no analysis id set and no call of \<^verbatim>\<open>initializeTennisTracker\<close>.
\<close>

theorem C7_video_not_loaded:
  assumes "videoUrl w = None \<or> videoMetadata w = None"
  shows "startTennisAnalysis env w boxes
           = Some (w\<lparr>error := Some ''Video not properly loaded. Please try again.'',
                     trace := trace w @ [Call_startTennisAnalysis boxes,
                                         Set_error (Some ''Video not properly loaded. Please try again.'')]\<rparr>)
       \<and> (\<forall>w'. startTennisAnalysis env w boxes = Some w' \<longrightarrow>
              error w' = Some ''Video not properly loaded. Please try again.''
            \<and> isAnalyzing w' = isAnalyzing w \<and> analysisId w' = analysisId w
            \<and> progress w' = progress w \<and> processingMessage w' = processingMessage w
            \<and> localStorage w' = localStorage w \<and> route w' = route w
            \<and> events_since w w' = [Call_startTennisAnalysis boxes, Set_error (Some ''Video not properly loaded. Please try again.'')])"
proof -
  have g: "videoUrl w = None \<or> videoUrl w = Some [] \<or> videoMetadata w = None"
    using assms by (elim disjE) simp_all
  have 1: "startTennisAnalysis env w boxes
           = Some (w\<lparr>error := Some ''Video not properly loaded. Please try again.'',
                     trace := trace w @ [Call_startTennisAnalysis boxes,
                                         Set_error (Some ''Video not properly loaded. Please try again.'')]\<rparr>)"
    by (simp add: start_guard[OF g] setter_defs)
  have 2: "events_since w (w\<lparr>error := Some ''Video not properly loaded. Please try again.'',
                     trace := trace w @ [Call_startTennisAnalysis boxes,
                                         Set_error (Some ''Video not properly loaded. Please try again.'')]\<rparr>)
             = [Call_startTennisAnalysis boxes, Set_error (Some ''Video not properly loaded. Please try again.'')]"
    by (rule events_since_app) simp
  from 1 2 show ?thesis by simp
qed

theorem C7_video_not_loaded_witness:
  "videoMetadata (demoWorld\<lparr>videoMetadata := None\<rparr>) = None
   \<and> (\<exists>w'. startTennisAnalysis demoEnv (demoWorld\<lparr>videoMetadata := None\<rparr>) demoBoxes = Some w'
         \<and> error w' = Some ''Video not properly loaded. Please try again.''
         \<and> isAnalyzing w' = False \<and> analysisId w' = None
         \<and> trace w' = [Call_startTennisAnalysis demoBoxes, Set_error (Some ''Video not properly loaded. Please try again.'')])"
proof -
  have h: "videoUrl (demoWorld\<lparr>videoMetadata := None\<rparr>) = None
         \<or> videoMetadata (demoWorld\<lparr>videoMetadata := None\<rparr>) = None" by simp
  from C7_video_not_loaded[OF h, of demoEnv demoBoxes] show ?thesis
    by (simp add: demoWorld_def)
qed

section \<open>The boxes of the player and of the ball are both required\<close>

lemma start_called:
  assumes "startTennisAnalysis env w boxes = Some w'"
  shows "\<exists>es. trace w' = trace w @ Call_startTennisAnalysis boxes # es"
proof (cases rule: guard_or_loaded[of w])
  case guard
  show ?thesis by (simp add: guard_events(1)[OF guard assms])
next
  case (loaded url md)
  from loaded assms show ?thesis
  proof (cases rule: run_shape)
    case (init_throws e)
    show ?thesis by (simp add: init_throws(2,3))
  next
    case (load_error f0 p)
    show ?thesis by (simp add: load_error(3,4))
  next
    case (looped f0 p d frames w3 tail)
    show ?thesis by (simp add: looped(4,5))
  qed
qed

lemma handle_run: "\<exists>w'. handleBoxesSelected demoEnv demoWorld demoBoxes = Some w'"
  by (simp add: handleBoxesSelected_def demo_defs run_defs frameLoop.simps)

text \<open>
  Claim C2. With a box labelled \<^verbatim>\<open>player\<close> and a box labelled \<^verbatim>\<open>ball\<close> in the list,
  \<^verbatim>\<open>handleBoxesSelected\<close> stores the boxes, hides the selector and is the call of
  \<^verbatim>\<open>startTennisAnalysis\<close> with the boxes. When one of the two labels is missing it sets the
  error \<^verbatim>\<open>Please draw bounding boxes for both the player and the ball.\<close> and does nothing
  else: the boxes are not stored. The call of \<^verbatim>\<open>startTennisAnalysis\<close> is in the trace if
  and only if both labels are present.
\<close>

theorem C2_boxes_gate:
  "(list_ex (\<lambda>box. label box = ''player'') boxes \<and> list_ex (\<lambda>box. label box = ''ball'') boxes
      \<longrightarrow> handleBoxesSelected env w boxes
            = startTennisAnalysis env
                (setShowBoundingBoxSelector False (setSelectedBoxes boxes w)) boxes)
   \<and> (\<not> (list_ex (\<lambda>box. label box = ''player'') boxes
          \<and> list_ex (\<lambda>box. label box = ''ball'') boxes)
      \<longrightarrow> handleBoxesSelected env w boxes
            = Some (w\<lparr>error := Some ''Please draw bounding boxes for both the player and the ball.'', trace := trace w @ [Set_error (Some ''Please draw bounding boxes for both the player and the ball.'')]\<rparr>))
   \<and> (\<forall>w'. handleBoxesSelected env w boxes = Some w' \<longrightarrow>
          (Call_startTennisAnalysis boxes \<in> set (events_since w w')
             \<longleftrightarrow> list_ex (\<lambda>box. label box = ''player'') boxes
                 \<and> list_ex (\<lambda>box. label box = ''ball'') boxes))"
proof (cases "list_ex (\<lambda>box. label box = ''player'') boxes
              \<and> list_ex (\<lambda>box. label box = ''ball'') boxes")
  case True
  have h: "handleBoxesSelected env w boxes
            = startTennisAnalysis env
                (setShowBoundingBoxSelector False (setSelectedBoxes boxes w)) boxes"
    using True by (simp add: handleBoxesSelected_def)
  have "Call_startTennisAnalysis boxes \<in> set (events_since w w')"
    if "handleBoxesSelected env w boxes = Some w'" for w'
  proof -
    from that h have "startTennisAnalysis env
                (setShowBoundingBoxSelector False (setSelectedBoxes boxes w)) boxes = Some w'"
      by simp
    from start_called[OF this] obtain es where
      "trace w' = trace (setShowBoundingBoxSelector False (setSelectedBoxes boxes w))
                    @ Call_startTennisAnalysis boxes # es" ..
    then have "trace w' = trace w @ ([Set_selectedBoxes boxes, Set_showBoundingBoxSelector False]
                 @ Call_startTennisAnalysis boxes # es)"
      by (simp add: setter_defs)
    from events_since_app[OF this] show ?thesis by simp
  qed
  with True h show ?thesis by simp
next
  case False
  have h: "handleBoxesSelected env w boxes
            = Some (w\<lparr>error := Some ''Please draw bounding boxes for both the player and the ball.'', trace := trace w @ [Set_error (Some ''Please draw bounding boxes for both the player and the ball.'')]\<rparr>)"
    using False by (auto simp: handleBoxesSelected_def setter_defs)
  have ev: "events_since w (w\<lparr>error := Some ''Please draw bounding boxes for both the player and the ball.'', trace := trace w @ [Set_error (Some ''Please draw bounding boxes for both the player and the ball.'')]\<rparr>)
          = [Set_error (Some ''Please draw bounding boxes for both the player and the ball.'')]"
    by (rule events_since_app) simp
  show ?thesis
  proof (intro conjI impI allI)
    assume "list_ex (\<lambda>box. label box = ''player'') boxes
              \<and> list_ex (\<lambda>box. label box = ''ball'') boxes"
    with False show "handleBoxesSelected env w boxes
            = startTennisAnalysis env
                (setShowBoundingBoxSelector False (setSelectedBoxes boxes w)) boxes"
      by simp
  next
    show "handleBoxesSelected env w boxes
            = Some (w\<lparr>error := Some ''Please draw bounding boxes for both the player and the ball.'', trace := trace w @ [Set_error (Some ''Please draw bounding boxes for both the player and the ball.'')]\<rparr>)"
      by (rule h)
  next
    fix w' assume "handleBoxesSelected env w boxes = Some w'"
    with h have "w' = w\<lparr>error := Some ''Please draw bounding boxes for both the player and the ball.'', trace := trace w @ [Set_error (Some ''Please draw bounding boxes for both the player and the ball.'')]\<rparr>"
      by simp
    with ev have "events_since w w' = [Set_error (Some ''Please draw bounding boxes for both the player and the ball.'')]" by simp
    with False show "Call_startTennisAnalysis boxes \<in> set (events_since w w')
             \<longleftrightarrow> list_ex (\<lambda>box. label box = ''player'') boxes
                 \<and> list_ex (\<lambda>box. label box = ''ball'') boxes"
      by simp
  qed
qed

theorem C2_boxes_gate_witness:
  "(\<exists>w'. handleBoxesSelected demoEnv demoWorld demoBoxes = Some w'
        \<and> Call_startTennisAnalysis demoBoxes \<in> set (events_since demoWorld w'))
   \<and> handleBoxesSelected demoEnv demoWorld [\<lparr>label = ''player''\<rparr>]
       = Some (demoWorld\<lparr>error := Some ''Please draw bounding boxes for both the player and the ball.'', trace := [Set_error (Some ''Please draw bounding boxes for both the player and the ball.'')]\<rparr>)"
proof -
  from handle_run obtain w' where run: "handleBoxesSelected demoEnv demoWorld demoBoxes = Some w'" ..
  have both: "list_ex (\<lambda>box. label box = ''player'') demoBoxes
              \<and> list_ex (\<lambda>box. label box = ''ball'') demoBoxes"
    by (simp add: demoBoxes_def)
  from C2_boxes_gate[of demoBoxes demoEnv demoWorld] run both
  have 1: "Call_startTennisAnalysis demoBoxes \<in> set (events_since demoWorld w')" by blast
  have 2: "handleBoxesSelected demoEnv demoWorld [\<lparr>label = ''player''\<rparr>]
       = Some (demoWorld\<lparr>error := Some ''Please draw bounding boxes for both the player and the ball.'', trace := [Set_error (Some ''Please draw bounding boxes for both the player and the ball.'')]\<rparr>)"
    using C2_boxes_gate[of "[\<lparr>label = ''player''\<rparr>]" demoEnv demoWorld]
    by (simp add: demoWorld_def)
  from run 1 2 show ?thesis by blast
qed

section \<open>The results page reads local storage before the API\<close>

text \<open>
  Claim C5, as amended. \<^verbatim>\<open>fetchAnalysis\<close> first reads the local storage key \<^verbatim>\<open>analysis-\<close>
  followed by the id. When the key holds a string that is not empty, the API is never
  contacted: if the string parses, the parsed entry becomes the tennis analysis (and the
  \<^verbatim>\<open>analysis_result\<close> of the analysis shown) and loading ends; if it does not parse, the
  error state is set and loading ends. When the key is absent or holds the empty string,
  \<^verbatim>\<open>/api/analysis/<id>\<close> is fetched.
\<close>

theorem C5_local_storage_first:
  "(\<forall>s. ls (''analysis-'' @ id') = Some s \<and> s \<noteq> [] \<longrightarrow>
       (\<exists>st'. fetchAnalysis env ls q id' st = Some st'
          \<and> requests st' = requests st \<and> loading st' = False
          \<and> (\<forall>parsed. JSON_parse env s = Inr parsed \<longrightarrow>
                 tennisAnalysis st' = parsed \<and> error_r st' = error_r st
               \<and> getField (typeError env) (analysis st') ''analysis_result'' = Inr parsed)
          \<and> (\<forall>e. JSON_parse env s = Inl e \<longrightarrow>
                 tennisAnalysis st' = tennisAnalysis st \<and> analysis st' = analysis st
               \<and> error_r st' = Some (if message e \<noteq> [] then message e
                                      else ''Error fetching analysis''))))
   \<and> (ls (''analysis-'' @ id') = None \<or> ls (''analysis-'' @ id') = Some [] \<longrightarrow>
       (\<forall>st'. fetchAnalysis env ls q id' st = Some st' \<longrightarrow>
          requests st' = requests st @ [''/api/analysis/'' @ id']))"
proof (intro conjI allI impI)
  fix s assume s: "ls (''analysis-'' @ id') = Some s \<and> s \<noteq> []"
  show "\<exists>st'. fetchAnalysis env ls q id' st = Some st'
          \<and> requests st' = requests st \<and> loading st' = False
          \<and> (\<forall>parsed. JSON_parse env s = Inr parsed \<longrightarrow>
                 tennisAnalysis st' = parsed \<and> error_r st' = error_r st
               \<and> getField (typeError env) (analysis st') ''analysis_result'' = Inr parsed)
          \<and> (\<forall>e. JSON_parse env s = Inl e \<longrightarrow>
                 tennisAnalysis st' = tennisAnalysis st \<and> analysis st' = analysis st
               \<and> error_r st' = Some (if message e \<noteq> [] then message e
                                      else ''Error fetching analysis''))"
  proof (cases "JSON_parse env s")
    case (Inl e)
    with s show ?thesis by (simp add: fetchAnalysis_def fetchCatch_def Let_def)
  next
    case (Inr parsed)
    with s show ?thesis by (simp add: fetchAnalysis_def Let_def)
  qed
next
  fix st'
  assume k: "ls (''analysis-'' @ id') = None \<or> ls (''analysis-'' @ id') = Some []"
    and run: "fetchAnalysis env ls q id' st = Some st'"
  from k have c: "\<not> (ls (''analysis-'' @ id') \<noteq> None \<and> ls (''analysis-'' @ id') \<noteq> Some [])"
    by auto
  from run show "requests st' = requests st @ [''/api/analysis/'' @ id']"
    unfolding fetchAnalysis_def Let_def if_not_P[OF c]
    by (auto simp: fetchCatch_def split: fetch_outcome.splits sum.splits if_splits)
qed

theorem C5_local_storage_first_witness:
  "storedEntry (''analysis-'' @ ''tennis-1b4e28ba'') = Some ''{}''
   \<and> (\<exists>st'. fetchAnalysis demoResultsEnv storedEntry (Some ''blob:video'') ''tennis-1b4e28ba''
              demoResultsPage = Some st'
         \<and> requests st' = [] \<and> loading st' = False \<and> tennisAnalysis st' = JObj [])
   \<and> (\<exists>st'. fetchAnalysis demoResultsEnv (\<lambda>k. None) None ''tennis-1b4e28ba'' demoResultsPage
              = Some st'
         \<and> requests st' = [''/api/analysis/tennis-1b4e28ba''])"
proof -
  have k: "storedEntry (''analysis-'' @ ''tennis-1b4e28ba'') = Some ''{}'' \<and> ''{}'' \<noteq> []"
    by (simp add: storedEntry_def)
  have p: "JSON_parse demoResultsEnv ''{}'' = Inr (JObj [])" by (simp add: demoResultsEnv_def)
  from C5_local_storage_first[of storedEntry "''tennis-1b4e28ba''" demoResultsEnv
         "Some ''blob:video''" demoResultsPage] k p
  have 1: "\<exists>st'. fetchAnalysis demoResultsEnv storedEntry (Some ''blob:video'') ''tennis-1b4e28ba''
              demoResultsPage = Some st'
         \<and> requests st' = [] \<and> loading st' = False \<and> tennisAnalysis st' = JObj []"
    by (auto simp: demoResultsPage_def)
  have r: "\<exists>st'. fetchAnalysis demoResultsEnv (\<lambda>k. None) None ''tennis-1b4e28ba'' demoResultsPage
              = Some st'"
    by (simp add: fetchAnalysis_def demoResultsEnv_def fetchCatch_def Let_def)
  then obtain st' where
    run: "fetchAnalysis demoResultsEnv (\<lambda>k. None) None ''tennis-1b4e28ba'' demoResultsPage = Some st'" ..
  from C5_local_storage_first[of "\<lambda>k. None" "''tennis-1b4e28ba''" demoResultsEnv None demoResultsPage] run
  have "requests st' = [''/api/analysis/tennis-1b4e28ba'']"
    by (simp add: demoResultsPage_def)
  with run have 2: "\<exists>st'. fetchAnalysis demoResultsEnv (\<lambda>k. None) None ''tennis-1b4e28ba''
              demoResultsPage = Some st'
         \<and> requests st' = [''/api/analysis/tennis-1b4e28ba'']" by blast
  from k 1 2 show ?thesis by simp
qed

text \<open>
  The key is present and holds the empty string: the API is contacted all the same, and
  its answer decides what the page shows.
\<close>

theorem C5_empty_entry_counterexample:
  "emptyEntry ''analysis-tennis-1b4e28ba'' = Some []
   \<and> emptyEntry ''analysis-tennis-1b4e28ba'' \<noteq> None
   \<and> (\<exists>st'. fetchAnalysis demoResultsEnv emptyEntry None ''tennis-1b4e28ba'' demoResultsPage
              = Some st'
         \<and> requests st' = [''/api/analysis/tennis-1b4e28ba'']
         \<and> tennisAnalysis st' = JNull
         \<and> error_r st' = Some ''Analysis not found'')"
  by (simp add: emptyEntry_def fetchAnalysis_def demoResultsEnv_def demoResultsPage_def
        fetchCatch_def Let_def)

end
